(* ===== verification/Prelude.thy ===== *)
theory Prelude
  imports Main "HOL-Library.AList" "HOL-Library.Multiset"
begin

text \<open>
  Shared vocabulary of the development.

  \<^item> Timestamps. Every timestamp of the program is produced by \<open>Date.toISOString\<close>, a fixed
    width UTC string; comparing two of them as strings or after \<open>Date.parse\<close> gives the order
    of the instants. The model keeps the instant: an \<open>int\<close> of epoch milliseconds.
  \<^item> Strings are lists of code units below 256; identifiers are strings.
  \<^item> A JavaScript \<open>Map\<close> is an association list in insertion order: \<open>AList.update\<close> overwrites in
    place or appends, as \<open>Map.set\<close> does, and \<open>map_of\<close> is \<open>Map.get\<close>.
  \<^item> \<open>Array.prototype.sort\<close> is stable; \<open>sort_le\<close> is the stable sort by a comparator.
  \<^item> A thrown error is \<open>Inl\<close> of a datatype naming the error, a normal return is \<open>Inr\<close>.
\<close>

section \<open>Types and collections of facts\<close>

type_synonym timestamp = int
type_synonym ident = string

named_theorems model_defs \<open>definitions unfolded by the one-step proofs\<close>

section \<open>Results\<close>

definition bindR :: "'e + 'a \<Rightarrow> ('a \<Rightarrow> 'e + 'b) \<Rightarrow> 'e + 'b" where
  "bindR m f = (case m of Inl e \<Rightarrow> Inl e | Inr x \<Rightarrow> f x)"

lemma bindR_simps [simp]:
  "bindR (Inl e) f = Inl e"
  "bindR (Inr x) f = f x"
  by (simp_all add: bindR_def)

lemma bindR_eq_Inr_conv: "bindR m f = Inr y \<longleftrightarrow> (\<exists>x. m = Inr x \<and> f x = Inr y)"
  by (cases m) auto

lemma bindR_eq_Inl_conv:
  "bindR m f = Inl e \<longleftrightarrow> m = Inl e \<or> (\<exists>x. m = Inr x \<and> f x = Inl e)"
  by (cases m) auto

definition ensure :: "bool \<Rightarrow> 'e \<Rightarrow> 'e + unit" where
  "ensure b e = (if b then Inr () else Inl e)"

lemma ensure_simps [simp]:
  "ensure b e = Inr u \<longleftrightarrow> b"
  "ensure b e = Inl e' \<longleftrightarrow> \<not> b \<and> e' = e"
  "ensure True e = Inr ()"
  "ensure False e = Inl e"
  by (auto simp: ensure_def)

lemma bindR_ensure: "bindR (ensure b e) f = (if b then f () else Inl e)"
  by (simp add: ensure_def)

definition is_ok :: "'e + 'a \<Rightarrow> bool" where
  "is_ok r = (case r of Inl _ \<Rightarrow> False | Inr _ \<Rightarrow> True)"

lemma is_ok_simps [simp]: "is_ok (Inr x)" "\<not> is_ok (Inl e)"
  by (simp_all add: is_ok_def)

lemma is_ok_iff: "is_ok r \<longleftrightarrow> (\<exists>x. r = Inr x)"
  by (cases r) simp_all

section \<open>Options\<close>

definition or_default :: "'a option \<Rightarrow> 'a \<Rightarrow> 'a" where
  \<comment> \<open>the operator \<open>??\<close>\<close>
  "or_default x d = (case x of None \<Rightarrow> d | Some v \<Rightarrow> v)"

lemma or_default_simps [simp]: "or_default None d = d" "or_default (Some v) d = v"
  by (simp_all add: or_default_def)

section \<open>Strings\<close>

definition is_js_space :: "char \<Rightarrow> bool" where
  \<comment> \<open>the white space and line terminators of \<open>String.prototype.trim\<close> below code unit 256\<close>
  "is_js_space c = (let n = (of_char c :: nat) in n \<in> {9, 10, 11, 12, 13, 32, 160})"

definition js_trim :: "string \<Rightarrow> string" where
  "js_trim s = rev (dropWhile is_js_space (rev (dropWhile is_js_space s)))"

definition blank :: "string \<Rightarrow> bool" where
  \<comment> \<open>\<open>!value.trim()\<close>\<close>
  "blank s = (js_trim s = [])"

lemma js_trim_Nil [simp]: "js_trim [] = []"
  by (simp add: js_trim_def)

lemma blank_iff: "blank s \<longleftrightarrow> (\<forall>c \<in> set s. is_js_space c)"
proof -
  have "set (dropWhile is_js_space s) \<subseteq> Collect is_js_space \<longleftrightarrow> (\<forall>c \<in> set s. is_js_space c)"
    by (induction s) auto
  then show ?thesis
    by (auto simp: blank_def js_trim_def)
qed

section \<open>Stable sorting by a comparator\<close>

fun insort_le :: "('a \<Rightarrow> 'a \<Rightarrow> bool) \<Rightarrow> 'a \<Rightarrow> 'a list \<Rightarrow> 'a list" where
  "insort_le le x [] = [x]"
| "insort_le le x (y # ys) = (if le x y then x # y # ys else y # insort_le le x ys)"

definition sort_le :: "('a \<Rightarrow> 'a \<Rightarrow> bool) \<Rightarrow> 'a list \<Rightarrow> 'a list" where
  "sort_le le xs = foldr (insort_le le) xs []"

lemma sort_le_simps [simp]:
  "sort_le le [] = []"
  "sort_le le (x # xs) = insort_le le x (sort_le le xs)"
  by (simp_all add: sort_le_def)

lemma mset_insort_le [simp]: "mset (insort_le le x xs) = add_mset x (mset xs)"
  by (induction xs) auto

lemma mset_sort_le [simp]: "mset (sort_le le xs) = mset xs"
  by (induction xs) auto

lemma set_sort_le [simp]: "set (sort_le le xs) = set xs"
  using mset_sort_le by (metis set_mset_mset)

lemma set_insort_le [simp]: "set (insort_le le x xs) = insert x (set xs)"
  using mset_insort_le by (metis set_mset_mset set_mset_add_mset_insert)

lemma length_sort_le [simp]: "length (sort_le le xs) = length xs"
  using mset_sort_le by (metis size_mset)

lemma sort_le_eq_Nil_iff [simp]: "sort_le le xs = [] \<longleftrightarrow> xs = []"
  using length_sort_le by (metis length_0_conv)

lemma distinct_sort_le [simp]: "distinct (sort_le le xs) \<longleftrightarrow> distinct xs"
  by (metis mset_eq_imp_distinct_iff mset_sort_le)

lemma insort_le_sorted:
  assumes tot: "\<And>a b. le a b \<or> le b a" and tr: "\<And>a b c. le a b \<Longrightarrow> le b c \<Longrightarrow> le a c"
  shows "sorted_wrt le xs \<Longrightarrow> sorted_wrt le (insort_le le x xs)"
  by (induction xs) (use tot tr in \<open>auto dest: tr\<close>)

lemma sort_le_sorted:
  assumes "\<And>a b. le a b \<or> le b a" and "\<And>a b c. le a b \<Longrightarrow> le b c \<Longrightarrow> le a c"
  shows "sorted_wrt le (sort_le le xs)"
  by (induction xs) (auto intro!: insort_le_sorted assms(1) dest: assms(2))

lemma filter_insort_le:
  "(\<And>y. y \<in> set xs \<Longrightarrow> P x \<Longrightarrow> P y \<Longrightarrow> le x y) \<Longrightarrow>
   filter P (insort_le le x xs) = (if P x then x # filter P xs else filter P xs)"
  by (induction xs) auto

lemma sort_le_stable:
  "(\<And>x y. x \<in> set xs \<Longrightarrow> y \<in> set xs \<Longrightarrow> P x \<Longrightarrow> P y \<Longrightarrow> le x y) \<Longrightarrow>
   filter P (sort_le le xs) = filter P xs"
proof (induction xs)
  case Nil
  then show ?case by simp
next
  case (Cons a xs)
  have "filter P (insort_le le a (sort_le le xs))
      = (if P a then a # filter P (sort_le le xs) else filter P (sort_le le xs))"
    by (rule filter_insort_le) (use Cons.prems in auto)
  moreover have "filter P (sort_le le xs) = filter P xs"
    by (rule Cons.IH) (use Cons.prems in auto)
  ultimately show ?case by simp
qed

text \<open>
  A comparator in the sense \<open>sort\<close> needs: any two elements are comparable and the order is
  transitive. This is what the program relies on when it passes \<open>localeCompare\<close>.
\<close>

definition is_comparator :: "('a \<Rightarrow> 'a \<Rightarrow> int) \<Rightarrow> bool" where
  "is_comparator cmp \<longleftrightarrow>
     (\<forall>a b. cmp a b \<le> 0 \<or> cmp b a \<le> 0) \<and>
     (\<forall>a b c. cmp a b \<le> 0 \<longrightarrow> cmp b c \<le> 0 \<longrightarrow> cmp a c \<le> 0)"

lemma is_comparatorD:
  assumes "is_comparator cmp"
  shows "cmp a b \<le> 0 \<or> cmp b a \<le> 0" and "cmp a b \<le> 0 \<Longrightarrow> cmp b c \<le> 0 \<Longrightarrow> cmp a c \<le> 0"
  using assms by (auto simp: is_comparator_def)

lemma sort_by_comparator_sorted:
  "is_comparator cmp \<Longrightarrow>
   sorted_wrt (\<lambda>a b. cmp a b \<le> 0) (sort_le (\<lambda>a b. cmp a b \<le> 0) xs)"
  by (rule sort_le_sorted) (auto dest: is_comparatorD)

fun code_unit_compare :: "string \<Rightarrow> string \<Rightarrow> int" where
  \<comment> \<open>the order of \<open><\<close> on strings, an instance of a comparator\<close>
  "code_unit_compare [] [] = 0"
| "code_unit_compare [] (d # ds) = - 1"
| "code_unit_compare (c # cs) [] = 1"
| "code_unit_compare (c # cs) (d # ds) =
     (if (of_char c :: nat) < of_char d then - 1
      else if (of_char d :: nat) < of_char c then 1
      else code_unit_compare cs ds)"

lemma code_unit_compare_total: "code_unit_compare a b \<le> 0 \<or> code_unit_compare b a \<le> 0"
  by (induction a b rule: code_unit_compare.induct) auto

lemma code_unit_compare_Cons:
  "code_unit_compare (x # xs) (y # ys) \<le> 0 \<longleftrightarrow>
     (of_char x :: nat) < of_char y \<or> x = y \<and> code_unit_compare xs ys \<le> 0"
proof -
  have "(of_char x :: nat) = of_char y \<longleftrightarrow> x = y" by simp
  then show ?thesis by (cases "(of_char x :: nat)" "of_char y :: nat" rule: linorder_cases) auto
qed

lemma code_unit_compare_trans:
  "code_unit_compare a b \<le> 0 \<Longrightarrow> code_unit_compare b c \<le> 0 \<Longrightarrow> code_unit_compare a c \<le> 0"
proof (induction a arbitrary: b c)
  case Nil
  then show ?case by (cases c) simp_all
next
  case (Cons x xs)
  then obtain y ys where b: "b = y # ys" by (cases b) simp_all
  with Cons.prems obtain z zs where c: "c = z # zs" by (cases c) simp_all
  from Cons.prems(1) have xy:
    "(of_char x :: nat) < of_char y \<or> x = y \<and> code_unit_compare xs ys \<le> 0"
    unfolding b by (simp only: code_unit_compare_Cons)
  from Cons.prems(2) have yz:
    "(of_char y :: nat) < of_char z \<or> y = z \<and> code_unit_compare ys zs \<le> 0"
    unfolding b c by (simp only: code_unit_compare_Cons)
  from xy yz Cons.IH[of ys zs]
  have "(of_char x :: nat) < of_char z \<or> x = z \<and> code_unit_compare xs zs \<le> 0"
    by (elim disjE conjE) (auto dest: less_trans)
  then show ?case unfolding c by (simp only: code_unit_compare_Cons)
qed

lemma is_comparator_code_unit: "is_comparator code_unit_compare"
  unfolding is_comparator_def using code_unit_compare_total code_unit_compare_trans by blast

section \<open>Association lists as JavaScript maps\<close>

lemma map_of_update [simp]: "map_of (AList.update k v m) = (map_of m)(k \<mapsto> v)"
  by (rule update_conv')

lemma update_snoc: "map_of m k = None \<Longrightarrow> AList.update k v m = m @ [(k, v)]"
  by (induction m) (auto split: if_splits)

lemma keys_update:
  "map fst (AList.update k v m) =
     (if k \<in> fst ` set m then map fst m else map fst m @ [k])"
  by (induction m) auto

lemma values_update_in_place:
  "distinct (map fst m) \<Longrightarrow> map_of m k = Some w \<Longrightarrow>
   AList.update k v m = map (\<lambda>p. if fst p = k then (k, v) else p) m"
proof (induction m)
  case Nil
  then show ?case by simp
next
  case (Cons p m)
  then show ?case
    by (cases p) (auto intro!: map_idI[symmetric] simp: rev_image_eqI)
qed

lemma update_pairsD: "(k, w) \<in> set (AList.update a b m) \<Longrightarrow> (k, w) = (a, b) \<or> (k, w) \<in> set m"
  by (induction m) (auto split: if_splits)

lemma map_of_eq_None_iff_key: "map_of m k = None \<longleftrightarrow> k \<notin> set (map fst m)"
  by (simp add: map_of_eq_None_iff)

section \<open>Appending without duplicates\<close>

definition append_unique :: "'a list \<Rightarrow> 'a list \<Rightarrow> 'a list" where
  \<comment> \<open>\<open>[...new Set([...xs, ...ys])]\<close>: the first occurrence of each element is kept\<close>
  "append_unique xs ys = rev (remdups (rev (xs @ ys)))"

lemma set_append_unique [simp]: "set (append_unique xs ys) = set xs \<union> set ys"
  by (auto simp: append_unique_def)

lemma distinct_append_unique [simp]: "distinct (append_unique xs ys)"
  by (simp add: append_unique_def)

lemma code_unit_compare_swap: "code_unit_compare b a = - code_unit_compare a b"
  by (induction a b rule: code_unit_compare.induct) auto

lemma code_unit_compare_eq_0_iff [simp]: "code_unit_compare a b = 0 \<longleftrightarrow> a = b"
  by (induction a b rule: code_unit_compare.induct) auto

lemma code_unit_compare_refl [simp]: "code_unit_compare a a = 0"
  by simp

lemma code_unit_compare_linear: "code_unit_compare a b < 0 \<or> a = b \<or> code_unit_compare b a < 0"
  using code_unit_compare_swap[of a b] code_unit_compare_eq_0_iff[of a b]
    linorder_less_linear[of "code_unit_compare a b" 0] by simp

lemma filter_insort_le_comm:
  assumes tr: "\<And>a b c. le a b \<Longrightarrow> le b c \<Longrightarrow> le a c"
  shows "sorted_wrt le ys \<Longrightarrow>
    filter P (insort_le le x ys) = (if P x then insort_le le x (filter P ys) else filter P ys)"
proof (induction ys)
  case Nil
  then show ?case by simp
next
  case (Cons y ys)
  have "insort_le le x (filter P ys) = x # filter P ys" if "le x y"
  proof (cases "filter P ys")
    case (Cons z zs)
    then have "z \<in> set (filter P ys)" by simp
    then have "z \<in> set ys" by simp
    then have "le x z" using Cons.prems tr[OF that] by auto
    with Cons show ?thesis by simp
  qed simp
  with Cons show ?case by auto
qed

lemma filter_sort_le:
  assumes "\<And>a b. le a b \<or> le b a" and tr: "\<And>a b c. le a b \<Longrightarrow> le b c \<Longrightarrow> le a c"
  shows "filter P (sort_le le xs) = sort_le le (filter P xs)"
  by (induction xs) (simp_all add: filter_insort_le_comm[OF tr, OF _ _ sort_le_sorted[OF assms]])

end
