(* ===== verification/TaskStateMachine.thy ===== *)
theory TaskStateMachine
  imports Prelude
begin

text \<open>
  The Task state machine of the coordinator (\<open>src/coordinator/task-state-machine.ts\<close>,
  statuses from \<open>src/core/task.ts\<close>): the table of allowed transitions, the two assertions that
  every component calls before it moves a Task, and the runs of the machine.
\<close>

section \<open>Statuses and the transition table\<close>

datatype task_status =
    TaskCreated | TaskTriaged | TaskReady | TaskClaimed | TaskRunning | TaskWaitingHelp | TaskWaitingInput
  | TaskPendingGate | TaskPendingCouncil | TaskReviewing | TaskBlocked | TaskEscalated | TaskMerging
  | TaskCompleted | TaskFailed | TaskCancelled

definition task_statuses :: "task_status list" where
  "task_statuses =
    [TaskCreated, TaskTriaged, TaskReady, TaskClaimed, TaskRunning, TaskWaitingHelp, TaskWaitingInput,
     TaskPendingGate, TaskPendingCouncil, TaskReviewing, TaskBlocked, TaskEscalated, TaskMerging,
     TaskCompleted, TaskFailed, TaskCancelled]"

definition terminal_task_statuses :: "task_status list" where
  "terminal_task_statuses = [TaskCompleted, TaskFailed, TaskCancelled]"

definition is_terminal_task_status :: "task_status \<Rightarrow> bool" where
  "is_terminal_task_status s = (s \<in> set terminal_task_statuses)"

definition list_non_terminal_task_statuses :: "task_status list" where
  "list_non_terminal_task_statuses = filter (\<lambda>s. \<not> is_terminal_task_status s) task_statuses"

fun allowed_transitions :: "task_status \<Rightarrow> task_status list" where
  "allowed_transitions TaskCreated = [TaskTriaged, TaskClaimed, TaskCancelled]"
| "allowed_transitions TaskTriaged = [TaskReady, TaskClaimed, TaskBlocked, TaskCancelled]"
| "allowed_transitions TaskReady = [TaskClaimed, TaskBlocked, TaskCancelled]"
| "allowed_transitions TaskClaimed = [TaskRunning, TaskCancelled]"
| "allowed_transitions TaskRunning =
     [TaskReviewing, TaskWaitingHelp, TaskWaitingInput, TaskPendingGate, TaskPendingCouncil, TaskBlocked, TaskEscalated,
      TaskCompleted, TaskFailed, TaskCancelled]"
| "allowed_transitions TaskWaitingHelp = [TaskRunning, TaskBlocked, TaskEscalated, TaskFailed, TaskCancelled]"
| "allowed_transitions TaskWaitingInput = [TaskRunning, TaskCancelled]"
| "allowed_transitions TaskPendingGate = [TaskRunning, TaskBlocked, TaskFailed, TaskCancelled]"
| "allowed_transitions TaskPendingCouncil = [TaskReviewing, TaskWaitingInput, TaskBlocked, TaskFailed, TaskCancelled]"
| "allowed_transitions TaskReviewing = [TaskMerging, TaskCompleted, TaskBlocked, TaskEscalated, TaskFailed, TaskCancelled]"
| "allowed_transitions TaskBlocked = [TaskRunning, TaskEscalated, TaskFailed, TaskCancelled]"
| "allowed_transitions TaskEscalated = [TaskReviewing, TaskMerging, TaskBlocked, TaskFailed, TaskCancelled]"
| "allowed_transitions TaskMerging = [TaskCompleted, TaskBlocked, TaskFailed, TaskCancelled]"
| "allowed_transitions TaskCompleted = []"
| "allowed_transitions TaskFailed = []"
| "allowed_transitions TaskCancelled = []"

section \<open>The assertions\<close>

datatype task_run_start_reason = CheckpointResume | CouncilRefinement | MailboxContinuation

datatype task_state_error =
    InvalidTransition task_status task_status
  | ResumeRequiresBlocked task_status
  | ContinuationRequiresWaiting task_status
  | RefinementRequiresCompleted task_status

record task_status_transition =
  previous_status :: task_status
  next_status :: task_status

definition assert_task_status_transition ::
  "task_status \<Rightarrow> task_status \<Rightarrow> task_state_error + unit" where
  "assert_task_status_transition current next =
    (if current = next then Inr ()
     else if next \<notin> set (allowed_transitions current)
       then Inl (InvalidTransition current next)
     else Inr ())"

definition transition_task_status ::
  "task_status \<Rightarrow> task_status \<Rightarrow> task_state_error + task_status_transition" where
  "transition_task_status current next =
    bindR (assert_task_status_transition current next)
      (\<lambda>_. Inr \<lparr>previous_status = current, next_status = next\<rparr>)"

definition assert_task_run_start_transition ::
  "task_status \<Rightarrow> task_run_start_reason \<Rightarrow> task_state_error + unit" where
  "assert_task_run_start_transition current reason =
    (if reason = CheckpointResume then
       (if current \<noteq> TaskBlocked then Inl (ResumeRequiresBlocked current)
        else assert_task_status_transition current TaskRunning)
     else if reason = MailboxContinuation then
       (if current \<noteq> TaskWaitingHelp \<and> current \<noteq> TaskBlocked
          then Inl (ContinuationRequiresWaiting current)
        else assert_task_status_transition current TaskRunning)
     else if current \<noteq> TaskCompleted then Inl (RefinementRequiresCompleted current)
     else Inr ())"

lemmas assert_task_defs [model_defs] =
  assert_task_status_transition_def transition_task_status_def
  assert_task_run_start_transition_def

lemma task_statuses_complete [simp]: "s \<in> set task_statuses"
  by (cases s) (simp_all add: task_statuses_def)

lemma is_terminal_iff: "is_terminal_task_status s \<longleftrightarrow> s \<in> {TaskCompleted, TaskFailed, TaskCancelled}"
  by (simp add: is_terminal_task_status_def terminal_task_statuses_def)

lemma terminal_iff_no_transition: "is_terminal_task_status s \<longleftrightarrow> allowed_transitions s = []"
  by (cases s) (simp_all add: is_terminal_iff)

lemma assert_task_status_ok_iff:
  "assert_task_status_transition s t = Inr () \<longleftrightarrow> s = t \<or> t \<in> set (allowed_transitions s)"
  by (auto simp: assert_task_status_transition_def)

section \<open>Runs of the machine\<close>

inductive task_step :: "task_status \<Rightarrow> task_status \<Rightarrow> bool" where
  step: "assert_task_status_transition s t = Inr () \<Longrightarrow> task_step s t"

inductive task_reach :: "task_status \<Rightarrow> task_status \<Rightarrow> bool" for s where
  refl: "task_reach s s"
| step: "task_reach s t \<Longrightarrow> task_step t u \<Longrightarrow> task_reach s u"

inductive_simps task_step_iff: "task_step s t"

inductive_cases task_reachE: "task_reach s t"

lemma task_step_terminal: "is_terminal_task_status s \<Longrightarrow> task_step s t \<longleftrightarrow> t = s"
  by (auto simp: task_step_iff assert_task_status_ok_iff terminal_iff_no_transition)

lemma task_reach_trans: "task_reach t u \<Longrightarrow> task_reach s t \<Longrightarrow> task_reach s u"
  by (induction rule: task_reach.induct) (auto intro: task_reach.intros)

lemma task_reach_from_terminal:
  assumes "task_reach s t" and "is_terminal_task_status s"
  shows "t = s"
  using assms by (induction rule: task_reach.induct) (auto simp: task_step_terminal)

lemma cancel_allowed: "\<not> is_terminal_task_status s \<Longrightarrow> TaskCancelled \<in> set (allowed_transitions s)"
  by (cases s) (simp_all add: is_terminal_iff)

lemma only_claimed_or_paused_runs:
  "TaskRunning \<in> set (allowed_transitions s) \<longleftrightarrow>
     s \<in> {TaskClaimed, TaskWaitingHelp, TaskWaitingInput, TaskPendingGate, TaskBlocked}"
  by (cases s) simp_all

section \<open>Property\<close>

text \<open>
  Terminal means final. The statuses that the program calls terminal are exactly those that no
  sequence of accepted transitions leaves; from every other status a task can still be cancelled.
\<close>

theorem terminal_statuses_are_final:
  "is_terminal_task_status s \<longleftrightarrow> {t. task_reach s t} = {s}"
proof
  assume "is_terminal_task_status s"
  then show "{t. task_reach s t} = {s}"
    by (auto dest: task_reach_from_terminal intro: task_reach.refl)
next
  assume only: "{t. task_reach s t} = {s}"
  show "is_terminal_task_status s"
  proof (rule ccontr)
    assume nt: "\<not> is_terminal_task_status s"
    then have "task_step s TaskCancelled"
      by (simp add: task_step_iff assert_task_status_ok_iff cancel_allowed)
    then have "task_reach s TaskCancelled" by (rule task_reach.step[OF task_reach.refl])
    then have "TaskCancelled \<in> {t. task_reach s t}" by simp
    then have "s = TaskCancelled" unfolding only by simp
    with nt show False by (simp add: is_terminal_iff)
  qed
qed

end
