(* ===== verification/DeliveryLifecycle.thy ===== *)
theory DeliveryLifecycle
  imports Prelude
begin

text \<open>
  The delivery state machine of the memory system
  (\<open>src/memory/services/delivery-lifecycle.ts\<close>, record fields from
  \<open>src/memory/schemas.ts\<close>): a delivery is claimed under a fresh fencing token and a lease,
  then completed, failed back with exponential backoff, or recovered after its lease expired.
  The record type is extensible, as the TypeScript rules are generic in
  \<open>T extends DeliveryLifecycleRecord\<close>: every rule keeps the fields of the extension.
\<close>

section \<open>Records, policies and inputs\<close>

datatype delivery_status = DPending | DProcessing | DProcessed | DDeadLetter

record delivery_record =
  dr_status :: delivery_status
  dr_attempt_count :: nat
  dr_claimed_at :: "timestamp option"
  dr_claim_owner :: "ident option"
  dr_claim_token :: "ident option"
  dr_lease_expires_at :: "timestamp option"
  dr_next_retry_at :: "timestamp option"
  dr_last_error :: "string option"
  dr_processor_version :: "string option"
  dr_created_at :: timestamp
  dr_updated_at :: timestamp

datatype delivery_channel = ContextChannel | FeedbackChannel | PendingFeedbackChannel

record delivery_retry_policy =
  max_attempts :: nat
  base_delay_ms :: int
  max_delay_ms :: int

definition default_delivery_retry_policy :: delivery_retry_policy where
  "default_delivery_retry_policy =
    \<lparr>max_attempts = 3, base_delay_ms = 1000, max_delay_ms = 60000\<rparr>"

definition default_delivery_lease_ms :: int where
  "default_delivery_lease_ms = 60000"

definition default_feedback_consume_retry_policy :: delivery_retry_policy where
  "default_feedback_consume_retry_policy =
    \<lparr>max_attempts = 8, base_delay_ms = 5000, max_delay_ms = 5 * 60000\<rparr>"

definition default_pending_feedback_retry_policy :: delivery_retry_policy where
  "default_pending_feedback_retry_policy =
    \<lparr>max_attempts = 20, base_delay_ms = 30000, max_delay_ms = 15 * 60000\<rparr>"

definition default_promotion_retry_policy :: delivery_retry_policy where
  "default_promotion_retry_policy =
    \<lparr>max_attempts = 5, base_delay_ms = 30000, max_delay_ms = 15 * 60000\<rparr>"

definition default_persona_evolution_retry_policy :: delivery_retry_policy where
  "default_persona_evolution_retry_policy =
    \<lparr>max_attempts = 5, base_delay_ms = 30000, max_delay_ms = 15 * 60000\<rparr>"

text \<open>A \<open>Partial<DeliveryRetryPolicy>\<close>: absent fields are \<open>None\<close>; the spread keeps the base there.\<close>

record partial_retry_policy =
  p_max_attempts :: "nat option"
  p_base_delay_ms :: "int option"
  p_max_delay_ms :: "int option"

definition spread_policy :: "delivery_retry_policy \<Rightarrow> partial_retry_policy \<Rightarrow> delivery_retry_policy" where
  "spread_policy b p =
    \<lparr>max_attempts = or_default (p_max_attempts p) (max_attempts b),
     base_delay_ms = or_default (p_base_delay_ms p) (base_delay_ms b),
     max_delay_ms = or_default (p_max_delay_ms p) (max_delay_ms b)\<rparr>"

definition resolve_channel_retry_policy ::
  "delivery_retry_policy \<Rightarrow> (delivery_channel \<rightharpoonup> partial_retry_policy) \<Rightarrow> delivery_channel
    \<Rightarrow> delivery_retry_policy" where
  "resolve_channel_retry_policy b overrides channel =
    (case overrides channel of None \<Rightarrow> b | Some p \<Rightarrow> spread_policy b p)"

record claim_input =
  ci_owner :: ident
  ci_now :: timestamp
  ci_lease_ms :: int
  ci_claim_token :: ident
  ci_policy :: "delivery_retry_policy option"

record fail_input =
  fi_owner :: "ident option"
  fi_claim_token :: ident
  fi_now :: timestamp
  fi_error :: string
  fi_retryable :: bool
  fi_policy :: "delivery_retry_policy option"

datatype delivery_error = EmptyClaimToken

section \<open>The rules\<close>

definition add_milliseconds :: "timestamp \<Rightarrow> int \<Rightarrow> timestamp" where
  "add_milliseconds instant milliseconds = instant + milliseconds"

definition delivery_retry_delay_ms :: "nat \<Rightarrow> delivery_retry_policy \<Rightarrow> int" where
  \<comment> \<open>subtraction on \<open>nat\<close> stops at 0, as \<open>Math.max(0, attempt - 1)\<close>\<close>
  "delivery_retry_delay_ms attempt policy =
    (let exponent = attempt - 1
     in min (max_delay_ms policy) (base_delay_ms policy * 2 ^ exponent))"

definition is_delivery_due :: "'a delivery_record_scheme \<Rightarrow> timestamp \<Rightarrow> bool" where
  "is_delivery_due r now =
    (if dr_status r \<noteq> DPending then False
     else case dr_next_retry_at r of None \<Rightarrow> True | Some t \<Rightarrow> t \<le> now)"

definition is_delivery_claim_expired :: "'a delivery_record_scheme \<Rightarrow> timestamp \<Rightarrow> bool" where
  "is_delivery_claim_expired r now =
    (if dr_status r \<noteq> DProcessing then False
     else case dr_lease_expires_at r of None \<Rightarrow> True | Some t \<Rightarrow> t \<le> now)"

definition claim_delivery_record ::
  "'a delivery_record_scheme \<Rightarrow> claim_input
    \<Rightarrow> delivery_error + 'a delivery_record_scheme option" where
  "claim_delivery_record r i =
    (if ci_claim_token i = [] then Inl EmptyClaimToken
     else let policy = or_default (ci_policy i) default_delivery_retry_policy in
       if \<not> is_delivery_due r (ci_now i) then Inr None
       else if dr_attempt_count r \<ge> max_attempts policy then Inr None
       else Inr (Some (r\<lparr>
         dr_status := DProcessing,
         dr_attempt_count := dr_attempt_count r + 1,
         dr_claimed_at := Some (ci_now i),
         dr_claim_owner := Some (ci_owner i),
         dr_claim_token := Some (ci_claim_token i),
         dr_lease_expires_at := Some (add_milliseconds (ci_now i) (ci_lease_ms i)),
         dr_next_retry_at := None,
         dr_updated_at := ci_now i\<rparr>)))"

definition is_held_by ::
  "'a delivery_record_scheme \<Rightarrow> ident \<Rightarrow> ident option \<Rightarrow> timestamp \<Rightarrow> bool" where
  "is_held_by r token owner now =
    (if dr_status r \<noteq> DProcessing then False
     else if dr_claim_token r = None then False
     else if dr_claim_token r \<noteq> Some token then False
     else if owner \<noteq> None \<and> dr_claim_owner r \<noteq> owner then False
     else if is_delivery_claim_expired r now then False
     else True)"

definition renew_delivery_claim_record ::
  "'a delivery_record_scheme \<Rightarrow> ident \<Rightarrow> ident option \<Rightarrow> timestamp \<Rightarrow> int
    \<Rightarrow> 'a delivery_record_scheme option" where
  "renew_delivery_claim_record r token owner now lease_ms =
    (if \<not> is_held_by r token owner now then None
     else Some (r\<lparr>
       dr_lease_expires_at := Some (add_milliseconds now lease_ms),
       dr_updated_at := now\<rparr>))"

definition complete_delivery_record ::
  "'a delivery_record_scheme \<Rightarrow> ident \<Rightarrow> ident option \<Rightarrow> timestamp \<Rightarrow> string option
    \<Rightarrow> 'a delivery_record_scheme option" where
  "complete_delivery_record r token owner now version =
    (if \<not> is_held_by r token owner now then None
     else Some (r\<lparr>
       dr_status := DProcessed,
       dr_claim_token := None,
       dr_lease_expires_at := None,
       dr_next_retry_at := None,
       dr_last_error := None,
       dr_processor_version :=
         (case version of None \<Rightarrow> dr_processor_version r | Some v \<Rightarrow> Some v),
       dr_updated_at := now\<rparr>))"

definition fail_delivery_record ::
  "'a delivery_record_scheme \<Rightarrow> fail_input \<Rightarrow> 'a delivery_record_scheme option" where
  "fail_delivery_record r i =
    (if \<not> is_held_by r (fi_claim_token i) (fi_owner i) (fi_now i) then None
     else let policy = or_default (fi_policy i) default_delivery_retry_policy;
              exhausted = (dr_attempt_count r \<ge> max_attempts policy) in
       if \<not> fi_retryable i \<or> exhausted then
         Some (r\<lparr>
           dr_status := DDeadLetter,
           dr_claim_token := None,
           dr_lease_expires_at := None,
           dr_next_retry_at := None,
           dr_last_error := Some (fi_error i),
           dr_updated_at := fi_now i\<rparr>)
       else
         Some (r\<lparr>
           dr_status := DPending,
           dr_claim_token := None,
           dr_lease_expires_at := None,
           dr_next_retry_at :=
             Some (add_milliseconds (fi_now i) (delivery_retry_delay_ms (dr_attempt_count r) policy)),
           dr_last_error := Some (fi_error i),
           dr_updated_at := fi_now i\<rparr>))"

definition expire_delivery_claim_record ::
  "'a delivery_record_scheme \<Rightarrow> timestamp \<Rightarrow> delivery_retry_policy option
    \<Rightarrow> 'a delivery_record_scheme" where
  "expire_delivery_claim_record r now pol =
    (let policy = or_default pol default_delivery_retry_policy;
         error = ''Claim lease expired without completion.'' in
     if dr_attempt_count r \<ge> max_attempts policy then
       r\<lparr>dr_status := DDeadLetter,
         dr_claim_token := None,
         dr_lease_expires_at := None,
         dr_next_retry_at := None,
         dr_last_error := Some error,
         dr_updated_at := now\<rparr>
     else
       r\<lparr>dr_status := DPending,
         dr_claim_token := None,
         dr_lease_expires_at := None,
         dr_next_retry_at := None,
         dr_last_error := Some error,
         dr_updated_at := now\<rparr>)"

definition reset_delivery_for_retry ::
  "'a delivery_record_scheme \<Rightarrow> timestamp \<Rightarrow> 'a delivery_record_scheme option" where
  "reset_delivery_for_retry r now =
    (if dr_status r \<noteq> DDeadLetter then None
     else Some (r\<lparr>
       dr_status := DPending,
       dr_attempt_count := 0,
       dr_claimed_at := None,
       dr_claim_owner := None,
       dr_claim_token := None,
       dr_lease_expires_at := None,
       dr_next_retry_at := None,
       dr_last_error := None,
       dr_updated_at := now\<rparr>))"

lemmas delivery_rule_defs [model_defs] =
  claim_delivery_record_def renew_delivery_claim_record_def complete_delivery_record_def
  fail_delivery_record_def expire_delivery_claim_record_def reset_delivery_for_retry_def
  add_milliseconds_def Let_def

section \<open>The candidate order\<close>

record 'r delivery_candidate =
  dc_role_id :: ident
  dc_id :: ident
  dc_record :: 'r

text \<open>
  \<open>left.next_retry_at ?? ''\<close> puts an absent time before every present one. The last criterion
  is \<open>String.prototype.localeCompare\<close>, whose collation is data of the JavaScript engine: it is
  the parameter \<open>collate\<close>, negative, zero or positive.
\<close>

definition retry_before :: "timestamp option \<Rightarrow> timestamp option \<Rightarrow> bool" where
  "retry_before a b =
    (case (a, b) of (None, None) \<Rightarrow> False | (None, Some _) \<Rightarrow> True
     | (Some _, None) \<Rightarrow> False | (Some x, Some y) \<Rightarrow> x < y)"

definition compare_delivery_candidates ::
  "(ident \<Rightarrow> ident \<Rightarrow> int) \<Rightarrow> 'a delivery_record_scheme delivery_candidate
    \<Rightarrow> 'a delivery_record_scheme delivery_candidate \<Rightarrow> int" where
  "compare_delivery_candidates collate left right =
    (let left_due = dr_next_retry_at (dc_record left);
         right_due = dr_next_retry_at (dc_record right) in
     if left_due \<noteq> right_due then (if retry_before left_due right_due then - 1 else 1)
     else if dr_updated_at (dc_record left) \<noteq> dr_updated_at (dc_record right) then
       (if dr_updated_at (dc_record left) < dr_updated_at (dc_record right) then - 1 else 1)
     else collate (dc_id left) (dc_id right))"

definition sort_candidates ::
  "(ident \<Rightarrow> ident \<Rightarrow> int) \<Rightarrow> 'a delivery_record_scheme delivery_candidate list
    \<Rightarrow> 'a delivery_record_scheme delivery_candidate list" where
  "sort_candidates collate = sort_le (\<lambda>a b. compare_delivery_candidates collate a b \<le> 0)"

lemma compare_delivery_candidates_le:
  "compare_delivery_candidates collate a b \<le> 0 \<longleftrightarrow>
     (let x = dr_next_retry_at (dc_record a); y = dr_next_retry_at (dc_record b);
          u = dr_updated_at (dc_record a); v = dr_updated_at (dc_record b)
      in retry_before x y \<or> x = y \<and> (u < v \<or> u = v \<and> collate (dc_id a) (dc_id b) \<le> 0))"
  by (auto simp: compare_delivery_candidates_def Let_def retry_before_def split: option.splits)

lemma retry_before_linear: "retry_before x y \<or> x = y \<or> retry_before y x"
  by (auto simp: retry_before_def split: option.splits)

lemma retry_before_trans: "retry_before x y \<Longrightarrow> retry_before y z \<Longrightarrow> retry_before x z"
  by (auto simp: retry_before_def split: option.splits)

lemma is_comparator_candidates:
  assumes "is_comparator collate"
  shows "is_comparator (compare_delivery_candidates collate)"
  unfolding is_comparator_def compare_delivery_candidates_le Let_def
  using is_comparatorD[OF assms] retry_before_linear retry_before_trans
  by (smt (verit, best) linorder_less_linear)

section \<open>Well-formed records\<close>

text \<open>
  The token and the lease are live credentials: a record carries them exactly while it is
  processing, and a retry time only while it is pending.
\<close>

definition delivery_wf :: "'a delivery_record_scheme \<Rightarrow> bool" where
  "delivery_wf r \<longleftrightarrow>
     (dr_status r = DProcessing \<longleftrightarrow> dr_claim_token r \<noteq> None) \<and>
     (dr_status r = DProcessing \<longleftrightarrow> dr_lease_expires_at r \<noteq> None) \<and>
     (dr_next_retry_at r \<noteq> None \<longrightarrow> dr_status r = DPending)"

lemma is_held_by_iff:
  "is_held_by r token owner now \<longleftrightarrow>
     dr_status r = DProcessing \<and> dr_claim_token r = Some token \<and>
     (owner = None \<or> dr_claim_owner r = owner) \<and>
     (\<exists>t. dr_lease_expires_at r = Some t \<and> now < t)"
  by (auto simp: is_held_by_def is_delivery_claim_expired_def split: option.splits)

lemma claim_delivery_record_Some:
  "claim_delivery_record r i = Inr (Some r') \<longleftrightarrow>
     ci_claim_token i \<noteq> [] \<and> is_delivery_due r (ci_now i) \<and>
     dr_attempt_count r < max_attempts (or_default (ci_policy i) default_delivery_retry_policy) \<and>
     r' = r\<lparr>dr_status := DProcessing, dr_attempt_count := dr_attempt_count r + 1,
            dr_claimed_at := Some (ci_now i), dr_claim_owner := Some (ci_owner i),
            dr_claim_token := Some (ci_claim_token i),
            dr_lease_expires_at := Some (ci_now i + ci_lease_ms i),
            dr_next_retry_at := None, dr_updated_at := ci_now i\<rparr>"
  by (auto simp: claim_delivery_record_def Let_def add_milliseconds_def)

section \<open>Events and runs\<close>

text \<open>
  Every write the adapters make to a delivery record is one of these events; \<open>None\<close> means that
  nothing is written. Recovery applies the expiry rule only to a claim that has expired, as
  \<open>restoreExpiredRecords\<close> does after it has read the record again.
\<close>

datatype delivery_event =
    EvClaim claim_input
  | EvRenew ident "ident option" timestamp int
  | EvComplete ident "ident option" timestamp "string option"
  | EvFail fail_input
  | EvExpire timestamp "delivery_retry_policy option"
  | EvReset timestamp

fun delivery_write ::
  "'a delivery_record_scheme \<Rightarrow> delivery_event \<Rightarrow> 'a delivery_record_scheme option" where
  "delivery_write r (EvClaim i) =
     (case claim_delivery_record r i of Inl _ \<Rightarrow> None | Inr x \<Rightarrow> x)"
| "delivery_write r (EvRenew token owner now lease) =
     renew_delivery_claim_record r token owner now lease"
| "delivery_write r (EvComplete token owner now v) =
     complete_delivery_record r token owner now v"
| "delivery_write r (EvFail i) = fail_delivery_record r i"
| "delivery_write r (EvExpire now pol) =
     (if is_delivery_claim_expired r now then Some (expire_delivery_claim_record r now pol)
      else None)"
| "delivery_write r (EvReset now) = reset_delivery_for_retry r now"

definition delivery_apply ::
  "'a delivery_record_scheme \<Rightarrow> delivery_event \<Rightarrow> 'a delivery_record_scheme" where
  "delivery_apply r e = or_default (delivery_write r e) r"

fun delivery_run ::
  "'a delivery_record_scheme \<Rightarrow> delivery_event list \<Rightarrow> 'a delivery_record_scheme" where
  "delivery_run r [] = r"
| "delivery_run r (e # es) = delivery_run (delivery_apply r e) es"

fun event_token :: "delivery_event \<Rightarrow> ident option" where
  \<comment> \<open>the credential a holder's write presents\<close>
  "event_token (EvRenew token _ _ _) = Some token"
| "event_token (EvComplete token _ _ _) = Some token"
| "event_token (EvFail i) = Some (fi_claim_token i)"
| "event_token _ = None"

fun claimed_token :: "delivery_event \<Rightarrow> ident option" where
  \<comment> \<open>the credential a claim would issue\<close>
  "claimed_token (EvClaim i) = Some (ci_claim_token i)"
| "claimed_token _ = None"

lemma delivery_run_append [simp]:
  "delivery_run r (es @ fs) = delivery_run (delivery_run r es) fs"
  by (induction es arbitrary: r) auto

lemma delivery_write_cases:
  assumes "delivery_write r e = Some r'"
  obtains (claim) i where "e = EvClaim i" "claim_delivery_record r i = Inr (Some r')"
  | (renew) t ow n l where "e = EvRenew t ow n l" "renew_delivery_claim_record r t ow n l = Some r'"
  | (complete) t ow n v where "e = EvComplete t ow n v" "complete_delivery_record r t ow n v = Some r'"
  | (fail) i where "e = EvFail i" "fail_delivery_record r i = Some r'"
  | (expire) n p where "e = EvExpire n p" "is_delivery_claim_expired r n"
      "r' = expire_delivery_claim_record r n p"
  | (reset) n where "e = EvReset n" "reset_delivery_for_retry r n = Some r'"
  using assms by (cases e) (auto split: sum.splits if_splits)

lemma delivery_apply_cases:
  "delivery_apply r e = r \<or> delivery_write r e = Some (delivery_apply r e)"
  by (cases "delivery_write r e") (simp_all add: delivery_apply_def)

lemma delivery_apply_lift:
  "(\<And>r'. delivery_write r e = Some r' \<Longrightarrow> P r') \<Longrightarrow> P r \<Longrightarrow> P (delivery_apply r e)"
  by (cases "delivery_write r e") (simp_all add: delivery_apply_def)

text \<open>One case split serves every one-step fact: unfold the rule that was applied.\<close>

lemma delivery_write_wf: "delivery_write r e = Some r' \<Longrightarrow> delivery_wf r'"
  if "delivery_wf r"
  using that
  by (elim delivery_write_cases)
    (auto simp: model_defs is_held_by_iff delivery_wf_def split: if_splits option.splits)

lemma delivery_apply_wf: "delivery_wf r \<Longrightarrow> delivery_wf (delivery_apply r e)"
  by (rule delivery_apply_lift) (auto dest: delivery_write_wf)

lemma delivery_run_wf: "delivery_wf r \<Longrightarrow> delivery_wf (delivery_run r es)"
  by (induction es arbitrary: r) (simp_all add: delivery_apply_wf)

section \<open>Fencing\<close>

lemma token_write_requires_token:
  "event_token e = Some t \<Longrightarrow> delivery_write r e \<noteq> None \<Longrightarrow> dr_claim_token r = Some t"
  by (cases e)
    (auto simp: model_defs is_held_by_iff split: if_splits)

lemma delivery_write_token:
  "delivery_write r e = Some r' \<Longrightarrow> dr_claim_token r \<noteq> Some t \<Longrightarrow> claimed_token e \<noteq> Some t \<Longrightarrow>
   dr_claim_token r' \<noteq> Some t"
  by (elim delivery_write_cases) (auto simp: model_defs is_held_by_iff split: if_splits)

lemma delivery_apply_token:
  "dr_claim_token r \<noteq> Some t \<Longrightarrow> claimed_token e \<noteq> Some t \<Longrightarrow>
   dr_claim_token (delivery_apply r e) \<noteq> Some t"
  by (rule delivery_apply_lift) (auto dest: delivery_write_token)

lemma delivery_run_token:
  "dr_claim_token r \<noteq> Some t \<Longrightarrow> (\<forall>e \<in> set es. claimed_token e \<noteq> Some t) \<Longrightarrow>
   dr_claim_token (delivery_run r es) \<noteq> Some t"
  by (induction es arbitrary: r) (simp_all add: delivery_apply_token)

section \<open>Attempts\<close>

definition is_reset :: "delivery_event \<Rightarrow> bool" where
  "is_reset e = (case e of EvReset _ \<Rightarrow> True | _ \<Rightarrow> False)"

fun claims_within :: "nat \<Rightarrow> delivery_event \<Rightarrow> bool" where
  \<comment> \<open>the claim is made under a policy of at most \<open>n\<close> attempts\<close>
  "claims_within n (EvClaim i) =
     (max_attempts (or_default (ci_policy i) default_delivery_retry_policy) \<le> n)"
| "claims_within n _ = True"

fun successful_claims :: "'a delivery_record_scheme \<Rightarrow> delivery_event list \<Rightarrow> nat" where
  "successful_claims r [] = 0"
| "successful_claims r (e # es) =
     (case (e, delivery_write r e) of (EvClaim _, Some _) \<Rightarrow> 1 | _ \<Rightarrow> 0)
     + successful_claims (delivery_apply r e) es"

lemma delivery_write_attempts:
  "delivery_write r e = Some r' \<Longrightarrow> claims_within n e \<Longrightarrow> dr_attempt_count r \<le> n \<Longrightarrow>
   dr_attempt_count r' \<le> n"
  by (elim delivery_write_cases) (auto simp: model_defs split: if_splits)

lemma delivery_apply_attempts:
  "claims_within n e \<Longrightarrow> dr_attempt_count r \<le> n \<Longrightarrow> dr_attempt_count (delivery_apply r e) \<le> n"
  by (rule delivery_apply_lift) (auto dest: delivery_write_attempts)

lemma claim_write_attempts:
  "delivery_write r (EvClaim i) = Some r' \<Longrightarrow>
   dr_attempt_count r' = Suc (dr_attempt_count r) \<and>
   dr_attempt_count r <
     max_attempts (or_default (ci_policy i) default_delivery_retry_policy)"
  by (auto simp: claim_delivery_record_Some split: sum.splits)

lemma other_write_attempts:
  assumes "delivery_write r e = Some r'" and "\<not> is_reset e" and "claimed_token e = None"
  shows "dr_attempt_count r' = dr_attempt_count r"
  using assms
  by (elim delivery_write_cases)
    (auto simp: model_defs is_reset_def split: if_splits)

lemma apply_no_reset_attempts:
  assumes "\<not> is_reset e"
  shows "dr_attempt_count (delivery_apply r e)
       = dr_attempt_count r + (case (e, delivery_write r e) of (EvClaim _, Some _) \<Rightarrow> 1 | _ \<Rightarrow> 0)"
proof (cases "delivery_write r e")
  case None
  then show ?thesis by (simp add: delivery_apply_def split: delivery_event.splits)
next
  case (Some r')
  then show ?thesis
    using other_write_attempts[OF Some assms] claim_write_attempts[of r _ r']
    by (auto simp: delivery_apply_def split: delivery_event.splits)
qed

lemma attempts_count_claims:
  "(\<forall>e \<in> set es. \<not> is_reset e) \<Longrightarrow>
   dr_attempt_count (delivery_run r es) = dr_attempt_count r + successful_claims r es"
proof (induction es arbitrary: r)
  case Nil
  then show ?case by simp
next
  case (Cons e es)
  then show ?case
    using apply_no_reset_attempts[of e r] by simp
qed

lemma delivery_run_attempts:
  "(\<forall>e \<in> set es. claims_within n e) \<Longrightarrow> dr_attempt_count r \<le> n \<Longrightarrow>
   dr_attempt_count (delivery_run r es) \<le> n"
  by (induction es arbitrary: r) (simp_all add: delivery_apply_attempts)

section \<open>The final state and the frame\<close>

lemma processed_no_write: "dr_status r = DProcessed \<Longrightarrow> delivery_write r e = None"
  by (cases e)
    (auto simp: model_defs is_held_by_def is_delivery_due_def is_delivery_claim_expired_def)

lemma delivery_write_frame:
  "delivery_write r e = Some r' \<Longrightarrow>
   delivery_record.more r' = delivery_record.more r \<and> dr_created_at r' = dr_created_at r"
  by (elim delivery_write_cases) (auto simp: model_defs split: if_splits)

lemma delivery_run_frame:
  "delivery_record.more (delivery_run r es) = delivery_record.more r \<and>
   dr_created_at (delivery_run r es) = dr_created_at r"
proof (induction es arbitrary: r)
  case Nil
  then show ?case by simp
next
  case (Cons e es)
  have "delivery_record.more (delivery_apply r e) = delivery_record.more r \<and>
        dr_created_at (delivery_apply r e) = dr_created_at r"
    by (rule delivery_apply_lift) (auto dest: delivery_write_frame)
  with Cons show ?case by simp
qed

section \<open>Backoff\<close>

lemma retry_delay_mono:
  assumes "0 \<le> base_delay_ms p" and "m \<le> n"
  shows "delivery_retry_delay_ms m p \<le> delivery_retry_delay_ms n p"
proof -
  have "(2::int) ^ (m - 1) \<le> 2 ^ (n - 1)"
    by (rule power_increasing) (use assms(2) in auto)
  then have "base_delay_ms p * 2 ^ (m - 1) \<le> base_delay_ms p * 2 ^ (n - 1)"
    by (rule mult_left_mono) (rule assms(1))
  then show ?thesis by (simp add: delivery_retry_delay_ms_def Let_def min_def)
qed

lemma retry_delay_le_max: "delivery_retry_delay_ms n p \<le> max_delay_ms p"
  by (simp add: delivery_retry_delay_ms_def Let_def)

section \<open>Properties\<close>

definition sample_delivery :: delivery_record where
  "sample_delivery =
    \<lparr>dr_status = DPending, dr_attempt_count = 0, dr_claimed_at = None, dr_claim_owner = None,
     dr_claim_token = None, dr_lease_expires_at = None, dr_next_retry_at = None,
     dr_last_error = None, dr_processor_version = None, dr_created_at = 0, dr_updated_at = 0\<rparr>"

definition sample_claim :: "ident \<Rightarrow> timestamp \<Rightarrow> claim_input" where
  "sample_claim token now =
    \<lparr>ci_owner = ''worker'', ci_now = now, ci_lease_ms = 60000, ci_claim_token = token,
     ci_policy = None\<rparr>"

definition sample_fail :: "ident \<Rightarrow> timestamp \<Rightarrow> fail_input" where
  "sample_fail token now =
    \<lparr>fi_owner = None, fi_claim_token = token, fi_now = now, fi_error = ''timeout'',
     fi_retryable = True, fi_policy = None\<rparr>"

lemmas sample_defs = sample_delivery_def sample_claim_def sample_fail_def
  default_delivery_retry_policy_def delivery_apply_def is_delivery_due_def
  is_held_by_def is_delivery_claim_expired_def

text \<open>
  C25. Fencing. Once a delivery no longer carries the token \<open>t\<close>, and as long as no later claim is
  issued the same token, no renew, complete or fail that presents \<open>t\<close> writes anything, whatever
  else happens to the record in between.
\<close>

theorem stale_token_is_fenced:
  assumes "dr_claim_token r \<noteq> Some t"
    and "\<forall>e \<in> set es. claimed_token e \<noteq> Some t"
    and "event_token e = Some t"
  shows "delivery_write (delivery_run r es) e = None"
  using token_write_requires_token[OF assms(3)] delivery_run_token[OF assms(1,2)] by blast

theorem stale_token_is_fenced_witness:
  "delivery_write
     (delivery_run sample_delivery
       [EvClaim (sample_claim ''new'' 70000), EvRenew ''new'' None 80000 60000])
     (EvComplete ''old'' None 81000 None) = None"
  by (rule stale_token_is_fenced[where t = "''old''"]) (simp_all add: sample_defs)

fun event_now :: "delivery_event \<Rightarrow> timestamp" where
  "event_now (EvClaim i) = ci_now i"
| "event_now (EvRenew _ _ now _) = now"
| "event_now (EvComplete _ _ now _) = now"
| "event_now (EvFail i) = fi_now i"
| "event_now (EvExpire now _) = now"
| "event_now (EvReset now) = now"

text \<open>
  A holder whose lease has run out may not write: every renew, complete or fail at or after
  the lease's end is refused, even when nobody has taken the delivery over yet.
\<close>

theorem expired_lease_is_fenced:
  assumes "dr_lease_expires_at r = Some d" and "d \<le> event_now e" and "event_token e \<noteq> None"
  shows "delivery_write r e = None"
  using assms by (cases e) (auto simp: model_defs is_held_by_iff)

theorem expired_lease_is_fenced_witness:
  "delivery_write (delivery_apply sample_delivery (EvClaim (sample_claim ''a'' 0)))
     (EvComplete ''a'' None 60000 None) = None"
  by (rule expired_lease_is_fenced[where d = 60000])
    (simp_all add: sample_defs claim_delivery_record_def add_milliseconds_def)

text \<open>
  C27. The retry budget. In a run without a manual reset whose claims are made under policies of at
  most \<open>n\<close> attempts, the attempts already spent and the claims that succeed add up to at most
  \<open>n\<close>: failures, crashes and lease expiries never buy a delivery an extra attempt.
\<close>

theorem claims_bounded_by_policy:
  assumes "\<forall>e \<in> set es. \<not> is_reset e" and "\<forall>e \<in> set es. claims_within n e"
    and "dr_attempt_count r \<le> n"
  shows "dr_attempt_count r + successful_claims r es \<le> n"
  using attempts_count_claims[OF assms(1), of r] delivery_run_attempts[OF assms(2,3)] by simp

theorem claims_bounded_by_policy_witness:
  "dr_attempt_count sample_delivery
     + successful_claims sample_delivery
         [EvClaim (sample_claim ''a'' 0), EvFail (sample_fail ''a'' 10),
          EvClaim (sample_claim ''b'' 2000), EvExpire 70000 None] \<le> 3"
  by (rule claims_bounded_by_policy) (simp_all add: is_reset_def sample_defs)

text \<open>
  Every reachable delivery is well formed: token and lease are present exactly while the
  delivery is processing, and a retry time only while it is pending.
\<close>

theorem delivery_run_well_formed:
  assumes "delivery_wf r"
  shows "delivery_wf (delivery_run r es)"
  using assms by (rule delivery_run_wf)

theorem delivery_run_well_formed_witness:
  "delivery_wf (delivery_run sample_delivery
     [EvClaim (sample_claim ''a'' 0), EvFail (sample_fail ''a'' 10)])"
  by (rule delivery_run_well_formed) (simp add: delivery_wf_def sample_delivery_def)

text \<open>
  No delivery is stuck in processing. A claim whose lease has run out (or that has none) and
  has attempts left is put back by recovery so that the next claim, at any time from then on,
  succeeds under its own token; with no attempts left it becomes a dead letter.
\<close>

theorem expired_claim_is_recoverable:
  assumes "is_delivery_claim_expired r now"
    and "now \<le> ci_now i" and "ci_claim_token i \<noteq> []" and "ci_policy i = pol"
  shows "(let r' = delivery_apply r (EvExpire now pol) in
     if dr_attempt_count r < max_attempts (or_default pol default_delivery_retry_policy)
     then \<exists>c. delivery_write r' (EvClaim i) = Some c
            \<and> dr_claim_token c = Some (ci_claim_token i) \<and> dr_status c = DProcessing
     else dr_status r' = DDeadLetter)"
  using assms
  by (simp add: delivery_apply_def expire_delivery_claim_record_def claim_delivery_record_def
      is_delivery_due_def Let_def)

theorem expired_claim_is_recoverable_witness:
  "(let r = delivery_apply sample_delivery (EvClaim (sample_claim ''a'' 0));
        r' = delivery_apply r (EvExpire 60000 None) in
     if dr_attempt_count r < max_attempts (or_default None default_delivery_retry_policy)
     then \<exists>c. delivery_write r' (EvClaim (sample_claim ''b'' 60000)) = Some c
            \<and> dr_claim_token c = Some (ci_claim_token (sample_claim ''b'' 60000))
            \<and> dr_status c = DProcessing
     else dr_status r' = DDeadLetter)"
  unfolding Let_def[of "delivery_apply sample_delivery (EvClaim (sample_claim ''a'' 0))"]
  by (rule expired_claim_is_recoverable)
    (simp_all add: sample_defs claim_delivery_record_def add_milliseconds_def)

text \<open>
  Exponential backoff. After a retryable failure of attempt \<open>n\<close> with attempts left, the
  delivery is due exactly from \<open>base * 2 ^ (n - 1)\<close> milliseconds (capped at the policy's
  maximum) after the failure, and not before.
\<close>

theorem failed_delivery_backs_off:
  assumes "fail_delivery_record r i = Some r'" and "fi_retryable i"
    and "fi_policy i = Some p" and "dr_attempt_count r < max_attempts p"
  shows "is_delivery_due r' t \<longleftrightarrow>
     fi_now i + min (max_delay_ms p) (base_delay_ms p * 2 ^ (dr_attempt_count r - 1)) \<le> t"
  using assms
  by (auto simp: fail_delivery_record_def is_delivery_due_def add_milliseconds_def
      delivery_retry_delay_ms_def Let_def split: if_splits)

theorem failed_delivery_backs_off_witness:
  "\<exists>r r' i. fail_delivery_record r i = Some r' \<and>
     (is_delivery_due (r' :: delivery_record) 2010 \<longleftrightarrow> 10 + min (60000::int) (1000 * 2 ^ (2 - 1)) \<le> 2010)"
proof -
  let ?r = "sample_delivery\<lparr>dr_status := DProcessing, dr_attempt_count := 2,
    dr_claim_token := Some ''a'', dr_lease_expires_at := Some 5000\<rparr>"
  let ?i = "(sample_fail ''a'' 10)\<lparr>fi_policy := Some default_delivery_retry_policy\<rparr>"
  obtain r' where r': "fail_delivery_record ?r ?i = Some r'"
    by (simp add: fail_delivery_record_def sample_defs Let_def)
  have "is_delivery_due r' 2010 \<longleftrightarrow> fi_now ?i + min (max_delay_ms default_delivery_retry_policy)
      (base_delay_ms default_delivery_retry_policy * 2 ^ (dr_attempt_count ?r - 1)) \<le> 2010"
    by (rule failed_delivery_backs_off[OF r']) (simp_all add: sample_defs)
  then have "is_delivery_due r' 2010 \<longleftrightarrow> 10 + min (60000::int) (1000 * 2 ^ (2 - 1)) \<le> 2010"
    by (simp add: sample_defs)
  with r' show ?thesis by blast
qed

fun successful_completions :: "'a delivery_record_scheme \<Rightarrow> delivery_event list \<Rightarrow> nat" where
  "successful_completions r [] = 0"
| "successful_completions r (e # es) =
     (case (e, delivery_write r e) of (EvComplete _ _ _ _, Some _) \<Rightarrow> 1 | _ \<Rightarrow> 0)
     + successful_completions (delivery_apply r e) es"

lemma processed_no_completion:
  "dr_status r = DProcessed \<Longrightarrow> successful_completions r es = 0"
  by (induction es arbitrary: r)
    (simp_all add: processed_no_write delivery_apply_def split: delivery_event.splits)

text \<open>
  C28. A delivery is completed at most once: in any run, whatever claims, resets and recoveries it
  contains, at most one complete writes.
\<close>

theorem completed_at_most_once: "successful_completions r es \<le> 1"
proof (induction es arbitrary: r)
  case Nil
  then show ?case by simp
next
  case (Cons e es)
  show ?case
  proof (cases "\<exists>t ow n v r'. e = EvComplete t ow n v \<and> complete_delivery_record r t ow n v = Some r'")
    case True
    then have "dr_status (delivery_apply r e) = DProcessed"
      by (auto simp: delivery_apply_def complete_delivery_record_def split: if_splits)
    then show ?thesis
      by (simp add: processed_no_completion split: delivery_event.split option.split)
  next
    case False
    with Cons[of "delivery_apply r e"] show ?thesis
      by (auto split: delivery_event.split option.split)
  qed
qed

end
