(* ===== verification/DeliveryClaim.thy ===== *)
theory DeliveryClaim
  imports DeliveryLifecycle
begin

text \<open>
  The critical sections around the delivery rules (\<open>src/memory/services/delivery-claim.ts\<close>).
  A store is a record of functions over its state, as the TypeScript interface
  \<open>DeliveryRecordStore\<close> is an object of methods; \<open>ds_lock\<close> says whether the critical section of a
  record is obtained. Between two critical sections of one call other callers may run: the
  parameter \<open>env\<close> is what they do to the state before the section of a candidate. The locale
  \<open>delivery_store\<close> states what a store promises; the orchestration is verified against it.
\<close>

section \<open>Stores and the read-decide-write skeleton\<close>

record ('s, 'r) delivery_record_store =
  ds_list :: "'s \<Rightarrow> ident option \<Rightarrow> 'r delivery_candidate list"
  ds_read :: "'s \<Rightarrow> ident \<Rightarrow> ident \<Rightarrow> 'r option"
  ds_write :: "'s \<Rightarrow> ident \<Rightarrow> 'r \<Rightarrow> 's"
  ds_lock :: "'s \<Rightarrow> ident \<Rightarrow> ident \<Rightarrow> bool"

definition mutate_record ::
  "('s, 'r) delivery_record_store \<Rightarrow> ident \<Rightarrow> ident \<Rightarrow> ('r \<Rightarrow> 'e + 'r option) \<Rightarrow> 's
    \<Rightarrow> ('e + 'r option) \<times> 's" where
  "mutate_record S role i apply_rule s =
    (if \<not> ds_lock S s role i then (Inr None, s)
     else case ds_read S s role i of
       None \<Rightarrow> (Inr None, s)
     | Some r \<Rightarrow>
        (case apply_rule r of
          Inl e \<Rightarrow> (Inl e, s)
        | Inr None \<Rightarrow> (Inr None, s)
        | Inr (Some r') \<Rightarrow> (Inr (Some r'), ds_write S s role r')))"

definition claim_record ::
  "('s, 'a delivery_record_scheme) delivery_record_store \<Rightarrow> ident \<Rightarrow> ident \<Rightarrow> claim_input \<Rightarrow> 's
    \<Rightarrow> (delivery_error + 'a delivery_record_scheme option) \<times> 's" where
  "claim_record S role i inp = mutate_record S role i (\<lambda>r. claim_delivery_record r inp)"

fun claim_candidates ::
  "('s, 'a delivery_record_scheme) delivery_record_store
    \<Rightarrow> ('a delivery_record_scheme delivery_candidate \<Rightarrow> 's \<Rightarrow> 's) \<Rightarrow> claim_input
    \<Rightarrow> 'a delivery_record_scheme delivery_candidate list \<Rightarrow> 's
    \<Rightarrow> (delivery_error + 'a delivery_record_scheme option) \<times> 's" where
  "claim_candidates S env inp [] s = (Inr None, s)"
| "claim_candidates S env inp (c # cs) s =
     (case claim_record S (dc_role_id c) (dc_id c) inp (env c s) of
       (Inl e, s') \<Rightarrow> (Inl e, s')
     | (Inr (Some r), s') \<Rightarrow> (Inr (Some r), s')
     | (Inr None, s') \<Rightarrow> claim_candidates S env inp cs s')"

definition claim_next_record ::
  "(ident \<Rightarrow> ident \<Rightarrow> int) \<Rightarrow> ('s, 'a delivery_record_scheme) delivery_record_store
    \<Rightarrow> ('a delivery_record_scheme delivery_candidate \<Rightarrow> 's \<Rightarrow> 's) \<Rightarrow> claim_input \<Rightarrow> ident option \<Rightarrow> 's
    \<Rightarrow> (delivery_error + 'a delivery_record_scheme option) \<times> 's" where
  "claim_next_record collate S env inp role s =
    (let candidates = filter (\<lambda>c. is_delivery_due (dc_record c) (ci_now inp)) (ds_list S s role)
     in claim_candidates S env inp (sort_candidates collate candidates) s)"

definition renew_record_claim ::
  "('s, 'a delivery_record_scheme) delivery_record_store \<Rightarrow> ident \<Rightarrow> ident \<Rightarrow> ident \<Rightarrow> ident option
    \<Rightarrow> timestamp \<Rightarrow> int \<Rightarrow> 's \<Rightarrow> (delivery_error + 'a delivery_record_scheme option) \<times> 's" where
  "renew_record_claim S role i token owner now lease =
     mutate_record S role i (\<lambda>r. Inr (renew_delivery_claim_record r token owner now lease))"

definition complete_record ::
  "('s, 'a delivery_record_scheme) delivery_record_store \<Rightarrow> ident \<Rightarrow> ident \<Rightarrow> ident \<Rightarrow> ident option
    \<Rightarrow> timestamp \<Rightarrow> string option \<Rightarrow> 's
    \<Rightarrow> (delivery_error + 'a delivery_record_scheme option) \<times> 's" where
  "complete_record S role i token owner now version =
     mutate_record S role i (\<lambda>r. Inr (complete_delivery_record r token owner now version))"

definition fail_record ::
  "('s, 'a delivery_record_scheme) delivery_record_store \<Rightarrow> ident \<Rightarrow> ident \<Rightarrow> fail_input \<Rightarrow> 's
    \<Rightarrow> (delivery_error + 'a delivery_record_scheme option) \<times> 's" where
  "fail_record S role i inp = mutate_record S role i (\<lambda>r. Inr (fail_delivery_record r inp))"

definition retry_dead_letter_record ::
  "('s, 'a delivery_record_scheme) delivery_record_store \<Rightarrow> ident \<Rightarrow> ident \<Rightarrow> timestamp \<Rightarrow> 's
    \<Rightarrow> (delivery_error + 'a delivery_record_scheme option) \<times> 's" where
  "retry_dead_letter_record S role i now =
     mutate_record S role i (\<lambda>r. Inr (reset_delivery_for_retry r now))"

definition restore_one ::
  "('s, 'a delivery_record_scheme) delivery_record_store \<Rightarrow> timestamp
    \<Rightarrow> delivery_retry_policy option \<Rightarrow> ident \<Rightarrow> ident \<Rightarrow> 's
    \<Rightarrow> (delivery_error + 'a delivery_record_scheme option) \<times> 's" where
  \<comment> \<open>the critical section of \<open>restoreExpiredRecords\<close>: read again, decide again, write\<close>
  "restore_one S now pol role i =
     mutate_record S role i (\<lambda>r.
       Inr (if is_delivery_claim_expired r now then Some (expire_delivery_claim_record r now pol)
            else None))"

fun restore_candidates ::
  "('s, 'a delivery_record_scheme) delivery_record_store
    \<Rightarrow> ('a delivery_record_scheme delivery_candidate \<Rightarrow> 's \<Rightarrow> 's) \<Rightarrow> timestamp
    \<Rightarrow> delivery_retry_policy option \<Rightarrow> 'a delivery_record_scheme delivery_candidate list \<Rightarrow> 's
    \<Rightarrow> 'a delivery_record_scheme delivery_candidate list \<times> 's" where
  "restore_candidates S env now pol [] s = ([], s)"
| "restore_candidates S env now pol (c # cs) s =
     (case restore_one S now pol (dc_role_id c) (dc_id c) (env c s) of
       (Inr (Some r), s') \<Rightarrow>
         (case restore_candidates S env now pol cs s' of
           (restored, s'') \<Rightarrow> (c\<lparr>dc_record := r\<rparr> # restored, s''))
     | (_, s') \<Rightarrow> restore_candidates S env now pol cs s')"

definition restore_expired_records ::
  "(ident \<Rightarrow> ident \<Rightarrow> int) \<Rightarrow> ('s, 'a delivery_record_scheme) delivery_record_store
    \<Rightarrow> ('a delivery_record_scheme delivery_candidate \<Rightarrow> 's \<Rightarrow> 's) \<Rightarrow> ident option \<Rightarrow> timestamp
    \<Rightarrow> delivery_retry_policy option \<Rightarrow> 's
    \<Rightarrow> 'a delivery_record_scheme delivery_candidate list \<times> 's" where
  "restore_expired_records collate S env role now pol s =
    (let expired = sort_candidates collate
           (filter (\<lambda>c. is_delivery_claim_expired (dc_record c) now) (ds_list S s role))
     in restore_candidates S env now pol expired s)"

definition list_retryable_records ::
  "(ident \<Rightarrow> ident \<Rightarrow> int) \<Rightarrow> ('s, 'a delivery_record_scheme) delivery_record_store
    \<Rightarrow> ident option \<Rightarrow> timestamp \<Rightarrow> 's \<Rightarrow> 'a delivery_record_scheme delivery_candidate list" where
  "list_retryable_records collate S role now s =
     sort_candidates collate (filter (\<lambda>c. is_delivery_due (dc_record c) now) (ds_list S s role))"

lemmas claim_section_defs =
  claim_record_def renew_record_claim_def complete_record_def fail_record_def
  retry_dead_letter_record_def restore_one_def

section \<open>The contract of a store\<close>

text \<open>
  \<open>id_of\<close> is the identifier field of the record type, \<open>inv\<close> the store's own invariant. A rule
  never changes the extension of a record, hence not its identifier (\<open>id_more\<close>).
\<close>

locale delivery_store =
  fixes S :: "('s, 'a delivery_record_scheme) delivery_record_store"
    and id_of :: "'a delivery_record_scheme \<Rightarrow> ident"
    and inv :: "'s \<Rightarrow> bool"
  assumes id_more: "delivery_record.more r = delivery_record.more r' \<Longrightarrow> id_of r = id_of r'"
    and read_id: "inv s \<Longrightarrow> ds_read S s role i = Some r \<Longrightarrow> id_of r = i"
    and read_write_same: "inv s \<Longrightarrow> ds_read S (ds_write S s role r) role (id_of r) = Some r"
    and read_write_other: "inv s \<Longrightarrow> (role', i') \<noteq> (role, id_of r) \<Longrightarrow>
      ds_read S (ds_write S s role r) role' i' = ds_read S s role' i'"
    and inv_write: "inv s \<Longrightarrow> inv (ds_write S s role r)"
    and in_list: "inv s \<Longrightarrow> c \<in> set (ds_list S s ro) \<longleftrightarrow>
      (ro = None \<or> ro = Some (dc_role_id c)) \<and>
      ds_read S s (dc_role_id c) (dc_id c) = Some (dc_record c)"
begin

lemma mutate_Some:
  assumes "inv s" and "mutate_record S role i f s = (Inr (Some r'), s')"
    and "\<And>r r'. f r = Inr (Some r') \<Longrightarrow> delivery_record.more r' = delivery_record.more r"
  shows "\<exists>r. ds_read S s role i = Some r \<and> f r = Inr (Some r') \<and>
      inv s' \<and> ds_read S s' role i = Some r' \<and>
      (\<forall>role' i'. (role', i') \<noteq> (role, i) \<longrightarrow> ds_read S s' role' i' = ds_read S s role' i')"
proof -
  from assms(2) obtain r where r: "ds_read S s role i = Some r" "f r = Inr (Some r')"
    "s' = ds_write S s role r'"
    by (auto simp: mutate_record_def split: if_splits option.splits sum.splits)
  have "id_of r' = i"
    using id_more[OF assms(3)[OF r(2)]] read_id[OF assms(1) r(1)] by simp
  then show ?thesis
    using r inv_write[OF assms(1)] read_write_same[OF assms(1), of role r']
      read_write_other[OF assms(1)] by auto
qed

lemma mutate_not_Some:
  "mutate_record S role i f s = (res, s') \<Longrightarrow> (\<forall>r. res \<noteq> Inr (Some r)) \<Longrightarrow> s' = s"
  by (auto simp: mutate_record_def split: if_splits option.splits sum.splits) metis

lemma mutate_inv:
  assumes "inv s"
  shows "inv (snd (mutate_record S role i f s))"
  using assms inv_write
  by (auto simp: mutate_record_def split: if_splits option.splits sum.splits)

lemma claim_frame:
  "claim_delivery_record r inp = Inr (Some r') \<Longrightarrow> delivery_record.more r' = delivery_record.more r"
  by (auto simp: claim_delivery_record_Some)

lemma claim_record_Some:
  assumes "inv s" and "claim_record S role i inp s = (Inr (Some r'), s')"
  shows "\<exists>r. ds_read S s role i = Some r \<and> claim_delivery_record r inp = Inr (Some r') \<and>
      inv s' \<and> ds_read S s' role i = Some r' \<and>
      (\<forall>role' i'. (role', i') \<noteq> (role, i) \<longrightarrow> ds_read S s' role' i' = ds_read S s role' i')"
  using mutate_Some[OF assms(1) assms(2)[unfolded claim_record_def]] claim_frame by blast

text \<open>
  A claim of the next delivery, under any interference that keeps the store's invariant: when it
  returns a delivery, that delivery was claimable in the state its critical section found, it is
  now stored under the caller's token, and that section wrote nothing else.
\<close>

lemma claim_candidates_Some:
  assumes "\<And>c s. inv s \<Longrightarrow> inv (env c s)" and "inv s"
    and "claim_candidates S env inp cs s = (Inr (Some r'), s')"
  shows "\<exists>c s0 r. c \<in> set cs \<and> inv s0 \<and> ds_read S s0 (dc_role_id c) (dc_id c) = Some r \<and>
      claim_delivery_record r inp = Inr (Some r') \<and>
      inv s' \<and> ds_read S s' (dc_role_id c) (dc_id c) = Some r' \<and>
      (\<forall>role' i'. (role', i') \<noteq> (dc_role_id c, dc_id c) \<longrightarrow>
         ds_read S s' role' i' = ds_read S s0 role' i')"
  using assms(2,3)
proof (induction cs arbitrary: s)
  case Nil
  then show ?case by simp
next
  case (Cons c cs)
  let ?s0 = "env c s"
  have inv0: "inv ?s0" using assms(1) Cons.prems(1) by blast
  obtain res s1 where eq: "claim_record S (dc_role_id c) (dc_id c) inp ?s0 = (res, s1)"
    by (cases "claim_record S (dc_role_id c) (dc_id c) inp ?s0")
  show ?case
  proof (cases res)
    case (Inl e)
    with Cons.prems eq show ?thesis by simp
  next
    case (Inr x)
    show ?thesis
    proof (cases x)
      case None
      with Inr eq have "s1 = ?s0"
        using mutate_not_Some[of "dc_role_id c" "dc_id c"] by (auto simp: claim_record_def)
      with None Inr eq Cons.prems(2) inv0 Cons.IH[of ?s0] show ?thesis by auto
    next
      case (Some r1)
      with Inr eq Cons.prems(2) have "r1 = r'" "s1 = s'" by simp_all
      with claim_record_Some[OF inv0] eq Inr Some inv0 show ?thesis
        by (intro exI[of _ c] exI[of _ ?s0]) auto
    qed
  qed
qed

lemma claim_candidates_None_unchanged:
  "claim_candidates S (\<lambda>_ s. s) inp cs s = (Inr None, s') \<Longrightarrow> s' = s"
proof (induction cs)
  case Nil
  then show ?case by simp
next
  case (Cons c cs)
  obtain res s1 where eq: "claim_record S (dc_role_id c) (dc_id c) inp s = (res, s1)"
    by (cases "claim_record S (dc_role_id c) (dc_id c) inp s")
  then have "res = Inr None \<Longrightarrow> s1 = s"
    using mutate_not_Some[of "dc_role_id c" "dc_id c"] by (auto simp: claim_record_def)
  with Cons eq show ?case by (auto split: sum.splits option.splits)
qed

end

definition recovered ::
  "timestamp \<Rightarrow> delivery_retry_policy option \<Rightarrow> 'a delivery_record_scheme
    \<Rightarrow> 'a delivery_record_scheme" where
  "recovered now pol r =
    (if is_delivery_claim_expired r now then expire_delivery_claim_record r now pol else r)"

lemma expire_not_expired: "\<not> is_delivery_claim_expired (expire_delivery_claim_record r now pol) t"
  by (simp add: expire_delivery_claim_record_def is_delivery_claim_expired_def Let_def)

lemma recovered_not_expired [simp]: "\<not> is_delivery_claim_expired (recovered now pol r) now"
  by (simp add: recovered_def expire_not_expired)

lemma recovered_idem [simp]: "recovered now pol (recovered now pol r) = recovered now pol r"
  by (simp add: recovered_def expire_not_expired)

lemma map_option_recovered_idem [simp]:
  "map_option (recovered now pol) (map_option (recovered now pol) x) = map_option (recovered now pol) x"
  by (cases x) simp_all

lemma expire_frame: "delivery_record.more (expire_delivery_claim_record r now pol) = delivery_record.more r"
  by (simp add: expire_delivery_claim_record_def Let_def)

text \<open>
  Adapters that serialise the callers of a record in one process always obtain the critical
  section. For them recovery is complete: no expired claim is left in the scope.
\<close>

locale serial_delivery_store = delivery_store +
  assumes lock_granted: "ds_lock S s role i"
begin

lemma restore_one_eq:
  "restore_one S now pol role i s =
    (case ds_read S s role i of None \<Rightarrow> (Inr None, s)
     | Some r \<Rightarrow> if is_delivery_claim_expired r now
         then (Inr (Some (expire_delivery_claim_record r now pol)),
               ds_write S s role (expire_delivery_claim_record r now pol))
         else (Inr None, s))"
  by (simp add: restore_one_def mutate_record_def lock_granted split: option.split)

lemma restore_one_read:
  assumes "inv s" and "restore_one S now pol role i s = (res, s')"
  shows "inv s' \<and> ds_read S s' role' i' =
    (if (role', i') = (role, i) then map_option (recovered now pol) (ds_read S s role i)
     else ds_read S s role' i')"
proof (cases "ds_read S s role i")
  case None
  with assms show ?thesis by (auto simp: restore_one_eq)
next
  case (Some r)
  let ?r = "expire_delivery_claim_record r now pol"
  have "id_of ?r = i"
    using id_more[OF expire_frame] read_id[OF assms(1) Some] by simp
  then show ?thesis
    using assms Some inv_write[OF assms(1), of role ?r] read_write_same[OF assms(1), of role ?r]
      read_write_other[OF assms(1), of role' i' role ?r]
    by (auto simp: restore_one_eq recovered_def split: if_splits)
qed

lemma restore_candidates_read:
  assumes "inv s" and "restore_candidates S (\<lambda>_ s. s) now pol cs s = (res, s')"
  shows "inv s' \<and> ds_read S s' role i =
    (if \<exists>c \<in> set cs. (dc_role_id c, dc_id c) = (role, i)
     then map_option (recovered now pol) (ds_read S s role i) else ds_read S s role i)"
  using assms
proof (induction cs arbitrary: s res)
  case Nil
  then show ?case by simp
next
  case (Cons c cs)
  obtain out s1 where eq: "restore_one S now pol (dc_role_id c) (dc_id c) s = (out, s1)"
    by (cases "restore_one S now pol (dc_role_id c) (dc_id c) s")
  from Cons.prems(2) eq obtain res' where
    rest: "restore_candidates S (\<lambda>_ s. s) now pol cs s1 = (res', s')"
    by (auto split: sum.splits option.splits prod.splits)
  note one = restore_one_read[OF Cons.prems(1) eq, of role i]
  show ?case
    using Cons.IH[OF conjunct1[OF one] rest] one by auto
qed

lemma restore_expired_complete:
  assumes "inv s" and "restore_expired_records collate S (\<lambda>_ s. s) ro now pol s = (res, s')"
    and "ro = None \<or> ro = Some role" and "ds_read S s' role i = Some r"
  shows "\<not> is_delivery_claim_expired r now"
proof -
  let ?cs = "sort_candidates collate
    (filter (\<lambda>c. is_delivery_claim_expired (dc_record c) now) (ds_list S s ro))"
  from assms(2) have run: "restore_candidates S (\<lambda>_ s. s) now pol ?cs s = (res, s')"
    by (simp add: restore_expired_records_def)
  note rd = restore_candidates_read[OF assms(1) run, of role i]
  have mem: "\<exists>c \<in> set ?cs. (dc_role_id c, dc_id c) = (role, i)"
    if "ds_read S s role i = Some r0" "is_delivery_claim_expired r0 now" for r0
    using that assms(3) in_list[OF assms(1), of "\<lparr>dc_role_id = role, dc_id = i, dc_record = r0\<rparr>" ro]
    by (intro bexI[of _ "\<lparr>dc_role_id = role, dc_id = i, dc_record = r0\<rparr>"])
      (auto simp: sort_candidates_def)
  show ?thesis
  proof (cases "\<exists>c \<in> set ?cs. (dc_role_id c, dc_id c) = (role, i)")
    case True
    with rd assms(4) have "map_option (recovered now pol) (ds_read S s role i) = Some r" by simp
    then show ?thesis by (auto simp: map_option_eq_Some)
  next
    case False
    have "ds_read S s' role i = ds_read S s role i"
      using conjunct2[OF rd] if_not_P[OF False] by (rule trans)
    with assms(4) have "ds_read S s role i = Some r" by simp
    with mem False show ?thesis by blast
  qed
qed

end

end
