(* ===== verification/MemoryDelivery.thy ===== *)
theory MemoryDelivery
  imports DeliveryClaim
begin

text \<open>
  The in-memory delivery repository (\<open>src/memory/adapters/in-memory-memory-delivery.ts\<close>, record
  shapes from \<open>src/memory/schemas.ts\<close>, port \<open>src/memory/ports/memory-delivery.ts\<close>). The
  repository keeps, per role, three maps of deliveries; each channel is a \<open>delivery_record_store\<close>
  over the whole state. One generic channel is verified (locale \<open>memory_channel\<close>) and the three
  channels of the code interpret it. The clock and the fresh claim token, which the code reads
  from the platform, are arguments.
\<close>

section \<open>Records of the three channels\<close>

record context_item = delivery_record +
  ctx_delivery_id :: ident
  ctx_delivery_key :: string
  ctx_role_id :: ident
  ctx_task_id :: ident
  ctx_buffer_seq :: nat
  ctx_memory_buffer_ref :: string
  ctx_report_ref :: string
  ctx_context_snapshot_ref :: "string option"
  ctx_source_driver :: string
  ctx_schema_version :: string

datatype effectiveness = FullyEffective | PartiallyEffective | Ineffective | NotApplicable

datatype feedback_source = DriverUsage | UserRating

record feedback_content =
  fc_feedback_id :: ident
  fc_feedback_key :: string
  fc_role_id :: ident
  fc_task_id :: ident
  fc_buffer_seq :: "nat option"
  fc_experience_id :: ident
  fc_applied :: bool
  fc_effectiveness :: effectiveness
  fc_note :: string
  fc_observed_at :: timestamp
  fc_feedback_source :: feedback_source
  fc_event_version :: string

record feedback_record = delivery_record +
  fb_content :: feedback_content
    \<comment> \<open>the content fields are spread into the record in the source\<close>

record pending_feedback_record = delivery_record +
  pf_feedback_id :: ident
  pf_role_id :: ident
  pf_experience_id :: ident
  pf_feedback :: feedback_content

abbreviation feedback_id_of :: "feedback_record \<Rightarrow> ident" where
  "feedback_id_of r \<equiv> fc_feedback_id (fb_content r)"

section \<open>State, policy and results\<close>

record role_deliveries =
  rd_contexts :: "(ident \<times> context_item) list"
  rd_feedback :: "(ident \<times> feedback_record) list"
  rd_pending :: "(ident \<times> pending_feedback_record) list"

definition empty_role :: role_deliveries where
  "empty_role = \<lparr>rd_contexts = [], rd_feedback = [], rd_pending = []\<rparr>"

type_synonym memory_stores = "(ident \<times> role_deliveries) list"

datatype claim_isolation = ProcessMutex | ExclusiveLockFile

record delivery_repository_policy =
  rp_retry :: delivery_retry_policy
  rp_lease_ms :: int
  rp_claim_isolation :: claim_isolation
  rp_channels :: "delivery_channel \<rightharpoonup> partial_retry_policy"

record delivery_repository_options =
  ro_retry :: partial_retry_policy
  ro_feedback :: partial_retry_policy
  ro_pending_feedback :: partial_retry_policy
  ro_lease_ms :: "int option"

definition full_override :: "delivery_retry_policy \<Rightarrow> partial_retry_policy" where
  "full_override p =
    \<lparr>p_max_attempts = Some (max_attempts p), p_base_delay_ms = Some (base_delay_ms p),
     p_max_delay_ms = Some (max_delay_ms p)\<rparr>"

definition create_policy :: "delivery_repository_options \<Rightarrow> delivery_repository_policy" where
  "create_policy opts =
    \<lparr>rp_retry = spread_policy default_delivery_retry_policy (ro_retry opts),
     rp_lease_ms = or_default (ro_lease_ms opts) default_delivery_lease_ms,
     rp_claim_isolation = ProcessMutex,
     rp_channels =
       [FeedbackChannel \<mapsto>
          full_override (spread_policy default_feedback_consume_retry_policy (ro_feedback opts)),
        PendingFeedbackChannel \<mapsto>
          full_override
            (spread_policy default_pending_feedback_retry_policy (ro_pending_feedback opts))]\<rparr>"

definition policy_for :: "delivery_repository_policy \<Rightarrow> delivery_channel \<Rightarrow> delivery_retry_policy" where
  "policy_for p channel = resolve_channel_retry_policy (rp_retry p) (rp_channels p) channel"

datatype claimed_delivery =
    ClaimedContext context_item
  | ClaimedFeedback feedback_record
  | ClaimedPending pending_feedback_record

section \<open>One channel as a store\<close>

definition get_or_create_store :: "memory_stores \<Rightarrow> ident \<Rightarrow> role_deliveries" where
  "get_or_create_store st role = or_default (map_of st role) empty_role"

definition mem_role_entries ::
  "(role_deliveries \<Rightarrow> (ident \<times> 'r) list) \<Rightarrow> ('r \<Rightarrow> ident) \<Rightarrow> memory_stores \<Rightarrow> ident
    \<Rightarrow> 'r delivery_candidate list" where
  "mem_role_entries sel id_of st role =
    (case map_of st role of
       None \<Rightarrow> []
     | Some rd \<Rightarrow>
         map (\<lambda>(k, r). \<lparr>dc_role_id = role, dc_id = id_of r, dc_record = r\<rparr>) (sel rd))"

definition mem_entries ::
  "(role_deliveries \<Rightarrow> (ident \<times> 'r) list) \<Rightarrow> ('r \<Rightarrow> ident) \<Rightarrow> memory_stores \<Rightarrow> ident option
    \<Rightarrow> 'r delivery_candidate list" where
  "mem_entries sel id_of st role_id =
    (let role_ids = (case role_id of Some r \<Rightarrow> [r] | None \<Rightarrow> map fst st)
     in concat (map (mem_role_entries sel id_of st) role_ids))"

definition mem_read ::
  "(role_deliveries \<Rightarrow> (ident \<times> 'r) list) \<Rightarrow> memory_stores \<Rightarrow> ident \<Rightarrow> ident \<Rightarrow> 'r option" where
  "mem_read sel st role i =
    (case map_of st role of None \<Rightarrow> None | Some rd \<Rightarrow> map_of (sel rd) i)"

definition mem_write ::
  "(role_deliveries \<Rightarrow> (ident \<times> 'r) list)
    \<Rightarrow> ((ident \<times> 'r) list \<Rightarrow> role_deliveries \<Rightarrow> role_deliveries)
    \<Rightarrow> ('r \<Rightarrow> ident) \<Rightarrow> memory_stores \<Rightarrow> ident \<Rightarrow> 'r \<Rightarrow> memory_stores" where
  "mem_write sel upd id_of st role r =
    (let rd = get_or_create_store st role
     in AList.update role (upd (AList.update (id_of r) r (sel rd)) rd) st)"

definition mem_store ::
  "(role_deliveries \<Rightarrow> (ident \<times> 'r) list)
    \<Rightarrow> ((ident \<times> 'r) list \<Rightarrow> role_deliveries \<Rightarrow> role_deliveries)
    \<Rightarrow> ('r \<Rightarrow> ident) \<Rightarrow> (memory_stores, 'r) delivery_record_store" where
  "mem_store sel upd id_of =
    \<lparr>ds_list = mem_entries sel id_of, ds_read = mem_read sel, ds_write = mem_write sel upd id_of,
     ds_lock = (\<lambda>_ _ _. True)\<rparr>"
  \<comment> \<open>\<open>withKeyLock\<close> queues the callers of a key: the section is always entered\<close>

definition set_contexts :: "(ident \<times> context_item) list \<Rightarrow> role_deliveries \<Rightarrow> role_deliveries" where
  "set_contexts m rd = rd\<lparr>rd_contexts := m\<rparr>"

definition set_feedback :: "(ident \<times> feedback_record) list \<Rightarrow> role_deliveries \<Rightarrow> role_deliveries" where
  "set_feedback m rd = rd\<lparr>rd_feedback := m\<rparr>"

definition set_pending ::
  "(ident \<times> pending_feedback_record) list \<Rightarrow> role_deliveries \<Rightarrow> role_deliveries" where
  "set_pending m rd = rd\<lparr>rd_pending := m\<rparr>"

definition context_store :: "(memory_stores, context_item) delivery_record_store" where
  "context_store = mem_store rd_contexts set_contexts ctx_delivery_id"

definition feedback_store :: "(memory_stores, feedback_record) delivery_record_store" where
  "feedback_store = mem_store rd_feedback set_feedback feedback_id_of"

definition pending_feedback_store ::
  "(memory_stores, pending_feedback_record) delivery_record_store" where
  "pending_feedback_store = mem_store rd_pending set_pending pf_feedback_id"

text \<open>Keys are unique and every record sits under its own identifier.\<close>

definition channel_inv ::
  "(role_deliveries \<Rightarrow> (ident \<times> 'r) list) \<Rightarrow> ('r \<Rightarrow> ident) \<Rightarrow> memory_stores \<Rightarrow> bool" where
  "channel_inv sel id_of st \<longleftrightarrow>
     distinct (map fst st) \<and>
     (\<forall>(role, rd) \<in> set st. distinct (map fst (sel rd)) \<and> (\<forall>(k, r) \<in> set (sel rd). id_of r = k))"

locale memory_channel =
  fixes sel :: "role_deliveries \<Rightarrow> (ident \<times> 'a delivery_record_scheme) list"
    and upd :: "(ident \<times> 'a delivery_record_scheme) list \<Rightarrow> role_deliveries \<Rightarrow> role_deliveries"
    and id_of :: "'a delivery_record_scheme \<Rightarrow> ident"
  assumes sel_upd: "sel (upd m rd) = m"
    and sel_empty: "sel empty_role = []"
    and id_of_more: "delivery_record.more r = delivery_record.more r' \<Longrightarrow> id_of r = id_of r'"
begin

lemma channel_invD:
  assumes "channel_inv sel id_of st" and "map_of st role = Some rd"
  shows "distinct (map fst (sel rd))" and "(k, r) \<in> set (sel rd) \<Longrightarrow> id_of r = k"
  using assms map_of_SomeD[OF assms(2)] by (auto simp: channel_inv_def)

lemma get_or_create_inv:
  assumes "channel_inv sel id_of st"
  shows "distinct (map fst (sel (get_or_create_store st role)))"
    and "(k, r) \<in> set (sel (get_or_create_store st role)) \<Longrightarrow> id_of r = k"
  using channel_invD[OF assms] sel_empty
  by (cases "map_of st role"; simp add: get_or_create_store_def)+

lemma mem_write_inv:
  assumes "channel_inv sel id_of st"
  shows "channel_inv sel id_of (mem_write sel upd id_of st role r)"
  using assms get_or_create_inv[OF assms, where role = role]
  by (auto simp: channel_inv_def mem_write_def Let_def sel_upd distinct_update
      dest!: update_pairsD)

lemma mem_read_write:
  "mem_read sel (mem_write sel upd id_of st role r) role' i' =
    (if (role', i') = (role, id_of r) then Some r else mem_read sel st role' i')"
  by (auto simp: mem_read_def mem_write_def Let_def sel_upd sel_empty get_or_create_store_def
      split: option.splits)

lemma set_mem_entries:
  "c \<in> set (mem_entries sel id_of st ro) \<longleftrightarrow>
    (ro = None \<or> ro = Some (dc_role_id c)) \<and>
    (\<exists>rd k. map_of st (dc_role_id c) = Some rd \<and> (k, dc_record c) \<in> set (sel rd) \<and>
       dc_id c = id_of (dc_record c))"
proof -
  have member: "c \<in> set (mem_role_entries sel id_of st role) \<longleftrightarrow>
      role = dc_role_id c \<and> (\<exists>rd k. map_of st role = Some rd \<and> (k, dc_record c) \<in> set (sel rd) \<and>
        dc_id c = id_of (dc_record c))" for role
    by (cases c) (force simp: mem_role_entries_def split: option.splits)
  show ?thesis
    by (cases ro) (auto simp: mem_entries_def member, metis map_of_SomeD fst_conv)
qed

lemma mem_in_list:
  assumes "channel_inv sel id_of st"
  shows "c \<in> set (mem_entries sel id_of st ro) \<longleftrightarrow>
    (ro = None \<or> ro = Some (dc_role_id c)) \<and>
    mem_read sel st (dc_role_id c) (dc_id c) = Some (dc_record c)"
proof -
  have "(\<exists>k. (k, dc_record c) \<in> set (sel rd) \<and> dc_id c = id_of (dc_record c)) \<longleftrightarrow>
      map_of (sel rd) (dc_id c) = Some (dc_record c)"
    if "map_of st (dc_role_id c) = Some rd" for rd
    using channel_invD[OF assms that] by (auto simp: map_of_eq_Some_iff dest: map_of_SomeD)
  then show ?thesis
    by (auto simp: set_mem_entries mem_read_def split: option.splits)
qed

end

sublocale memory_channel \<subseteq> serial_delivery_store "mem_store sel upd id_of" id_of "channel_inv sel id_of"
proof unfold_locales
  show "id_of r = id_of r'" if "delivery_record.more r = delivery_record.more r'" for r r'
    using that by (rule id_of_more)
  show "id_of r = i" if "channel_inv sel id_of s" "ds_read (mem_store sel upd id_of) s role i = Some r"
    for s role i r
    using that channel_invD[OF that(1)]
    by (auto simp: mem_store_def mem_read_def split: option.splits dest: map_of_SomeD)
qed (auto simp: mem_store_def mem_read_write mem_write_inv mem_in_list)

definition all_wf :: "(ident \<Rightarrow> ident \<Rightarrow> 'a delivery_record_scheme option) \<Rightarrow> bool" where
  "all_wf rd \<longleftrightarrow> (\<forall>role i r. rd role i = Some r \<longrightarrow> delivery_wf r)"

text \<open>\<open>keeps_wf f\<close>: what a section writes is well formed when what it read was.\<close>

definition keeps_wf ::
  "('a delivery_record_scheme \<Rightarrow> delivery_error + 'a delivery_record_scheme option) \<Rightarrow> bool" where
  "keeps_wf f \<longleftrightarrow> (\<forall>r r'. delivery_wf r \<longrightarrow> f r = Inr (Some r') \<longrightarrow> delivery_wf r')"

context memory_channel
begin

lemma store_simps [simp]:
  "ds_read (mem_store sel upd id_of) = mem_read sel"
  "ds_write (mem_store sel upd id_of) = mem_write sel upd id_of"
  "ds_list (mem_store sel upd id_of) = mem_entries sel id_of"
  "ds_lock (mem_store sel upd id_of) st role i"
  by (simp_all add: mem_store_def)

text \<open>Every section of a channel writes nothing or one record that a rule produced.\<close>

lemma mutate_writes:
  "snd (mutate_record (mem_store sel upd id_of) role i f st) = st \<or>
   (\<exists>r r'. mem_read sel st role i = Some r \<and> f r = Inr (Some r') \<and>
      snd (mutate_record (mem_store sel upd id_of) role i f st) = mem_write sel upd id_of st role r')"
  by (auto simp: mutate_record_def split: option.splits sum.splits)

lemma mutate_keeps:
  assumes "all_wf (mem_read sel st)" and "keeps_wf f" and "P st"
    and "\<And>r. P st \<Longrightarrow> delivery_wf r \<Longrightarrow> P (mem_write sel upd id_of st role r)"
  shows "P (snd (mutate_record (mem_store sel upd id_of) role i f st))"
  using mutate_writes[of role i f st]
proof (elim disjE exE conjE)
  fix r r' assume "mem_read sel st role i = Some r" and "f r = Inr (Some r')"
  with assms(1,2) have "delivery_wf r'"
    unfolding all_wf_def keeps_wf_def by blast
  moreover assume "snd (mutate_record (mem_store sel upd id_of) role i f st)
    = mem_write sel upd id_of st role r'"
  ultimately show ?thesis using assms(3,4) by simp
qed (use assms(3) in simp)

end

lemma context_id_more:
  "delivery_record.more c = delivery_record.more c' \<Longrightarrow> ctx_delivery_id c = ctx_delivery_id c'"
  for c c' :: context_item
  by (cases c; cases c') simp

lemma feedback_content_more:
  "delivery_record.more f = delivery_record.more f' \<Longrightarrow> fb_content f = fb_content f'"
  for f f' :: feedback_record
  by (cases f; cases f') simp

lemma pending_id_more:
  "delivery_record.more q = delivery_record.more q' \<Longrightarrow> pf_feedback_id q = pf_feedback_id q'"
  for q q' :: pending_feedback_record
  by (cases q; cases q') simp

lemmas ids_more = context_id_more feedback_content_more pending_id_more

interpretation contexts: memory_channel rd_contexts set_contexts ctx_delivery_id
  by unfold_locales (auto simp: set_contexts_def empty_role_def dest: ids_more)

interpretation feedback: memory_channel rd_feedback set_feedback feedback_id_of
  by unfold_locales (auto simp: set_feedback_def empty_role_def dest: ids_more)

interpretation pending: memory_channel rd_pending set_pending pf_feedback_id
  by unfold_locales (auto simp: set_pending_def empty_role_def dest: ids_more)

text \<open>The invariant of the whole repository.\<close>

definition memory_inv :: "memory_stores \<Rightarrow> bool" where
  "memory_inv st \<longleftrightarrow>
     channel_inv rd_contexts ctx_delivery_id st \<and>
     channel_inv rd_feedback feedback_id_of st \<and>
     channel_inv rd_pending pf_feedback_id st"

section \<open>Operations of the repository\<close>

definition ensure_agent :: "ident \<Rightarrow> memory_stores \<Rightarrow> memory_stores" where
  "ensure_agent role st = AList.update role (get_or_create_store st role) st"

definition delete_agent :: "ident \<Rightarrow> memory_stores \<Rightarrow> memory_stores" where
  "delete_agent role st = AList.delete role st"

definition submit_delivery ::
  "(memory_stores, 'r) delivery_record_store \<Rightarrow> ident \<Rightarrow> ident \<Rightarrow> 'r \<Rightarrow> memory_stores
    \<Rightarrow> ('r \<times> bool) \<times> memory_stores" where
  \<comment> \<open>the common body of the three \<open>submit\<close> methods; the flag is \<open>created\<close>\<close>
  "submit_delivery S role i r st =
    (let st' = ensure_agent role st in
     case ds_read S st' role i of
       Some existing \<Rightarrow> ((existing, False), st')
     | None \<Rightarrow> ((r, True), ds_write S st' role r))"

definition submit_context_delivery ::
  "context_item \<Rightarrow> memory_stores \<Rightarrow> (context_item \<times> bool) \<times> memory_stores" where
  "submit_context_delivery item = submit_delivery context_store (ctx_role_id item) (ctx_delivery_id item) item"

definition submit_driver_feedback ::
  "feedback_record \<Rightarrow> memory_stores \<Rightarrow> (feedback_record \<times> bool) \<times> memory_stores" where
  "submit_driver_feedback r = submit_delivery feedback_store (fc_role_id (fb_content r)) (feedback_id_of r) r"

definition submit_pending_feedback ::
  "pending_feedback_record \<Rightarrow> memory_stores
    \<Rightarrow> (pending_feedback_record \<times> bool) \<times> memory_stores" where
  "submit_pending_feedback r = submit_delivery pending_feedback_store (pf_role_id r) (pf_feedback_id r) r"

definition get_context_delivery :: "memory_stores \<Rightarrow> ident \<Rightarrow> ident \<Rightarrow> context_item option" where
  "get_context_delivery st role i = mem_read rd_contexts st role i"

definition get_driver_feedback :: "memory_stores \<Rightarrow> ident \<Rightarrow> ident \<Rightarrow> feedback_record option" where
  "get_driver_feedback st role i = mem_read rd_feedback st role i"

definition get_pending_feedback ::
  "memory_stores \<Rightarrow> ident \<Rightarrow> ident \<Rightarrow> pending_feedback_record option" where
  "get_pending_feedback st role i = mem_read rd_pending st role i"

definition matches_filter :: "'v option \<Rightarrow> 'v \<Rightarrow> bool" where
  \<comment> \<open>\<open>filter.x !== undefined && item.x !== filter.x\<close> rejects\<close>
  "matches_filter f v = (case f of None \<Rightarrow> True | Some w \<Rightarrow> v = w)"

definition matches_context_filter ::
  "ident option \<Rightarrow> ident option \<Rightarrow> delivery_status option \<Rightarrow> context_item \<Rightarrow> bool" where
  "matches_context_filter role task status item =
    (matches_filter role (ctx_role_id item) \<and> matches_filter task (ctx_task_id item)
      \<and> matches_filter status (dr_status item))"

definition matches_feedback_filter ::
  "ident option \<Rightarrow> ident option \<Rightarrow> ident option \<Rightarrow> delivery_status option \<Rightarrow> feedback_record \<Rightarrow> bool"
  where
  "matches_feedback_filter role task experience status r =
    (matches_filter role (fc_role_id (fb_content r)) \<and> matches_filter task (fc_task_id (fb_content r))
      \<and> matches_filter experience (fc_experience_id (fb_content r))
      \<and> matches_filter status (dr_status r))"

definition matches_pending_feedback_filter ::
  "ident option \<Rightarrow> ident option \<Rightarrow> delivery_status option \<Rightarrow> pending_feedback_record \<Rightarrow> bool" where
  "matches_pending_feedback_filter role experience status r =
    (matches_filter role (pf_role_id r) \<and> matches_filter experience (pf_experience_id r)
      \<and> matches_filter status (dr_status r))"

definition list_context_deliveries ::
  "(string \<Rightarrow> string \<Rightarrow> int) \<Rightarrow> ident option \<Rightarrow> ident option \<Rightarrow> delivery_status option
    \<Rightarrow> memory_stores \<Rightarrow> context_item list" where
  "list_context_deliveries collate role task status st =
     sort_le (\<lambda>a b. collate (ctx_delivery_key a) (ctx_delivery_key b) \<le> 0)
       (filter (matches_context_filter role task status)
         (concat (map (\<lambda>(_, rd). map snd (rd_contexts rd)) st)))"

definition list_driver_feedback ::
  "(string \<Rightarrow> string \<Rightarrow> int) \<Rightarrow> ident option \<Rightarrow> ident option \<Rightarrow> ident option
    \<Rightarrow> delivery_status option \<Rightarrow> memory_stores \<Rightarrow> feedback_record list" where
  "list_driver_feedback collate role task experience status st =
     sort_le (\<lambda>a b. collate (fc_feedback_key (fb_content a)) (fc_feedback_key (fb_content b)) \<le> 0)
       (filter (matches_feedback_filter role task experience status)
         (concat (map (\<lambda>(_, rd). map snd (rd_feedback rd)) st)))"

definition list_pending_feedback ::
  "(string \<Rightarrow> string \<Rightarrow> int) \<Rightarrow> ident option \<Rightarrow> ident option \<Rightarrow> delivery_status option
    \<Rightarrow> memory_stores \<Rightarrow> pending_feedback_record list" where
  "list_pending_feedback collate role experience status st =
     sort_le (\<lambda>a b. collate (pf_feedback_id a) (pf_feedback_id b) \<le> 0)
       (filter (matches_pending_feedback_filter role experience status)
         (concat (map (\<lambda>(_, rd). map snd (rd_pending rd)) st)))"

section \<open>Claims over the channels\<close>

record claim_request =
  cr_channel :: delivery_channel
  cr_owner :: ident
  cr_lease_ms :: "int option"
  cr_now :: "timestamp option"
  cr_role_id :: "ident option"

definition claim_input_of ::
  "delivery_repository_policy \<Rightarrow> ident \<Rightarrow> timestamp \<Rightarrow> claim_request \<Rightarrow> claim_input" where
  "claim_input_of p token clock req =
    \<lparr>ci_owner = cr_owner req,
     ci_now = or_default (cr_now req) clock,
     ci_lease_ms = or_default (cr_lease_ms req) (rp_lease_ms p),
     ci_claim_token = token,
     ci_policy = Some (policy_for p (cr_channel req))\<rparr>"

text \<open>\<open>item ? { channel, item } : undefined\<close>, in each of the three branches.\<close>

definition tag_result ::
  "('r \<Rightarrow> claimed_delivery) \<Rightarrow> (delivery_error + 'r option) \<times> memory_stores
    \<Rightarrow> (delivery_error + claimed_delivery option) \<times> memory_stores" where
  "tag_result tag out =
    (case out of (Inl e, st) \<Rightarrow> (Inl e, st) | (Inr x, st) \<Rightarrow> (Inr (map_option tag x), st))"

definition claim_delivery ::
  "delivery_repository_policy \<Rightarrow> ident \<Rightarrow> timestamp \<Rightarrow> claim_request \<Rightarrow> ident \<Rightarrow> ident
    \<Rightarrow> memory_stores \<Rightarrow> (delivery_error + claimed_delivery option) \<times> memory_stores" where
  "claim_delivery p token clock req role i st =
    (let c = claim_input_of p token clock req in
     case cr_channel req of
       PendingFeedbackChannel \<Rightarrow>
         tag_result ClaimedPending (claim_record pending_feedback_store role i c st)
     | FeedbackChannel \<Rightarrow> tag_result ClaimedFeedback (claim_record feedback_store role i c st)
     | ContextChannel \<Rightarrow> tag_result ClaimedContext (claim_record context_store role i c st))"

definition claim_next_delivery ::
  "(ident \<Rightarrow> ident \<Rightarrow> int) \<Rightarrow> (memory_stores \<Rightarrow> memory_stores) \<Rightarrow> delivery_repository_policy \<Rightarrow> ident
    \<Rightarrow> timestamp \<Rightarrow> claim_request \<Rightarrow> memory_stores
    \<Rightarrow> (delivery_error + claimed_delivery option) \<times> memory_stores" where
  \<comment> \<open>\<open>env\<close>: what other callers do between two critical sections\<close>
  "claim_next_delivery collate env p token clock req st =
    (let c = claim_input_of p token clock req in
     case cr_channel req of
       PendingFeedbackChannel \<Rightarrow>
         tag_result ClaimedPending
           (claim_next_record collate pending_feedback_store (\<lambda>_. env) c (cr_role_id req) st)
     | FeedbackChannel \<Rightarrow>
         tag_result ClaimedFeedback
           (claim_next_record collate feedback_store (\<lambda>_. env) c (cr_role_id req) st)
     | ContextChannel \<Rightarrow>
         tag_result ClaimedContext
           (claim_next_record collate context_store (\<lambda>_. env) c (cr_role_id req) st))"

definition renew_delivery_claim ::
  "delivery_repository_policy \<Rightarrow> timestamp \<Rightarrow> delivery_channel \<Rightarrow> ident \<Rightarrow> ident \<Rightarrow> ident
    \<Rightarrow> ident option \<Rightarrow> int option \<Rightarrow> timestamp option \<Rightarrow> memory_stores
    \<Rightarrow> (delivery_error + claimed_delivery option) \<times> memory_stores" where
  "renew_delivery_claim p clock channel role i token owner lease now st =
    (let l = or_default lease (rp_lease_ms p); t = or_default now clock in
     case channel of
       PendingFeedbackChannel \<Rightarrow>
         tag_result ClaimedPending (renew_record_claim pending_feedback_store role i token owner t l st)
     | FeedbackChannel \<Rightarrow>
         tag_result ClaimedFeedback (renew_record_claim feedback_store role i token owner t l st)
     | ContextChannel \<Rightarrow>
         tag_result ClaimedContext (renew_record_claim context_store role i token owner t l st))"

definition complete_delivery ::
  "timestamp \<Rightarrow> delivery_channel \<Rightarrow> ident \<Rightarrow> ident \<Rightarrow> ident \<Rightarrow> ident option \<Rightarrow> string option
    \<Rightarrow> timestamp option \<Rightarrow> memory_stores
    \<Rightarrow> (delivery_error + claimed_delivery option) \<times> memory_stores" where
  "complete_delivery clock channel role i token owner version now st =
    (let t = or_default now clock in
     case channel of
       PendingFeedbackChannel \<Rightarrow>
         tag_result ClaimedPending (complete_record pending_feedback_store role i token owner t version st)
     | FeedbackChannel \<Rightarrow>
         tag_result ClaimedFeedback (complete_record feedback_store role i token owner t version st)
     | ContextChannel \<Rightarrow>
         tag_result ClaimedContext (complete_record context_store role i token owner t version st))"

definition fail_delivery ::
  "delivery_repository_policy \<Rightarrow> timestamp \<Rightarrow> delivery_channel \<Rightarrow> ident \<Rightarrow> ident \<Rightarrow> ident
    \<Rightarrow> ident option \<Rightarrow> string \<Rightarrow> bool \<Rightarrow> timestamp option \<Rightarrow> memory_stores
    \<Rightarrow> (delivery_error + claimed_delivery option) \<times> memory_stores" where
  "fail_delivery p clock channel role i token owner err retryable now st =
    (let f = \<lparr>fi_owner = owner, fi_claim_token = token, fi_now = or_default now clock,
              fi_error = err, fi_retryable = retryable, fi_policy = Some (policy_for p channel)\<rparr> in
     case channel of
       PendingFeedbackChannel \<Rightarrow>
         tag_result ClaimedPending (fail_record pending_feedback_store role i f st)
     | FeedbackChannel \<Rightarrow> tag_result ClaimedFeedback (fail_record feedback_store role i f st)
     | ContextChannel \<Rightarrow> tag_result ClaimedContext (fail_record context_store role i f st))"

definition retry_dead_letter_delivery ::
  "timestamp \<Rightarrow> delivery_channel \<Rightarrow> ident \<Rightarrow> ident \<Rightarrow> timestamp option \<Rightarrow> memory_stores
    \<Rightarrow> (delivery_error + claimed_delivery option) \<times> memory_stores" where
  "retry_dead_letter_delivery clock channel role i now st =
    (let t = or_default now clock in
     case channel of
       PendingFeedbackChannel \<Rightarrow>
         tag_result ClaimedPending (retry_dead_letter_record pending_feedback_store role i t st)
     | FeedbackChannel \<Rightarrow>
         tag_result ClaimedFeedback (retry_dead_letter_record feedback_store role i t st)
     | ContextChannel \<Rightarrow>
         tag_result ClaimedContext (retry_dead_letter_record context_store role i t st))"

definition wants :: "delivery_channel option \<Rightarrow> delivery_channel \<Rightarrow> bool" where
  "wants scope channel = (scope = None \<or> scope = Some channel)"

definition restore_expired_delivery_claims ::
  "(ident \<Rightarrow> ident \<Rightarrow> int) \<Rightarrow> delivery_repository_policy \<Rightarrow> timestamp \<Rightarrow> delivery_channel option
    \<Rightarrow> ident option \<Rightarrow> timestamp option \<Rightarrow> memory_stores \<Rightarrow> claimed_delivery list \<times> memory_stores" where
  "restore_expired_delivery_claims collate p clock channel role now st =
    (let t = or_default now clock;
         (cs1, st1) = (if wants channel ContextChannel
           then restore_expired_records collate context_store (\<lambda>_ s. s) role t
                  (Some (policy_for p ContextChannel)) st
           else ([], st));
         (cs2, st2) = (if wants channel FeedbackChannel
           then restore_expired_records collate feedback_store (\<lambda>_ s. s) role t
                  (Some (policy_for p FeedbackChannel)) st1
           else ([], st1));
         (cs3, st3) = (if wants channel PendingFeedbackChannel
           then restore_expired_records collate pending_feedback_store (\<lambda>_ s. s) role t
                  (Some (policy_for p PendingFeedbackChannel)) st2
           else ([], st2))
     in (map (\<lambda>c. ClaimedContext (dc_record c)) cs1 @ map (\<lambda>c. ClaimedFeedback (dc_record c)) cs2
         @ map (\<lambda>c. ClaimedPending (dc_record c)) cs3, st3))"

definition list_retryable_deliveries ::
  "(ident \<Rightarrow> ident \<Rightarrow> int) \<Rightarrow> timestamp \<Rightarrow> delivery_channel option \<Rightarrow> ident option
    \<Rightarrow> timestamp option \<Rightarrow> memory_stores \<Rightarrow> claimed_delivery list" where
  "list_retryable_deliveries collate clock channel role now st =
    (let t = or_default now clock in
     (if wants channel ContextChannel then map (\<lambda>c. ClaimedContext (dc_record c))
        (list_retryable_records collate context_store role t st) else []) @
     (if wants channel FeedbackChannel then map (\<lambda>c. ClaimedFeedback (dc_record c))
        (list_retryable_records collate feedback_store role t st) else []) @
     (if wants channel PendingFeedbackChannel then map (\<lambda>c. ClaimedPending (dc_record c))
        (list_retryable_records collate pending_feedback_store role t st) else []))"

section \<open>Channels do not disturb each other\<close>

lemma mem_read_other_channel:
  assumes "\<And>m rd. sel' (upd m rd) = sel' rd" and "sel' empty_role = []"
  shows "mem_read sel' (mem_write sel upd id_of st role r) = mem_read sel' st"
  by (rule ext)+ (auto simp: mem_read_def mem_write_def Let_def assms get_or_create_store_def
      split: option.splits)

lemma channel_inv_other_channel:
  assumes same: "\<And>m rd. sel' (upd m rd) = sel' rd" and empty: "sel' empty_role = []"
    and inv: "channel_inv sel' id' st"
  shows "channel_inv sel' id' (mem_write sel upd id_of st role r)"
proof -
  define good where "good rd \<longleftrightarrow> distinct (map fst (sel' rd)) \<and> (\<forall>(k, r) \<in> set (sel' rd). id' r = k)"
    for rd
  have iff: "channel_inv sel' id' x \<longleftrightarrow> distinct (map fst x) \<and> (\<forall>(role, rd) \<in> set x. good rd)" for x
    by (simp add: channel_inv_def good_def)
  from inv have st: "distinct (map fst st)" "(role', rd) \<in> set st \<Longrightarrow> good rd" for role' rd
    by (auto simp: iff)
  have "good empty_role"
    by (simp add: good_def empty)
  then have "good (get_or_create_store st role)"
    using st(2)
    by (cases "map_of st role") (auto simp: get_or_create_store_def dest: map_of_SomeD)
  then have new: "good (upd m (get_or_create_store st role))" for m
    by (simp add: good_def same)
  have "good rd" if "(role', rd) \<in> set (mem_write sel upd id_of st role r)" for role' rd
    using update_pairsD[OF that[unfolded mem_write_def Let_def]] new st(2) by blast
  then show ?thesis
    using st(1) by (auto simp: iff mem_write_def Let_def distinct_update)
qed

lemma set_channel_simps [simp]:
  "rd_contexts (set_contexts m rd) = m" "rd_feedback (set_contexts m rd) = rd_feedback rd"
  "rd_pending (set_contexts m rd) = rd_pending rd"
  "rd_feedback (set_feedback n rd) = n" "rd_contexts (set_feedback n rd) = rd_contexts rd"
  "rd_pending (set_feedback n rd) = rd_pending rd"
  "rd_pending (set_pending q rd) = q" "rd_contexts (set_pending q rd) = rd_contexts rd"
  "rd_feedback (set_pending q rd) = rd_feedback rd"
  "rd_contexts empty_role = []" "rd_feedback empty_role = []" "rd_pending empty_role = []"
  by (simp_all add: set_contexts_def set_feedback_def set_pending_def empty_role_def)

text \<open>
  A repository is in order when its keys are, and every stored record is well formed. One lemma
  per channel lifts a rule to the repository.
\<close>

definition memory_ok :: "memory_stores \<Rightarrow> bool" where
  "memory_ok st \<longleftrightarrow> memory_inv st \<and> all_wf (mem_read rd_contexts st) \<and>
     all_wf (mem_read rd_feedback st) \<and> all_wf (mem_read rd_pending st)"

lemma memory_ok_write_context:
  "memory_ok st \<Longrightarrow> delivery_wf r \<Longrightarrow>
   memory_ok (mem_write rd_contexts set_contexts ctx_delivery_id st role r)"
  by (auto simp: memory_ok_def memory_inv_def contexts.mem_write_inv channel_inv_other_channel
      mem_read_other_channel contexts.mem_read_write all_wf_def split: if_splits)

lemma memory_ok_write_feedback:
  "memory_ok st \<Longrightarrow> delivery_wf r \<Longrightarrow>
   memory_ok (mem_write rd_feedback set_feedback feedback_id_of st role r)"
  by (auto simp: memory_ok_def memory_inv_def feedback.mem_write_inv channel_inv_other_channel
      mem_read_other_channel feedback.mem_read_write all_wf_def split: if_splits)

lemma memory_ok_write_pending:
  "memory_ok st \<Longrightarrow> delivery_wf r \<Longrightarrow>
   memory_ok (mem_write rd_pending set_pending pf_feedback_id st role r)"
  by (auto simp: memory_ok_def memory_inv_def pending.mem_write_inv channel_inv_other_channel
      mem_read_other_channel pending.mem_read_write all_wf_def split: if_splits)

lemmas memory_ok_write = memory_ok_write_context memory_ok_write_feedback memory_ok_write_pending

section \<open>Every operation keeps the repository in order\<close>

text \<open>The rules keep well-formedness, so every critical section keeps \<open>memory_ok\<close>.\<close>

lemma rule_wf:
  assumes "delivery_wf r"
  shows "claim_delivery_record r i = Inr (Some r') \<Longrightarrow> delivery_wf r'"
    and "renew_delivery_claim_record r t ow n l = Some r' \<Longrightarrow> delivery_wf r'"
    and "complete_delivery_record r t ow n v = Some r' \<Longrightarrow> delivery_wf r'"
    and "fail_delivery_record r fi = Some r' \<Longrightarrow> delivery_wf r'"
    and "reset_delivery_for_retry r n = Some r' \<Longrightarrow> delivery_wf r'"
    and "is_delivery_claim_expired r n \<Longrightarrow> delivery_wf (expire_delivery_claim_record r n p)"
proof -
  note w = delivery_write_wf[OF assms]
  show "claim_delivery_record r i = Inr (Some r') \<Longrightarrow> delivery_wf r'"
    by (rule w[of "EvClaim i"]) simp
  show "renew_delivery_claim_record r t ow n l = Some r' \<Longrightarrow> delivery_wf r'"
    by (rule w[of "EvRenew t ow n l"]) simp
  show "complete_delivery_record r t ow n v = Some r' \<Longrightarrow> delivery_wf r'"
    by (rule w[of "EvComplete t ow n v"]) simp
  show "fail_delivery_record r fi = Some r' \<Longrightarrow> delivery_wf r'"
    by (rule w[of "EvFail fi"]) simp
  show "reset_delivery_for_retry r n = Some r' \<Longrightarrow> delivery_wf r'"
    by (rule w[of "EvReset n"]) simp
  show "is_delivery_claim_expired r n \<Longrightarrow> delivery_wf (expire_delivery_claim_record r n p)"
    by (rule w[of "EvExpire n p"]) simp
qed

lemma mutate_ok_context:
  "memory_ok st \<Longrightarrow> keeps_wf f \<Longrightarrow> memory_ok (snd (mutate_record context_store role i f st))"
  unfolding context_store_def
  by (rule contexts.mutate_keeps) (auto simp: memory_ok_write, simp add: memory_ok_def)

lemma mutate_ok_feedback:
  "memory_ok st \<Longrightarrow> keeps_wf f \<Longrightarrow> memory_ok (snd (mutate_record feedback_store role i f st))"
  unfolding feedback_store_def
  by (rule feedback.mutate_keeps) (auto simp: memory_ok_write, simp add: memory_ok_def)

lemma mutate_ok_pending:
  "memory_ok st \<Longrightarrow> keeps_wf f \<Longrightarrow> memory_ok (snd (mutate_record pending_feedback_store role i f st))"
  unfolding pending_feedback_store_def
  by (rule pending.mutate_keeps) (auto simp: memory_ok_write, simp add: memory_ok_def)

lemmas mutate_ok = mutate_ok_context mutate_ok_feedback mutate_ok_pending

lemma keeps_wf_rules [simp]:
  "keeps_wf (\<lambda>r. claim_delivery_record r inp)"
  "keeps_wf (\<lambda>r. Inr (renew_delivery_claim_record r t ow n l))"
  "keeps_wf (\<lambda>r. Inr (complete_delivery_record r t ow n v))"
  "keeps_wf (\<lambda>r. Inr (fail_delivery_record r fi))"
  "keeps_wf (\<lambda>r. Inr (reset_delivery_for_retry r n))"
  "keeps_wf (\<lambda>r. Inr (if is_delivery_claim_expired r n
     then Some (expire_delivery_claim_record r n p) else None))"
  by (auto simp: keeps_wf_def intro: rule_wf split: if_splits)

text \<open>The two loops keep whatever their sections keep.\<close>

lemma claim_candidates_keeps:
  assumes "\<And>role i st. P st \<Longrightarrow> P (snd (claim_record S role i inp st))"
    and "\<And>c st. P st \<Longrightarrow> P (env c st)"
  shows "P st \<Longrightarrow> P (snd (claim_candidates S env inp cs st))"
proof (induction cs arbitrary: st)
  case Nil
  then show ?case by simp
next
  case (Cons c cs)
  have "P (snd (claim_record S (dc_role_id c) (dc_id c) inp (env c st)))"
    using assms Cons.prems by blast
  with Cons.IH show ?case
    by (auto split: prod.split sum.split option.split)
qed

lemma restore_candidates_keeps:
  assumes "\<And>role i st. P st \<Longrightarrow> P (snd (restore_one S now pol role i st))"
    and "\<And>c st. P st \<Longrightarrow> P (env c st)"
  shows "P st \<Longrightarrow> P (snd (restore_candidates S env now pol cs st))"
proof (induction cs arbitrary: st)
  case Nil
  then show ?case by simp
next
  case (Cons c cs)
  have "P (snd (restore_one S now pol (dc_role_id c) (dc_id c) (env c st)))"
    using assms Cons.prems by blast
  then have "P (snd (restore_candidates S env now pol cs
      (snd (restore_one S now pol (dc_role_id c) (dc_id c) (env c st)))))"
    by (rule Cons.IH)
  then show ?case
    by (auto split: prod.split sum.split option.split)
qed

lemma tag_result_snd [simp]: "snd (tag_result tag out) = snd out"
  by (auto simp: tag_result_def split: prod.split sum.split)

lemma channel_inv_subset:
  assumes "channel_inv sel id_of st" and "set st' \<subseteq> set st" and "distinct (map fst st')"
  shows "channel_inv sel id_of st'"
  using assms unfolding channel_inv_def by blast

lemma channel_inv_keys: "channel_inv sel id_of st \<Longrightarrow> distinct (map fst st)"
  by (simp add: channel_inv_def)

lemma channel_inv_ensure:
  assumes "sel empty_role = []" and "channel_inv sel id_of st"
  shows "channel_inv sel id_of (ensure_agent role st)"
proof (cases "map_of st role")
  case None
  then have "ensure_agent role st = st @ [(role, empty_role)]"
    by (simp add: ensure_agent_def get_or_create_store_def update_snoc)
  moreover have "role \<notin> fst ` set st"
    using None by (simp add: map_of_eq_None_iff)
  ultimately show ?thesis
    using assms by (auto simp: channel_inv_def)
next
  case (Some rd)
  then have "(role, rd) \<in> set st" by (rule map_of_SomeD)
  then have sub: "set (AList.update role rd st) \<subseteq> set st"
    by (auto dest: update_pairsD)
  have "ensure_agent role st = AList.update role rd st"
    by (simp add: ensure_agent_def get_or_create_store_def Some)
  with sub assms(2) show ?thesis
    using channel_inv_subset[OF assms(2) sub] distinct_update channel_inv_keys[OF assms(2)]
    by metis
qed

lemma read_ensure:
  assumes "sel empty_role = []"
  shows "mem_read sel (ensure_agent role st) = mem_read sel st"
  using assms
  by (intro ext) (auto simp: mem_read_def ensure_agent_def get_or_create_store_def or_default_def
      split: option.split)

lemma channel_inv_delete:
  assumes "channel_inv sel id_of st"
  shows "channel_inv sel id_of (delete_agent role st)"
proof -
  have "set (AList.delete role st) \<subseteq> set st"
    by (auto simp: AList.delete_eq)
  then show ?thesis
    unfolding delete_agent_def
    using channel_inv_subset[OF assms] distinct_delete channel_inv_keys[OF assms] by metis
qed

lemma read_delete:
  "mem_read sel (delete_agent role st) r i = (if r = role then None else mem_read sel st r i)"
  by (simp add: delete_agent_def mem_read_def delete_conv')

lemma memory_ok_ensure: "memory_ok st \<Longrightarrow> memory_ok (ensure_agent role st)"
  by (simp add: memory_ok_def memory_inv_def channel_inv_ensure read_ensure)

lemma memory_ok_delete: "memory_ok st \<Longrightarrow> memory_ok (delete_agent role st)"
  by (auto simp: memory_ok_def memory_inv_def channel_inv_delete all_wf_def
      read_delete split: if_splits)

lemma submit_snd:
  "snd (submit_delivery S role i r st) =
    (case ds_read S (ensure_agent role st) role i of
       Some _ \<Rightarrow> ensure_agent role st | None \<Rightarrow> ds_write S (ensure_agent role st) role r)"
  by (simp add: submit_delivery_def Let_def split: option.split)

lemmas store_defs = context_store_def feedback_store_def pending_feedback_store_def

lemma memory_ok_submit:
  "memory_ok st \<Longrightarrow> delivery_wf c \<Longrightarrow> memory_ok (snd (submit_context_delivery c st))"
  "memory_ok st \<Longrightarrow> delivery_wf f \<Longrightarrow> memory_ok (snd (submit_driver_feedback f st))"
  "memory_ok st \<Longrightarrow> delivery_wf q \<Longrightarrow> memory_ok (snd (submit_pending_feedback q st))"
  by (simp_all add: submit_context_delivery_def submit_driver_feedback_def
      submit_pending_feedback_def submit_snd store_defs memory_ok_ensure memory_ok_write
      split: option.split)

lemma memory_ok_claim: "memory_ok st \<Longrightarrow> memory_ok (snd (claim_delivery p tok clk req role i st))"
  by (simp add: claim_delivery_def Let_def claim_record_def mutate_ok split: delivery_channel.split)

lemma memory_ok_claim_next:
  assumes "memory_ok st" and "\<And>st. memory_ok st \<Longrightarrow> memory_ok (env st)"
  shows "memory_ok (snd (claim_next_delivery collate env p tok clk req st))"
proof -
  have "memory_ok (snd (claim_candidates context_store (\<lambda>_. env) inp cs st))"
    and "memory_ok (snd (claim_candidates feedback_store (\<lambda>_. env) inp ds st))"
    and "memory_ok (snd (claim_candidates pending_feedback_store (\<lambda>_. env) inp es st))"
    for inp cs ds es
    by (rule claim_candidates_keeps[where P = memory_ok, OF _ _ assms(1)];
        simp only: claim_record_def mutate_ok keeps_wf_rules assms(2))+
  then show ?thesis
    by (simp add: claim_next_delivery_def claim_next_record_def Let_def split: delivery_channel.split)
qed

lemma memory_ok_renew:
  "memory_ok st \<Longrightarrow> memory_ok (snd (renew_delivery_claim p clk ch role i tok ow l n st))"
  by (simp add: renew_delivery_claim_def Let_def renew_record_claim_def mutate_ok
      split: delivery_channel.split)

lemma memory_ok_complete:
  "memory_ok st \<Longrightarrow> memory_ok (snd (complete_delivery clk ch role i tok ow v n st))"
  by (simp add: complete_delivery_def Let_def complete_record_def mutate_ok
      split: delivery_channel.split)

lemma memory_ok_fail:
  "memory_ok st \<Longrightarrow> memory_ok (snd (fail_delivery p clk ch role i tok ow e rt n st))"
  by (simp add: fail_delivery_def Let_def fail_record_def mutate_ok split: delivery_channel.split)

lemma memory_ok_retry:
  "memory_ok st \<Longrightarrow> memory_ok (snd (retry_dead_letter_delivery clk ch role i n st))"
  by (simp add: retry_dead_letter_delivery_def Let_def retry_dead_letter_record_def mutate_ok
      split: delivery_channel.split)

lemma memory_ok_restore_channel:
  assumes "memory_ok st"
  shows "memory_ok (snd (restore_expired_records collate context_store (\<lambda>_ s. s) role n pol st))"
    and "memory_ok (snd (restore_expired_records collate feedback_store (\<lambda>_ s. s) role n pol st))"
    and "memory_ok (snd (restore_expired_records collate pending_feedback_store (\<lambda>_ s. s) role n pol st))"
  unfolding restore_expired_records_def Let_def
  by (rule restore_candidates_keeps[where P = memory_ok, OF _ _ assms];
      simp only: restore_one_def mutate_ok keeps_wf_rules)+

lemma restore_snd:
  "snd (restore_expired_delivery_claims collate p clk ch role n st) =
    (let t = or_default n clk;
         st1 = (if wants ch ContextChannel then snd (restore_expired_records collate context_store
                  (\<lambda>_ s. s) role t (Some (policy_for p ContextChannel)) st) else st);
         st2 = (if wants ch FeedbackChannel then snd (restore_expired_records collate feedback_store
                  (\<lambda>_ s. s) role t (Some (policy_for p FeedbackChannel)) st1) else st1)
     in (if wants ch PendingFeedbackChannel then snd (restore_expired_records collate
           pending_feedback_store (\<lambda>_ s. s) role t (Some (policy_for p PendingFeedbackChannel)) st2)
         else st2))"
  by (simp add: restore_expired_delivery_claims_def Let_def split: prod.split)

lemma memory_ok_restore:
  "memory_ok st \<Longrightarrow> memory_ok (snd (restore_expired_delivery_claims collate p clk ch role n st))"
  by (simp add: restore_snd Let_def memory_ok_restore_channel)

section \<open>Runs of the repository\<close>

datatype memory_op =
    OpEnsureAgent ident
  | OpDeleteAgent ident
  | OpSubmitContext context_item
  | OpSubmitFeedback feedback_record
  | OpSubmitPending pending_feedback_record
  | OpClaim ident timestamp claim_request ident ident
  | OpClaimNext ident timestamp claim_request
  | OpRenew timestamp delivery_channel ident ident ident "ident option" "int option" "timestamp option"
  | OpComplete timestamp delivery_channel ident ident ident "ident option" "string option"
      "timestamp option"
  | OpFail timestamp delivery_channel ident ident ident "ident option" string bool "timestamp option"
  | OpRetryDeadLetter timestamp delivery_channel ident ident "timestamp option"
  | OpRestoreExpired timestamp "delivery_channel option" "ident option" "timestamp option"

fun submits_wf :: "memory_op \<Rightarrow> bool" where
  "submits_wf (OpSubmitContext c) = delivery_wf c"
| "submits_wf (OpSubmitFeedback f) = delivery_wf f"
| "submits_wf (OpSubmitPending q) = delivery_wf q"
| "submits_wf _ = True"

fun memory_step ::
  "(ident \<Rightarrow> ident \<Rightarrow> int) \<Rightarrow> delivery_repository_policy \<Rightarrow> memory_op \<Rightarrow> memory_stores \<Rightarrow> memory_stores"
  where
  "memory_step collate p (OpEnsureAgent role) st = ensure_agent role st"
| "memory_step collate p (OpDeleteAgent role) st = delete_agent role st"
| "memory_step collate p (OpSubmitContext c) st = snd (submit_context_delivery c st)"
| "memory_step collate p (OpSubmitFeedback f) st = snd (submit_driver_feedback f st)"
| "memory_step collate p (OpSubmitPending q) st = snd (submit_pending_feedback q st)"
| "memory_step collate p (OpClaim tok clk req role i) st = snd (claim_delivery p tok clk req role i st)"
| "memory_step collate p (OpClaimNext tok clk req) st =
     snd (claim_next_delivery collate (\<lambda>s. s) p tok clk req st)"
| "memory_step collate p (OpRenew clk ch role i tok ow l n) st =
     snd (renew_delivery_claim p clk ch role i tok ow l n st)"
| "memory_step collate p (OpComplete clk ch role i tok ow v n) st =
     snd (complete_delivery clk ch role i tok ow v n st)"
| "memory_step collate p (OpFail clk ch role i tok ow e rt n) st =
     snd (fail_delivery p clk ch role i tok ow e rt n st)"
| "memory_step collate p (OpRetryDeadLetter clk ch role i n) st =
     snd (retry_dead_letter_delivery clk ch role i n st)"
| "memory_step collate p (OpRestoreExpired clk ch role n) st =
     snd (restore_expired_delivery_claims collate p clk ch role n st)"

definition memory_run ::
  "(ident \<Rightarrow> ident \<Rightarrow> int) \<Rightarrow> delivery_repository_policy \<Rightarrow> memory_op list \<Rightarrow> memory_stores \<Rightarrow> memory_stores"
  where
  "memory_run collate p ops st = fold (memory_step collate p) ops st"

lemma memory_step_ok:
  "memory_ok st \<Longrightarrow> submits_wf x \<Longrightarrow> memory_ok (memory_step collate p x st)"
  by (cases x) (simp_all add: memory_ok_ensure memory_ok_delete memory_ok_submit memory_ok_claim
      memory_ok_claim_next memory_ok_renew memory_ok_complete memory_ok_fail memory_ok_retry
      memory_ok_restore)

lemma memory_ok_Nil: "memory_ok []"
  by (simp add: memory_ok_def memory_inv_def channel_inv_def all_wf_def mem_read_def)

text \<open>The lifecycle fields of a delivery, whatever its channel.\<close>

definition lifecycle_of ::
  "memory_stores \<Rightarrow> delivery_channel \<Rightarrow> ident \<Rightarrow> ident \<Rightarrow> delivery_record option" where
  "lifecycle_of st ch role i =
    (case ch of
       ContextChannel \<Rightarrow> map_option delivery_record.truncate (mem_read rd_contexts st role i)
     | FeedbackChannel \<Rightarrow> map_option delivery_record.truncate (mem_read rd_feedback st role i)
     | PendingFeedbackChannel \<Rightarrow> map_option delivery_record.truncate (mem_read rd_pending st role i))"

lemma truncate_simps [simp]:
  "dr_status (delivery_record.truncate r) = dr_status r"
  "dr_attempt_count (delivery_record.truncate r) = dr_attempt_count r"
  "dr_next_retry_at (delivery_record.truncate r) = dr_next_retry_at r"
  "dr_updated_at (delivery_record.truncate r) = dr_updated_at r"
  "dr_claim_token (delivery_record.truncate r) = dr_claim_token r"
  "dr_lease_expires_at (delivery_record.truncate r) = dr_lease_expires_at r"
  "is_delivery_claim_expired (delivery_record.truncate r) now = is_delivery_claim_expired r now"
  "is_delivery_due (delivery_record.truncate r) now = is_delivery_due r now"
  by (simp_all add: delivery_record.truncate_def is_delivery_claim_expired_def is_delivery_due_def)

section \<open>Claiming the next delivery\<close>

text \<open>A due delivery with attempts left, and the position of a delivery in the candidate order.\<close>

definition claimable :: "delivery_retry_policy \<Rightarrow> timestamp \<Rightarrow> 'a delivery_record_scheme \<Rightarrow> bool" where
  "claimable pol now r \<longleftrightarrow> is_delivery_due r now \<and> dr_attempt_count r < max_attempts pol"

definition precedes ::
  "(ident \<Rightarrow> ident \<Rightarrow> int) \<Rightarrow> ident \<times> 'a delivery_record_scheme \<Rightarrow> ident \<times> 'a delivery_record_scheme
    \<Rightarrow> bool" where
  "precedes collate x y \<longleftrightarrow>
     (case (x, y) of ((i, r), (j, r')) \<Rightarrow>
        compare_delivery_candidates collate \<lparr>dc_role_id = [], dc_id = i, dc_record = r\<rparr>
          \<lparr>dc_role_id = [], dc_id = j, dc_record = r'\<rparr> \<le> 0)"

definition in_scope :: "ident option \<Rightarrow> ident \<Rightarrow> bool" where
  "in_scope scope role \<longleftrightarrow> scope = None \<or> scope = Some role"

lemma find_sorted_least:
  assumes "sorted_wrt le xs" and "find P xs = Some x" and "\<And>a. le a a" and "y \<in> set xs" and "P y"
  shows "le x y"
  using assms(1,2,4,5)
  by (induction xs) (auto split: if_splits intro: assms(3) dest: bspec)

lemma claimable_iff:
  "ci_claim_token inp \<noteq> [] \<Longrightarrow>
   claim_delivery_record r inp \<noteq> Inr None \<longleftrightarrow>
   claimable (or_default (ci_policy inp) default_delivery_retry_policy) (ci_now inp) r"
  by (auto simp: claim_delivery_record_def claimable_def Let_def)

lemma compare_ignores_role:
  "compare_delivery_candidates collate a b \<le> 0 \<longleftrightarrow>
   precedes collate (dc_id a, dc_record a) (dc_id b, dc_record b)"
  by (simp add: precedes_def compare_delivery_candidates_def Let_def)

lemma precedes_truncate [simp]:
  "precedes collate (i, delivery_record.truncate r) (j, delivery_record.truncate r')
    = precedes collate (i, r) (j, r')"
  by (simp add: precedes_def compare_delivery_candidates_def Let_def)

lemma claimable_truncate [simp]: "claimable pol now (delivery_record.truncate r) = claimable pol now r"
  by (simp add: claimable_def)

context memory_channel
begin

lemma claim_candidates_find:
  assumes "ci_claim_token inp \<noteq> []"
    and "\<forall>c \<in> set cs. mem_read sel st (dc_role_id c) (dc_id c) = Some (dc_record c)"
  shows "claim_candidates (mem_store sel upd id_of) (\<lambda>_ s. s) inp cs st =
    (case find (\<lambda>c. claim_delivery_record (dc_record c) inp \<noteq> Inr None) cs of
       None \<Rightarrow> (Inr None, st)
     | Some c \<Rightarrow> claim_record (mem_store sel upd id_of) (dc_role_id c) (dc_id c) inp st)"
  using assms(2)
proof (induction cs)
  case Nil
  then show ?case by simp
next
  case (Cons c cs)
  have "\<exists>x. claim_delivery_record (dc_record c) inp = Inr x"
    using assms(1) by (simp add: claim_delivery_record_def Let_def)
  with Cons show ?case
    by (auto simp: claim_record_def mutate_record_def split: option.splits sum.splits)
qed

lemma claim_next_result:
  assumes inv: "channel_inv sel id_of st" and tok: "ci_claim_token inp \<noteq> []"
    and cmp: "is_comparator collate"
    and run: "claim_next_record collate (mem_store sel upd id_of) (\<lambda>_ s. s) inp scope st = (res, st')"
  defines "ok \<equiv> claimable (or_default (ci_policy inp) default_delivery_retry_policy) (ci_now inp)"
  shows "(res = Inr None \<and> st' = st \<and>
      (\<forall>role i r. mem_read sel st role i = Some r \<longrightarrow> in_scope scope role \<longrightarrow> \<not> ok r)) \<or>
    (\<exists>role i r r'. res = Inr (Some r') \<and> mem_read sel st role i = Some r \<and> in_scope scope role \<and> ok r \<and>
      claim_delivery_record r inp = Inr (Some r') \<and>
      st' = mem_write sel upd id_of st role r' \<and> id_of r' = i \<and>
      (\<forall>role2 i2 r2. mem_read sel st role2 i2 = Some r2 \<longrightarrow> in_scope scope role2 \<longrightarrow> ok r2 \<longrightarrow>
         precedes collate (i, r) (i2, r2)))"
proof -
  let ?P = "\<lambda>c. claim_delivery_record (dc_record c) inp \<noteq> Inr None"
  define cs where "cs = sort_candidates collate
    (filter (\<lambda>c. is_delivery_due (dc_record c) (ci_now inp)) (mem_entries sel id_of st scope))"
  have mem: "c \<in> set cs \<longleftrightarrow> is_delivery_due (dc_record c) (ci_now inp) \<and> in_scope scope (dc_role_id c)
      \<and> mem_read sel st (dc_role_id c) (dc_id c) = Some (dc_record c)" for c
    using mem_in_list[OF inv, of c scope] by (auto simp: cs_def sort_candidates_def in_scope_def)
  have P: "?P c \<longleftrightarrow> ok (dc_record c)" for c
    using claimable_iff[OF tok] by (simp add: ok_def)
  have "claim_candidates (mem_store sel upd id_of) (\<lambda>_ s. s) inp cs st = (res, st')"
    using run by (simp add: claim_next_record_def cs_def)
  then have run': "(case find ?P cs of None \<Rightarrow> (Inr None, st)
      | Some c \<Rightarrow> claim_record (mem_store sel upd id_of) (dc_role_id c) (dc_id c) inp st) = (res, st')"
    using claim_candidates_find[OF tok, of cs st] mem by simp
  have sorted: "sorted_wrt (\<lambda>a b. compare_delivery_candidates collate a b \<le> 0) cs"
    unfolding cs_def sort_candidates_def
    by (rule sort_by_comparator_sorted) (rule is_comparator_candidates[OF cmp])
  have memI: "\<lparr>dc_role_id = role, dc_id = i, dc_record = r\<rparr> \<in> set cs"
    if "mem_read sel st role i = Some r" "in_scope scope role" "ok r" for role i r
    using that by (simp add: mem ok_def claimable_def)
  show ?thesis
  proof (cases "find ?P cs")
    case None
    then have "\<forall>c \<in> set cs. \<not> ok (dc_record c)" using P by (auto simp: find_None_iff)
    with None run' memI show ?thesis by fastforce
  next
    case (Some c)
    then have c: "c \<in> set cs" "ok (dc_record c)" using P by (auto simp: find_Some_iff)
    then obtain r' where r': "claim_delivery_record (dc_record c) inp = Inr (Some r')"
      using tok by (auto simp: claim_delivery_record_def ok_def claimable_def Let_def)
    have rd: "mem_read sel st (dc_role_id c) (dc_id c) = Some (dc_record c)"
      "in_scope scope (dc_role_id c)" using c(1) mem by auto
    have out: "res = Inr (Some r')" "st' = mem_write sel upd id_of st (dc_role_id c) r'"
      using run' Some r' rd by (auto simp: claim_record_def mutate_record_def)
    have "id_of r' = dc_id c"
      using id_more[OF claim_frame[OF r']] read_id[OF inv] rd(1) by simp
    moreover have "precedes collate (dc_id c, dc_record c) (i2, r2)"
      if "mem_read sel st role2 i2 = Some r2" "in_scope scope role2" "ok r2" for role2 i2 r2
      using find_sorted_least[OF sorted Some _ memI[OF that]] P that(3)
        is_comparatorD(1)[OF is_comparator_candidates[OF cmp]]
      by (fastforce simp: compare_ignores_role)
    ultimately show ?thesis using out rd c(2) r' by blast
  qed
qed

end

section \<open>Properties\<close>

text \<open>What a claim does to the lifecycle of every delivery of every channel.\<close>

definition claimed_by :: "ident \<Rightarrow> timestamp \<Rightarrow> int \<Rightarrow> delivery_record \<Rightarrow> delivery_record \<Rightarrow> bool" where
  "claimed_by token now lease r r' \<longleftrightarrow>
     dr_status r' = DProcessing \<and> dr_claim_token r' = Some token \<and>
     dr_lease_expires_at r' = Some (now + lease) \<and> dr_attempt_count r' = dr_attempt_count r + 1"

lemma claimed_by_claim:
  "claim_delivery_record r inp = Inr (Some r') \<Longrightarrow>
   claimed_by (ci_claim_token inp) (ci_now inp) (ci_lease_ms inp)
     (delivery_record.truncate r) (delivery_record.truncate r')"
  by (auto simp: claim_delivery_record_Some claimed_by_def delivery_record.truncate_def)


definition claim_next_spec ::
  "(ident \<Rightarrow> ident \<Rightarrow> int) \<Rightarrow> delivery_retry_policy \<Rightarrow> claim_input \<Rightarrow> delivery_channel \<Rightarrow> ident option
    \<Rightarrow> bool \<Rightarrow> memory_stores \<Rightarrow> memory_stores \<Rightarrow> bool" where
  "claim_next_spec collate pol inp ch scope found st st' \<longleftrightarrow>
    (let ok = (\<lambda>role i r. lifecycle_of st ch role i = Some r \<and> in_scope scope role \<and>
           claimable pol (ci_now inp) r) in
     if found then
       \<exists>role i r r'. ok role i r \<and>
         (\<forall>role2 i2 r2. ok role2 i2 r2 \<longrightarrow> precedes collate (i, r) (i2, r2)) \<and>
         claimed_by (ci_claim_token inp) (ci_now inp) (ci_lease_ms inp) r r' \<and>
         (\<forall>ch2 role2 i2. lifecycle_of st' ch2 role2 i2 =
            (if (ch2, role2, i2) = (ch, role, i) then Some r' else lifecycle_of st ch2 role2 i2))
     else st' = st \<and> (\<forall>role i r. \<not> ok role i r))"

context memory_channel
begin

lemma claim_next_meets_spec:
  assumes life: "\<And>st role i. lifecycle_of st ch role i
      = map_option delivery_record.truncate (mem_read sel st role i)"
    and writes: "\<And>st role r ch2 role2 i2. lifecycle_of (mem_write sel upd id_of st role r) ch2 role2 i2
      = (if (ch2, role2, i2) = (ch, role, id_of r) then Some (delivery_record.truncate r)
         else lifecycle_of st ch2 role2 i2)"
    and inv: "channel_inv sel id_of st" and tok: "ci_claim_token inp \<noteq> []"
    and cmp: "is_comparator collate" and pol: "ci_policy inp = Some pol"
    and run: "claim_next_record collate (mem_store sel upd id_of) (\<lambda>_ s. s) inp scope st = (res, st')"
  shows "\<exists>x. res = Inr x \<and> claim_next_spec collate pol inp ch scope (x \<noteq> None) st st'"
  using claim_next_result[OF inv tok cmp run, unfolded pol or_default_simps]
proof (elim disjE exE conjE)
  assume "res = Inr None" "st' = st" "\<forall>role i r. mem_read sel st role i = Some r \<longrightarrow>
    in_scope scope role \<longrightarrow> \<not> claimable pol (ci_now inp) r"
  then show ?thesis by (auto simp: claim_next_spec_def life)
next
  fix role i r r'
  assume a: "res = Inr (Some r')" "mem_read sel st role i = Some r" "in_scope scope role"
    "claimable pol (ci_now inp) r" "claim_delivery_record r inp = Inr (Some r')"
    "st' = mem_write sel upd id_of st role r'" "id_of r' = i"
    "\<forall>role2 i2 r2. mem_read sel st role2 i2 = Some r2 \<longrightarrow> in_scope scope role2 \<longrightarrow>
       claimable pol (ci_now inp) r2 \<longrightarrow> precedes collate (i, r) (i2, r2)"
  let ?r = "delivery_record.truncate r" and ?r' = "delivery_record.truncate r'"
  have "lifecycle_of st ch role i = Some ?r" "claimable pol (ci_now inp) ?r"
    using a(2,4) by (simp_all add: life)
  moreover have "precedes collate (i, ?r) (i2, r2)"
    if "lifecycle_of st ch role2 i2 = Some r2" "in_scope scope role2" "claimable pol (ci_now inp) r2"
    for role2 i2 r2
    using that a(8) by (auto simp: life)
  moreover have "lifecycle_of st' ch2 role2 i2
      = (if (ch2, role2, i2) = (ch, role, i) then Some ?r' else lifecycle_of st ch2 role2 i2)"
    for ch2 role2 i2
    by (simp only: a(6,7) writes)
  ultimately have "claim_next_spec collate pol inp ch scope True st st'"
    unfolding claim_next_spec_def Let_def if_True
    using a(3) claimed_by_claim[OF a(5)] by blast
  with a(1) show ?thesis by simp
qed

end

lemma lifecycle_at:
  "lifecycle_of st ContextChannel role i
    = map_option delivery_record.truncate (mem_read rd_contexts st role i)"
  "lifecycle_of st FeedbackChannel role i
    = map_option delivery_record.truncate (mem_read rd_feedback st role i)"
  "lifecycle_of st PendingFeedbackChannel role i
    = map_option delivery_record.truncate (mem_read rd_pending st role i)"
  by (simp_all add: lifecycle_of_def)


lemma mem_read_Nil [simp]: "mem_read sel [] role i = None"
  by (simp add: mem_read_def)

definition sample_context :: "ident \<Rightarrow> ident \<Rightarrow> context_item" where
  "sample_context role i = delivery_record.extend sample_delivery
    (context_item.fields i ''key'' role ''task'' 1 ''buffer'' ''report'' None ''driver'' ''1'')"

lemma sample_context_simps [simp]:
  "ctx_role_id (sample_context role i) = role" "ctx_delivery_id (sample_context role i) = i"
  "delivery_wf (sample_context role i)"
  by (simp_all add: sample_context_def sample_delivery_def delivery_wf_def delivery_record.defs
      context_item.defs)

definition sample_memory :: memory_stores where
  "sample_memory = snd (submit_context_delivery (sample_context ''role'' ''d1'') [])"

lemma sample_memory_ok: "memory_ok sample_memory"
  unfolding sample_memory_def by (rule memory_ok_submit(1)[OF memory_ok_Nil]) simp

definition sample_policy :: delivery_repository_policy where
  "sample_policy = create_policy
    \<lparr>ro_retry = \<lparr>p_max_attempts = None, p_base_delay_ms = None, p_max_delay_ms = None\<rparr>,
     ro_feedback = \<lparr>p_max_attempts = None, p_base_delay_ms = None, p_max_delay_ms = None\<rparr>,
     ro_pending_feedback = \<lparr>p_max_attempts = None, p_base_delay_ms = None, p_max_delay_ms = None\<rparr>,
     ro_lease_ms = None\<rparr>"

definition sample_request :: claim_request where
  "sample_request =
    \<lparr>cr_channel = ContextChannel, cr_owner = ''worker'', cr_lease_ms = None, cr_now = Some 0,
     cr_role_id = None\<rparr>"

text \<open>
  C24. The repository stays in order. Whatever sequence of operations runs on it, claims by several
  workers, completions and failures with any token, deletions and recoveries included, the keys of
  every channel stay unique, every record stays under its own identifier, and every stored
  delivery is well formed, provided the submitted ones are.
\<close>

theorem memory_run_keeps_order:
  assumes "memory_ok st" and "\<forall>x \<in> set ops. submits_wf x"
  shows "memory_ok (memory_run collate p ops st)"
  using assms unfolding memory_run_def
  by (induction ops arbitrary: st) (simp_all add: memory_step_ok)

theorem memory_run_keeps_order_witness:
  "memory_ok (memory_run code_unit_compare sample_policy
     [OpSubmitContext (sample_context ''r'' ''d''), OpClaimNext ''tok'' 0 sample_request,
      OpComplete 1 ContextChannel ''r'' ''d'' ''tok'' None None None] [])"
  by (rule memory_run_keeps_order) (simp_all add: memory_ok_Nil)



text \<open>
  Submission is idempotent. Submitting a delivery under an identifier that the role already
  has returns the stored record with \<open>created = false\<close> and changes no delivery, however far the
  stored one has got: a producer that repeats a submission never resets a delivery.
\<close>

theorem submit_is_idempotent:
  assumes "get_context_delivery st (ctx_role_id c) (ctx_delivery_id c) = Some old"
  shows "fst (submit_context_delivery c st) = (old, False) \<and>
    (\<forall>ch role i. lifecycle_of (snd (submit_context_delivery c st)) ch role i = lifecycle_of st ch role i)"
proof -
  have rd: "mem_read rd_contexts (ensure_agent (ctx_role_id c) st) (ctx_role_id c)
      (ctx_delivery_id c) = Some old"
    using assms by (simp add: read_ensure get_context_delivery_def)
  have "lifecycle_of (ensure_agent r st) ch role i = lifecycle_of st ch role i" for r ch role i
    by (cases ch) (simp_all add: lifecycle_at read_ensure)
  with rd show ?thesis
    by (simp add: submit_context_delivery_def submit_delivery_def Let_def store_defs)
qed

theorem submit_is_idempotent_witness:
  "fst (submit_context_delivery (sample_context ''role'' ''d1'') sample_memory)
      = (sample_context ''role'' ''d1'', False) \<and>
   (\<forall>ch role i. lifecycle_of (snd (submit_context_delivery (sample_context ''role'' ''d1'')
      sample_memory)) ch role i = lifecycle_of sample_memory ch role i)"
  by (rule submit_is_idempotent)
    (simp add: get_context_delivery_def sample_memory_def submit_context_delivery_def
      submit_delivery_def Let_def store_defs read_ensure contexts.mem_read_write mem_read_Nil)

text \<open>The recovery of a channel reads and writes that channel only.\<close>

lemma mutate_other_channel:
  "mem_read rd_feedback (snd (mutate_record context_store role i f st)) = mem_read rd_feedback st"
  "mem_read rd_pending (snd (mutate_record context_store role i f st)) = mem_read rd_pending st"
  "mem_read rd_contexts (snd (mutate_record feedback_store role i g st)) = mem_read rd_contexts st"
  "mem_read rd_pending (snd (mutate_record feedback_store role i g st)) = mem_read rd_pending st"
  "mem_read rd_contexts (snd (mutate_record pending_feedback_store role i h st)) = mem_read rd_contexts st"
  "mem_read rd_feedback (snd (mutate_record pending_feedback_store role i h st)) = mem_read rd_feedback st"
  by (simp_all add: mutate_record_def store_defs mem_read_other_channel
      split: option.split sum.split)

lemma restore_other_channel:
  "mem_read rd_contexts (snd (restore_expired_records collate feedback_store (\<lambda>_ s. s) role n pol st))
    = mem_read rd_contexts st"
  "mem_read rd_contexts (snd (restore_expired_records collate pending_feedback_store (\<lambda>_ s. s) role n pol st))
    = mem_read rd_contexts st"
  "mem_read rd_feedback (snd (restore_expired_records collate pending_feedback_store (\<lambda>_ s. s) role n pol st))
    = mem_read rd_feedback st"
  unfolding restore_expired_records_def Let_def
  by (rule restore_candidates_keeps[where P = "\<lambda>s. mem_read rd_contexts s = mem_read rd_contexts st"];
      simp add: restore_one_def mutate_other_channel)
    (rule restore_candidates_keeps[where P = "\<lambda>s. mem_read rd_contexts s = mem_read rd_contexts st"]
      restore_candidates_keeps[where P = "\<lambda>s. mem_read rd_feedback s = mem_read rd_feedback st"];
      simp add: restore_one_def mutate_other_channel)+

lemma restore_channel_complete:
  assumes "memory_ok st" and "role = None \<or> role = Some ro"
  shows "mem_read rd_contexts (snd (restore_expired_records collate context_store (\<lambda>_ s. s) role n pol st))
      ro i = Some c \<Longrightarrow> \<not> is_delivery_claim_expired c n"
    and "mem_read rd_feedback (snd (restore_expired_records collate feedback_store (\<lambda>_ s. s) role n pol st))
      ro i = Some f \<Longrightarrow> \<not> is_delivery_claim_expired f n"
    and "mem_read rd_pending (snd (restore_expired_records collate pending_feedback_store (\<lambda>_ s. s) role n pol st))
      ro i = Some q \<Longrightarrow> \<not> is_delivery_claim_expired q n"
proof -
  from assms(1) have inv: "channel_inv rd_contexts ctx_delivery_id st"
    "channel_inv rd_feedback feedback_id_of st" "channel_inv rd_pending pf_feedback_id st"
    by (simp_all add: memory_ok_def memory_inv_def)
  note complete = contexts.restore_expired_complete[OF inv(1) prod.collapse[symmetric] assms(2)]
    feedback.restore_expired_complete[OF inv(2) prod.collapse[symmetric] assms(2)]
    pending.restore_expired_complete[OF inv(3) prod.collapse[symmetric] assms(2)]
  show "mem_read rd_contexts (snd (restore_expired_records collate context_store (\<lambda>_ s. s) role n pol st))
      ro i = Some c \<Longrightarrow> \<not> is_delivery_claim_expired c n"
    unfolding store_defs by (rule complete(1)) (simp only: contexts.store_simps)
  show "mem_read rd_feedback (snd (restore_expired_records collate feedback_store (\<lambda>_ s. s) role n pol st))
      ro i = Some f \<Longrightarrow> \<not> is_delivery_claim_expired f n"
    unfolding store_defs by (rule complete(2)) (simp only: feedback.store_simps)
  show "mem_read rd_pending (snd (restore_expired_records collate pending_feedback_store (\<lambda>_ s. s) role n pol st))
      ro i = Some q \<Longrightarrow> \<not> is_delivery_claim_expired q n"
    unfolding store_defs by (rule complete(3)) (simp only: pending.store_simps)
qed

text \<open>
  C36. Recovery is complete. After the expired claims of a scope have been restored at some time, no
  delivery of that scope, in any of the channels asked for, is still processing under a lease that
  has run out by then: a crashed worker blocks nothing.
\<close>

theorem restore_leaves_no_expired_claim:
  assumes "memory_ok st" and "wants channel ch" and "in_scope scope role"
    and "lifecycle_of (snd (restore_expired_delivery_claims collate p clock channel scope now st))
           ch role i = Some r"
  shows "\<not> is_delivery_claim_expired r (or_default now clock)"
proof -
  from assms(3) have scope: "scope = None \<or> scope = Some role" by (simp add: in_scope_def)
  note complete = restore_channel_complete[OF _ scope]
  show ?thesis
    using assms(1,2,4)
    by (cases ch) (auto simp: restore_snd Let_def lifecycle_at restore_other_channel
        dest: complete[rotated] intro!: memory_ok_restore_channel split: if_splits)
qed

definition sample_claimed_memory :: memory_stores where
  "sample_claimed_memory =
    snd (claim_next_delivery code_unit_compare (\<lambda>s. s) sample_policy ''tok'' 0 sample_request
      sample_memory)"

lemma sample_claimed_memory_ok: "memory_ok sample_claimed_memory"
  unfolding sample_claimed_memory_def by (rule memory_ok_claim_next) (simp_all add: sample_memory_ok)

theorem restore_leaves_no_expired_claim_witness:
  "\<exists>r. lifecycle_of (snd (restore_expired_delivery_claims code_unit_compare sample_policy 60000 None
       None None sample_claimed_memory)) ContextChannel ''role'' ''d1'' = Some r \<and>
     \<not> is_delivery_claim_expired r 60000"
proof -
  have "lifecycle_of (snd (restore_expired_delivery_claims code_unit_compare sample_policy 60000 None
      None None sample_claimed_memory)) ContextChannel ''role'' ''d1'' \<noteq> None"
    by code_simp
  then obtain r where r: "lifecycle_of (snd (restore_expired_delivery_claims code_unit_compare
      sample_policy 60000 None None None sample_claimed_memory)) ContextChannel ''role'' ''d1'' = Some r"
    by blast
  have "\<not> is_delivery_claim_expired r (or_default None 60000)"
    by (rule restore_leaves_no_expired_claim[OF sample_claimed_memory_ok _ _ r])
      (simp_all add: wants_def in_scope_def)
  with r show ?thesis by simp
qed

end

