(* ===== verification/JsText.thy ===== *)
theory JsText
  imports Prelude Complex_Main
begin

text \<open>
  The parts of the JavaScript standard library on strings, numbers and JSON values that several
  components use. Strings are lists of code units below 256; case mapping is that of ASCII and
  Latin-1. A number is a rational or \<open>NaN\<close> (rounding and the infinities of IEEE doubles are not
  modelled). \<open>JSON.parse\<close> itself is an argument of the definitions that call it; its results are
  the values below, an object being the list of its own properties.
\<close>

section \<open>Strings\<close>

definition js_lower_char :: "char \<Rightarrow> char" where
  "js_lower_char c =
    (let n = (of_char c :: nat) in
     if 65 \<le> n \<and> n \<le> 90 \<or> 192 \<le> n \<and> n \<le> 222 \<and> n \<noteq> 215 then char_of (n + 32) else c)"

definition js_to_lower :: "string \<Rightarrow> string" where
  "js_to_lower s = map js_lower_char s"

definition starts_with :: "string \<Rightarrow> string \<Rightarrow> bool" where
  "starts_with s p = (take (length p) s = p)"

fun js_index_of :: "string \<Rightarrow> string \<Rightarrow> nat option" where
  \<comment> \<open>\<open>indexOf\<close>: \<open>None\<close> is \<open>-1\<close>\<close>
  "js_index_of p [] = (if p = [] then Some 0 else None)"
| "js_index_of p (c # cs) =
     (if starts_with (c # cs) p then Some 0 else map_option Suc (js_index_of p cs))"

fun js_last_index_of :: "string \<Rightarrow> string \<Rightarrow> nat option" where
  "js_last_index_of p [] = (if p = [] then Some 0 else None)"
| "js_last_index_of p (c # cs) =
     (case js_last_index_of p cs of
        Some i \<Rightarrow> Some (Suc i)
      | None \<Rightarrow> if starts_with (c # cs) p then Some 0 else None)"

definition js_includes :: "string \<Rightarrow> string \<Rightarrow> bool" where
  "js_includes s p = (js_index_of p s \<noteq> None)"

definition non_empty :: "string option \<Rightarrow> string option" where
  \<comment> \<open>\<open>if (!value)\<close> on an optional string: absent and empty are both falsy\<close>
  "non_empty s = (case s of None \<Rightarrow> None | Some v \<Rightarrow> if v = [] then None else Some v)"

lemma non_empty_simps [simp]:
  "non_empty None = None" "non_empty (Some []) = None" "non_empty (Some (c # cs)) = Some (c # cs)"
  by (simp_all add: non_empty_def)

lemma js_last_index_of_bound: "js_last_index_of p s = Some i \<Longrightarrow> i \<le> length s"
  by (induction s arbitrary: i) (auto split: if_splits option.splits)

lemma js_index_of_starts:
  "js_index_of p s = Some i \<Longrightarrow> starts_with (drop i s) p"
  by (induction s arbitrary: i) (auto simp: starts_with_def split: if_splits)

lemma js_last_index_of_starts:
  "js_last_index_of p s = Some i \<Longrightarrow> starts_with (drop i s) p"
  by (induction s arbitrary: i) (auto simp: starts_with_def split: if_splits option.splits)

section \<open>Numbers\<close>

type_synonym js_number = "rat option" \<comment> \<open>\<open>None\<close> is \<open>NaN\<close>\<close>

definition js_less :: "js_number \<Rightarrow> js_number \<Rightarrow> bool" where
  "js_less a b = (case (a, b) of (Some x, Some y) \<Rightarrow> x < y | _ \<Rightarrow> False)"

lemma js_less_simps [simp]:
  "js_less (Some x) (Some y) \<longleftrightarrow> x < y" "\<not> js_less None b" "\<not> js_less a None"
  by (simp_all add: js_less_def split: option.split)

definition max_safe_integer :: nat where
  \<comment> \<open>\<open>Number.MAX_SAFE_INTEGER\<close>\<close>
  "max_safe_integer = 2 ^ 53 - 1"

fun decimal :: "nat \<Rightarrow> string" where
  "decimal n = (if n < 10 then [char_of (n + 48)] else decimal (n div 10) @ [char_of (n mod 10 + 48)])"

declare decimal.simps [simp del]

section \<open>JSON values\<close>

datatype json =
    JNull
  | JBool bool
  | JNum rat
  | JStr string
  | JArr "json list"
  | JObj "(string \<times> json) list"

definition json_get :: "string \<Rightarrow> json \<Rightarrow> json option" where
  \<comment> \<open>\<open>value?.key\<close> for a key that is not inherited; \<open>None\<close> is \<open>undefined\<close>\<close>
  "json_get k v = (case v of JObj fields \<Rightarrow> map_of fields k | _ \<Rightarrow> None)"

definition json_string :: "json option \<Rightarrow> string option" where
  \<comment> \<open>the value when \<open>typeof value === 'string'\<close>\<close>
  "json_string v = (case v of Some (JStr s) \<Rightarrow> Some s | _ \<Rightarrow> None)"

end
