(* ===== verification/Gate.thy ===== *)
theory Gate
  imports JsText
begin

text \<open>
  The gates (\<open>src/gate/\<close>): requests, results and definitions (\<open>gate.ts\<close>), the base runner
  (\<open>runner.ts\<close>), the decision aggregator (\<open>aggregator.ts\<close>), and the command, prompt, HTTP and
  composite runners. What a runner observes of the outside (the exit of a command, the replies of
  a model, the responses of a server) is an argument; the message templates of the results are the
  constructors of \<open>gate_reason\<close>, with the interpolated values as arguments.
\<close>

section \<open>Decisions, requests and results\<close>

datatype gate_decision = GAllow | GDeny | GAsk | GDefer

definition decision_rank :: "gate_decision \<Rightarrow> nat" where
  "decision_rank d = (case d of GAllow \<Rightarrow> 0 | GDefer \<Rightarrow> 1 | GAsk \<Rightarrow> 2 | GDeny \<Rightarrow> 3)"

definition decision_name :: "gate_decision \<Rightarrow> string" where
  "decision_name d =
    (case d of GAllow \<Rightarrow> ''allow'' | GDeny \<Rightarrow> ''deny'' | GAsk \<Rightarrow> ''ask'' | GDefer \<Rightarrow> ''defer'')"

definition valid_decisions :: "(string \<times> gate_decision) list" where
  "valid_decisions = map (\<lambda>d. (decision_name d, d)) [GAllow, GDeny, GAsk, GDefer]"

record gate_request =
  gq_gate_id :: ident
  gq_gate_point :: string
  gq_request_id :: ident
  gq_priority :: int
  gq_timeout_ms :: "int option"
  gq_created_at :: timestamp
  gq_payload :: "json option"
  gq_schema_version :: string
  gq_subject_id :: "ident option"

datatype gate_output_format = FSarif | FJunit | FJson | FText | FCoverageJson

text \<open>One constructor per message template of the runners.\<close>

datatype gate_reason =
    RText string
  | RJson json
  | RIgnoredOptional gate_reason
  | RCommandMissing
  | RCommandOk
  | RCommandTimedOut int
  | RCommandFailed int string
  | RFormatTimedOut
  | RNoStdout int
  | RUnparsable gate_output_format
  | RNoFindings gate_output_format int
  | RFindings nat "(string \<times> nat \<times> gate_decision) list" gate_decision
  | RCoverageBelow "(string \<times> js_number \<times> js_number) list" gate_decision
  | RCoverageMet js_number js_number
  | RPromptMissing
  | RPromptUnparsed nat "string option"
  | RPromptTimedOut int
  | RPromptFailed string
  | RUrlMissing
  | RHttpDecision int gate_decision
  | RHttpOk int
  | RHttpFailed int
  | RHttpTimedOut nat int
  | RHttpError nat string
  | RNoSubGates
  | RSubGateFailed ident string
  | RComposite gate_reason
  | RExecutionFailed string

record gate_result =
  gr_gate_result_id :: ident
  gr_gate_id :: ident
  gr_gate_point :: string
  gr_request_id :: "ident option"
  gr_subject_id :: "ident option"
  gr_decision :: gate_decision
  gr_reason :: gate_reason
  gr_required_actions :: "string list"
  gr_audit_ref :: "string option"
  gr_target_state :: "string option"
  gr_created_at :: timestamp
  gr_schema_version :: string

record gate_threshold =
  th_line :: "rat option"
  th_branch :: "rat option"

record gate_output_config =
  oc_format :: "gate_output_format option"
  oc_severity_map :: "(string \<times> gate_decision) list option"
  oc_threshold :: "gate_threshold option"
  oc_on_fail :: "gate_decision option"
  oc_on_below_threshold :: "gate_decision option"

record finding =
  fd_severity :: string
  fd_message :: string
  fd_file :: "string option"
  fd_line :: "nat option"
  fd_column :: "nat option"

record coverage_data =
  cv_line :: js_number
  cv_branch :: js_number

record parsed_gate_output =
  po_findings :: "finding list option"
  po_coverage :: "coverage_data option"
  po_raw_summary :: "string option"

record sub_gate_ref =
  sg_gate_id :: ident
  sg_required :: "bool option"

datatype gate_type = CommandGateType | PromptGateType | CompositeGateType | HttpGateType

record gate_definition =
  gd_type :: gate_type
  gd_command :: "string option"
  gd_model :: "string option"
  gd_prompt :: "string option"
  gd_http :: "string option"
  gd_input :: "string option"
  gd_gates :: "sub_gate_ref list option"
  gd_output_config :: gate_output_config
  gd_timeout :: "int option"
  gd_retry_threshold :: nat

section \<open>The base runner\<close>

record result_overrides =
  ro_required_actions :: "string list option"
  ro_audit_ref :: "string option"
  ro_target_state :: "string option"

definition no_overrides :: result_overrides where
  "no_overrides = \<lparr>ro_required_actions = None, ro_audit_ref = None, ro_target_state = None\<rparr>"

definition with_actions :: "string list \<Rightarrow> string \<Rightarrow> result_overrides" where
  "with_actions actions audit =
    \<lparr>ro_required_actions = Some actions, ro_audit_ref = Some audit, ro_target_state = None\<rparr>"

definition build_result ::
  "ident \<Rightarrow> timestamp \<Rightarrow> gate_request \<Rightarrow> gate_decision \<Rightarrow> gate_reason \<Rightarrow> result_overrides \<Rightarrow> gate_result"
  where
  "build_result gate_id clock req decision reason ov =
    \<lparr>gr_gate_result_id = gate_id @ ''_'' @ gq_request_id req,
     gr_gate_id = gate_id,
     gr_gate_point = gq_gate_point req,
     gr_request_id = Some (gq_request_id req),
     gr_subject_id = None,
     gr_decision = decision,
     gr_reason = reason,
     gr_required_actions = or_default (ro_required_actions ov) [],
     gr_audit_ref = Some (or_default (ro_audit_ref ov) []),
     gr_target_state = Some (or_default (ro_target_state ov) []),
     gr_created_at = clock,
     gr_schema_version = gq_schema_version req\<rparr>"

definition default_severities :: "(string \<times> gate_decision) list" where
  "default_severities =
    [(''error'', GDeny), (''critical'', GDeny), (''high'', GDeny), (''warning'', GAsk),
     (''moderate'', GAsk), (''info'', GAllow), (''low'', GAllow)]"

definition map_severity :: "string \<Rightarrow> gate_output_config \<Rightarrow> gate_decision" where
  \<comment> \<open>severities that name a property of \<open>Object.prototype\<close> are left aside\<close>
  "map_severity severity config =
    (case Option.bind (oc_severity_map config) (\<lambda>m. map_of m severity) of
       Some d \<Rightarrow> d
     | None \<Rightarrow> or_default (map_of default_severities (js_to_lower severity)) GAllow)"

section \<open>The decision aggregator\<close>

datatype gate_error =
    NoGateResults
  | NoCompositeResults
  | NoRunnerFound ident
  | GateRunError string

definition stricter :: "gate_result \<Rightarrow> gate_result \<Rightarrow> gate_result" where
  "stricter strictest current =
    (if decision_rank (gr_decision current) > decision_rank (gr_decision strictest)
     then current else strictest)"

definition aggregate :: "gate_result list \<Rightarrow> gate_error + gate_result" where
  "aggregate results =
    (case results of [] \<Rightarrow> Inl NoGateResults | r # rs \<Rightarrow> Inr (foldl stricter r rs))"

definition sub_gate_map :: "sub_gate_ref list \<Rightarrow> ident \<rightharpoonup> sub_gate_ref" where
  \<comment> \<open>\<open>new Map(entries)\<close>: the last entry of a key wins\<close>
  "sub_gate_map sub_gates = map_of (rev (map (\<lambda>sg. (sg_gate_id sg, sg)) sub_gates))"

definition adjust_optional :: "sub_gate_ref list \<Rightarrow> gate_result \<Rightarrow> gate_result" where
  "adjust_optional sub_gates res =
    (case sub_gate_map sub_gates (gr_gate_id res) of
       None \<Rightarrow> res
     | Some config \<Rightarrow>
         if sg_required config = Some False \<and> gr_decision res = GDeny
         then res\<lparr>gr_decision := GAllow, gr_reason := RIgnoredOptional (gr_reason res)\<rparr>
         else res)"

definition aggregate_composite ::
  "gate_result list \<Rightarrow> sub_gate_ref list \<Rightarrow> gate_error + gate_result" where
  "aggregate_composite results sub_gates =
    (if results = [] then Inl NoCompositeResults
     else aggregate (map (adjust_optional sub_gates) results))"

text \<open>
  The decision of a fold is the maximum of the decisions, and the result kept is the first one of
  that rank.
\<close>

lemma decision_rank_inj: "decision_rank a = decision_rank b \<longleftrightarrow> a = b"
  by (cases a; cases b) (simp_all add: decision_rank_def)

lemma decision_rank_deny: "decision_rank d \<le> decision_rank GDeny"
  by (cases d) (simp_all add: decision_rank_def)

lemma decision_rank_deny_iff: "decision_rank GDeny \<le> decision_rank d \<longleftrightarrow> d = GDeny"
  by (cases d) (simp_all add: decision_rank_def)

abbreviation result_rank :: "gate_result \<Rightarrow> nat" where
  "result_rank r \<equiv> decision_rank (gr_decision r)"

lemma foldl_stricter_in: "foldl stricter r rs \<in> set (r # rs)"
  by (induction rs arbitrary: r) (auto simp: stricter_def)

lemma foldl_stricter_max: "x \<in> set (r # rs) \<Longrightarrow> result_rank x \<le> result_rank (foldl stricter r rs)"
proof (induction rs arbitrary: r x)
  case Nil
  then show ?case by simp
next
  case (Cons a rs)
  have "result_rank r \<le> result_rank (stricter r a)" "result_rank a \<le> result_rank (stricter r a)"
    by (simp_all add: stricter_def)
  with Cons.IH[of "stricter r a" "stricter r a"] Cons.IH[of x "stricter r a"] Cons.prems
  show ?case by auto
qed

lemma foldl_stricter_first:
  "\<exists>pre post. r # rs = pre @ foldl stricter r rs # post \<and>
     (\<forall>x \<in> set pre. result_rank x < result_rank (foldl stricter r rs))"
proof (induction rs arbitrary: r)
  case Nil
  show ?case by (intro exI[of _ "[]"]) simp
next
  case (Cons a rs)
  let ?m = "foldl stricter (stricter r a) rs"
  from Cons[of "stricter r a"] obtain pre post where
    split: "stricter r a # rs = pre @ ?m # post" and lt: "\<forall>x \<in> set pre. result_rank x < result_rank ?m"
    by blast
  have le: "result_rank (stricter r a) \<le> result_rank ?m"
    by (rule foldl_stricter_max) simp
  show ?case
  proof (cases "result_rank a > result_rank r")
    case True
    then have "stricter r a = a" by (simp add: stricter_def)
    with split have "r # a # rs = (r # pre) @ ?m # post" by simp
    moreover have "\<forall>x \<in> set (r # pre). result_rank x < result_rank ?m"
      using lt le True \<open>stricter r a = a\<close> by auto
    ultimately show ?thesis unfolding foldl_Cons by blast
  next
    case False
    then have keep: "stricter r a = r" by (simp add: stricter_def)
    show ?thesis
    proof (cases pre)
      case Nil
      with split keep have "foldl stricter r rs = r"
        by (metis append_Nil list.inject)
      with keep show ?thesis
        by - (rule exI[of _ "[]"], rule exI[of _ "a # rs"], simp)
    next
      case (Cons b pre')
      have b: "stricter r a = b \<and> rs = pre' @ ?m # post"
        using split unfolding Cons append_Cons list.inject .
      then have "r # a # rs = (r # a # pre') @ ?m # post" by (metis append_Cons)
      moreover have "\<forall>x \<in> set (r # a # pre'). result_rank x < result_rank ?m"
        using lt Cons b keep False by auto
      ultimately show ?thesis unfolding foldl_Cons by blast
    qed
  qed
qed

lemma aggregate_Inr:
  assumes "aggregate results = Inr r"
  shows "r \<in> set results" and "\<forall>x \<in> set results. result_rank x \<le> result_rank r"
  using assms foldl_stricter_in foldl_stricter_max
  by (auto simp: aggregate_def split: list.splits)

lemma aggregate_first:
  assumes "aggregate results = Inr r"
  shows "\<exists>pre post. results = pre @ r # post \<and> (\<forall>x \<in> set pre. result_rank x < result_rank r)"
  using assms foldl_stricter_first
  by (fastforce simp: aggregate_def split: list.splits)

lemma aggregate_deny_iff:
  assumes "aggregate results = Inr r"
  shows "gr_decision r = GDeny \<longleftrightarrow> (\<exists>x \<in> set results. gr_decision x = GDeny)"
proof
  assume "gr_decision r = GDeny"
  with aggregate_Inr(1)[OF assms] show "\<exists>x \<in> set results. gr_decision x = GDeny" by blast
next
  assume "\<exists>x \<in> set results. gr_decision x = GDeny"
  then obtain x where "x \<in> set results" "gr_decision x = GDeny" by blast
  with aggregate_Inr(2)[OF assms] show "gr_decision r = GDeny"
    by (auto simp: decision_rank_deny_iff dest!: bspec[where x = x])
qed

lemma aggregate_ok_iff: "is_ok (aggregate results) \<longleftrightarrow> results \<noteq> []"
  by (simp add: aggregate_def split: list.split)

section \<open>The command runner\<close>

text \<open>What \<open>execAsync\<close> settles with: the output, or an error with optional fields.\<close>

datatype exec_outcome =
    ExecOk string string
  | ExecError "int option" bool "string option" "string option"

definition audit_of :: "string \<Rightarrow> ident \<Rightarrow> gate_request \<Rightarrow> string" where
  "audit_of kind gate_id req = ''audit://'' @ kind @ ''/'' @ gate_id @ ''/'' @ gq_request_id req"

definition gate_timeout :: "gate_definition \<Rightarrow> gate_request \<Rightarrow> int" where
  "gate_timeout def req =
    (case gd_timeout def of Some t \<Rightarrow> t * 1000 | None \<Rightarrow> or_default (gq_timeout_ms req) 30000)"

definition pick_strictest :: "gate_decision list \<Rightarrow> gate_decision" where
  "pick_strictest decisions =
    foldl (\<lambda>worst d. if decision_rank d > decision_rank worst then d else worst) GAllow decisions"

fun count_severity ::
  "string \<Rightarrow> gate_decision \<Rightarrow> (string \<times> nat \<times> gate_decision) list
    \<Rightarrow> (string \<times> nat \<times> gate_decision) list" where
  "count_severity sev d counts =
    (case map_of counts sev of
       Some (n, d') \<Rightarrow> AList.update sev (n + 1, d') counts
     | None \<Rightarrow> AList.update sev (1, d) counts)"

definition build_findings_reason :: "finding list \<Rightarrow> gate_decision list \<Rightarrow> gate_decision \<Rightarrow> gate_reason"
  where
  "build_findings_reason findings decisions final =
    RFindings (length findings)
      (fold (\<lambda>(f, d). count_severity (js_to_lower (fd_severity f)) d) (zip findings decisions) [])
      final"

definition evaluate_coverage ::
  "ident \<Rightarrow> gate_definition \<Rightarrow> timestamp \<Rightarrow> gate_request \<Rightarrow> js_number \<Rightarrow> js_number \<Rightarrow> gate_result" where
  "evaluate_coverage gate_id def clock req line branch =
    (let config = gd_output_config def;
         threshold = or_default (oc_threshold config) \<lparr>th_line = None, th_branch = None\<rparr>;
         line_below = (case th_line threshold of None \<Rightarrow> False | Some t \<Rightarrow> js_less line (Some t));
         branch_below = (case th_branch threshold of None \<Rightarrow> False | Some t \<Rightarrow> js_less branch (Some t))
     in if line_below \<or> branch_below then
          (let decision = or_default (oc_on_below_threshold config) GDeny;
               parts = (case th_line threshold of None \<Rightarrow> [] | Some t \<Rightarrow> [(''line'', line, Some t)])
                 @ (case th_branch threshold of None \<Rightarrow> [] | Some t \<Rightarrow> [(''branch'', branch, Some t)])
           in build_result gate_id clock req decision (RCoverageBelow parts decision)
                (with_actions [''improve-coverage''] (audit_of ''command'' gate_id req)))
        else build_result gate_id clock req GAllow (RCoverageMet line branch)
               (with_actions [] (audit_of ''command'' gate_id req)))"

definition evaluate_with_format ::
  "(string \<Rightarrow> gate_output_format \<Rightarrow> parsed_gate_output option) \<Rightarrow> ident \<Rightarrow> gate_definition
    \<Rightarrow> timestamp \<Rightarrow> gate_request \<Rightarrow> string \<Rightarrow> int \<Rightarrow> bool \<Rightarrow> gate_output_format \<Rightarrow> gate_result" where
  \<comment> \<open>\<open>parse\<close> is \<open>parseGateOutput\<close>; \<open>None\<close> is a throw\<close>
  "evaluate_with_format parse gate_id def clock req out exit_code timed_out format =
    (let config = gd_output_config def;
         on_fail = or_default (oc_on_fail config) GDeny;
         inspect_logs = with_actions [''inspect-logs''] (audit_of ''command'' gate_id req)
     in if timed_out then build_result gate_id clock req on_fail RFormatTimedOut inspect_logs
        else if exit_code \<noteq> 0 \<and> js_trim out = [] then
          build_result gate_id clock req on_fail (RNoStdout exit_code) inspect_logs
        else case parse out format of
          None \<Rightarrow> build_result gate_id clock req on_fail (RUnparsable format) inspect_logs
        | Some parsed \<Rightarrow>
            (case po_coverage parsed of
               Some c \<Rightarrow> evaluate_coverage gate_id def clock req (cv_line c) (cv_branch c)
             | None \<Rightarrow>
                 (let findings = or_default (po_findings parsed) [] in
                  if findings = [] then
                    build_result gate_id clock req GAllow (RNoFindings format exit_code)
                      (with_actions [] (audit_of ''command'' gate_id req))
                  else
                    (let decisions = map (\<lambda>f. map_severity (fd_severity f) config) findings;
                         strictest = pick_strictest decisions
                     in build_result gate_id clock req strictest
                          (build_findings_reason findings decisions strictest)
                          (with_actions (if strictest = GAllow then [] else [''inspect-gate-findings''])
                             (audit_of ''command'' gate_id req))))))"

definition run_command ::
  "(string \<Rightarrow> gate_output_format \<Rightarrow> parsed_gate_output option) \<Rightarrow> (string \<Rightarrow> int \<Rightarrow> exec_outcome)
    \<Rightarrow> ident \<Rightarrow> gate_definition \<Rightarrow> timestamp \<Rightarrow> gate_request \<Rightarrow> gate_result" where
  "run_command parse exec gate_id def clock req =
    (case non_empty (gd_command def) of
       None \<Rightarrow> build_result gate_id clock req GDeny RCommandMissing no_overrides
     | Some cmd \<Rightarrow>
         (let timeout = gate_timeout def req;
              (out, err, exit_code, timed_out) =
                (case exec cmd timeout of
                   ExecOk out err \<Rightarrow> (out, err, 0, False)
                 | ExecError code killed out err \<Rightarrow>
                     (or_default out [], or_default err [], or_default code 1, killed))
          in case oc_format (gd_output_config def) of
               Some format \<Rightarrow>
                 evaluate_with_format parse gate_id def clock req out exit_code timed_out format
             | None \<Rightarrow>
                 if exit_code = 0 \<and> \<not> timed_out then
                   build_result gate_id clock req GAllow RCommandOk
                     (with_actions [] (audit_of ''command'' gate_id req))
                 else
                   build_result gate_id clock req (or_default (oc_on_fail (gd_output_config def)) GDeny)
                     (if timed_out then RCommandTimedOut timeout
                      else RCommandFailed exit_code (take 500 err))
                     (with_actions [''inspect-logs''] (audit_of ''command'' gate_id req))))"

lemma pick_strictest_max: "d \<in> set ds \<Longrightarrow> decision_rank d \<le> decision_rank (pick_strictest ds)"
  and pick_strictest_in: "pick_strictest ds \<in> insert GAllow (set ds)"
proof -
  let ?f = "\<lambda>worst d. if decision_rank d > decision_rank worst then d else worst"
  have "decision_rank d \<le> decision_rank (foldl ?f w ds)" if "d \<in> insert w (set ds)" for w d
    using that
  proof (induction ds arbitrary: w d)
    case Nil
    then show ?case by simp
  next
    case (Cons a ds)
    from Cons.IH[of "?f w a" "?f w a"] Cons.IH[of d "?f w a"] Cons.prems show ?case
      by (auto split: if_splits)
  qed
  then show "d \<in> set ds \<Longrightarrow> decision_rank d \<le> decision_rank (pick_strictest ds)"
    by (simp add: pick_strictest_def)
  have "foldl ?f w ds \<in> insert w (set ds)" for w
    by (induction ds arbitrary: w) auto
  then show "pick_strictest ds \<in> insert GAllow (set ds)"
    by (simp add: pick_strictest_def)
qed

lemma build_result_simps [simp]:
  "gr_decision (build_result g c q d r ov) = d"
  "gr_gate_id (build_result g c q d r ov) = g"
  "gr_reason (build_result g c q d r ov) = r"
  "gr_request_id (build_result g c q d r ov) = Some (gq_request_id q)"
  by (simp_all add: build_result_def)

section \<open>Properties of the aggregator and of the command gate\<close>

definition sample_gate_request :: gate_request where
  "sample_gate_request =
    \<lparr>gq_gate_id = ''g'', gq_gate_point = ''task.completed'', gq_request_id = ''r1'', gq_priority = 50,
     gq_timeout_ms = Some 1000, gq_created_at = 0, gq_payload = None, gq_schema_version = ''v0'',
     gq_subject_id = None\<rparr>"

definition sample_result :: "ident \<Rightarrow> gate_decision \<Rightarrow> gate_result" where
  "sample_result g d = build_result g 0 sample_gate_request d (RText ''sample'') no_overrides"

definition sample_output_config :: gate_output_config where
  "sample_output_config =
    \<lparr>oc_format = None, oc_severity_map = None, oc_threshold = None, oc_on_fail = None,
     oc_on_below_threshold = None\<rparr>"

definition sample_definition :: "gate_type \<Rightarrow> gate_definition" where
  "sample_definition t =
    \<lparr>gd_type = t, gd_command = Some ''make check'', gd_model = None, gd_prompt = Some ''review'',
     gd_http = Some ''http://gate'', gd_input = None, gd_gates = None,
     gd_output_config = sample_output_config, gd_timeout = None, gd_retry_threshold = 2\<rparr>"

lemma sample_result_simps [simp]:
  "gr_decision (sample_result g d) = d" "gr_gate_id (sample_result g d) = g"
  by (simp_all add: sample_result_def)

text \<open>
  The strictest decision wins. The aggregate of a list of results is one of them, no result of
  the list is stricter (allow < defer < ask < deny), and every earlier one is less strict: ties go
  to the first.
\<close>

theorem strictest_decision_wins:
  assumes "aggregate results = Inr r"
  shows "(\<exists>pre post. results = pre @ r # post \<and>
      (\<forall>x \<in> set pre. decision_rank (gr_decision x) < decision_rank (gr_decision r))) \<and>
    (\<forall>x \<in> set results. decision_rank (gr_decision x) \<le> decision_rank (gr_decision r))"
  using aggregate_first[OF assms] aggregate_Inr(2)[OF assms] by blast

theorem strictest_decision_wins_witness:
  "(\<exists>pre post. [sample_result ''a'' GAllow, sample_result ''b'' GAsk, sample_result ''c'' GAsk]
        = pre @ sample_result ''b'' GAsk # post \<and>
      (\<forall>x \<in> set pre. decision_rank (gr_decision x) < decision_rank (gr_decision (sample_result ''b'' GAsk)))) \<and>
    list_all (\<lambda>x. decision_rank (gr_decision x) \<le> decision_rank (gr_decision (sample_result ''b'' GAsk)))
      [sample_result ''a'' GAllow, sample_result ''b'' GAsk, sample_result ''c'' GAsk]"
  unfolding list_all_iff
  by (rule strictest_decision_wins) (simp add: aggregate_def stricter_def decision_rank_def)

definition exec_succeeded :: "exec_outcome \<Rightarrow> bool" where
  "exec_succeeded o' =
    (case o' of ExecOk _ _ \<Rightarrow> True | ExecError code killed _ _ \<Rightarrow> code = Some 0 \<and> \<not> killed)"

text \<open>
  A command gate without an output format allows exactly when the command ends with exit code
  0 and was not killed, unless its configuration turns failures into allowance.
\<close>

theorem command_gate_allows_iff:
  assumes "gd_command def = Some cmd" and "cmd \<noteq> []"
    and "oc_format (gd_output_config def) = None"
    and "oc_on_fail (gd_output_config def) \<noteq> Some GAllow"
  shows "gr_decision (run_command parse exec g def clock req) = GAllow \<longleftrightarrow>
    exec_succeeded (exec cmd (gate_timeout def req))"
proof -
  have "or_default (oc_on_fail (gd_output_config def)) GDeny \<noteq> GAllow"
    using assms(4) by (cases "oc_on_fail (gd_output_config def)") auto
  moreover have "non_empty (gd_command def) = Some cmd"
    using assms(1,2) by (simp add: non_empty_def)
  ultimately show ?thesis
    using assms(3)
    by (auto simp: run_command_def exec_succeeded_def Let_def or_default_def
        split: exec_outcome.split option.splits)
qed

theorem command_gate_allows_iff_witness:
  "gr_decision (run_command (\<lambda>_ _. None) (\<lambda>_ _. ExecError (Some 2) False None None) ''g''
      (sample_definition CommandGateType) 0 sample_gate_request) = GAllow \<longleftrightarrow>
    exec_succeeded (ExecError (Some 2) False None None)"
  by (rule command_gate_allows_iff[where cmd = "''make check''"])
    (simp_all add: sample_definition_def sample_output_config_def)

definition parse_text :: "string \<Rightarrow> parsed_gate_output" where
  "parse_text out =
    \<lparr>po_findings = Some [], po_coverage = None, po_raw_summary = Some (take 1000 out)\<rparr>"

text \<open>
  With an output format the exit code is lost. A command gate whose format is \<open>text\<close> allows
  whenever a failing command has printed anything: \<open>parseText\<close> never reports a finding, and an
  output without findings is allowed before the exit code and \<open>on_fail\<close> are looked at.
\<close>

theorem failing_text_gate_allows:
  assumes "gd_command def = Some cmd" and "cmd \<noteq> []"
    and "oc_format (gd_output_config def) = Some FText" and "parse out FText = Some (parse_text out)"
    and "exec cmd (gate_timeout def req) = ExecError code False (Some out) err"
    and "js_trim out \<noteq> []"
  shows "gr_decision (run_command parse exec g def clock req) = GAllow"
  using assms
  by (simp add: run_command_def evaluate_with_format_def parse_text_def non_empty_def Let_def)

theorem failing_text_gate_allows_witness:
  "gr_decision (run_command (\<lambda>out _. Some (parse_text out))
      (\<lambda>_ _. ExecError (Some 1) False (Some ''3 tests failed'') None) ''g''
      ((sample_definition CommandGateType)\<lparr>gd_output_config :=
         sample_output_config\<lparr>oc_format := Some FText, oc_on_fail := Some GDeny\<rparr>\<rparr>) 0 sample_gate_request)
    = GAllow"
  by (rule failing_text_gate_allows[where cmd = "''make check''" and out = "''3 tests failed''"
      and code = "Some 1" and err = None])
    (simp_all add: sample_definition_def js_trim_def is_js_space_def)

text \<open>
  A coverage report passes its gate exactly when no threshold that is set lies above the
  reported percentage (a percentage that is not a number passes every threshold).
\<close>

theorem coverage_gate_allows_iff:
  assumes "oc_on_below_threshold (gd_output_config def) \<noteq> Some GAllow"
    and "oc_threshold (gd_output_config def) = Some th"
  shows "gr_decision (evaluate_coverage g def clock req line branch) = GAllow \<longleftrightarrow>
    (\<forall>t x. th_line th = Some t \<longrightarrow> line = Some x \<longrightarrow> t \<le> x) \<and>
    (\<forall>t x. th_branch th = Some t \<longrightarrow> branch = Some x \<longrightarrow> t \<le> x)"
proof -
  have "or_default (oc_on_below_threshold (gd_output_config def)) GDeny \<noteq> GAllow"
    using assms(1) by (cases "oc_on_below_threshold (gd_output_config def)") auto
  then show ?thesis
    using assms(2)
    by (cases "th_line th"; cases "th_branch th"; cases line; cases branch)
      (auto simp: evaluate_coverage_def Let_def)
qed

theorem coverage_gate_allows_iff_witness:
  "gr_decision (evaluate_coverage ''g''
      ((sample_definition CommandGateType)\<lparr>gd_output_config :=
         sample_output_config\<lparr>oc_threshold := Some \<lparr>th_line = Some 80, th_branch = None\<rparr>\<rparr>\<rparr>)
      0 sample_gate_request (Some 79) None) = GAllow \<longleftrightarrow>
    (\<forall>t x. th_line \<lparr>th_line = Some 80, th_branch = None\<rparr> = Some t \<longrightarrow> Some 79 = Some x \<longrightarrow> t \<le> x) \<and>
    (\<forall>t x. th_branch \<lparr>th_line = Some 80, th_branch = None\<rparr> = Some t \<longrightarrow> None = Some x \<longrightarrow> t \<le> x)"
  by (rule coverage_gate_allows_iff) (simp_all add: sample_output_config_def)

end
