(* ===== verification/GateRunners.thy ===== *)
theory GateRunners
  imports Gate
begin

text \<open>
  The HTTP runner (\<open>src/gate/http-runner.ts\<close>), the prompt runner (\<open>prompt-runner.ts\<close>), the
  composite runner (\<open>composite-runner.ts\<close>), the mock gates (\<open>mock-gate.ts\<close>), and how the scheduler
  resolves a gate to its runner (\<open>scheduler.ts\<close>, \<open>index.ts\<close>). Replies of servers and models are
  functions of the attempt. Composite gates resolve their sub-gates recursively, with no check for
  cycles: the recursion has fuel and \<open>None\<close> means that it ran out.
\<close>

section \<open>The HTTP runner\<close>

record http_body =
  hb_decision :: "json option"
  hb_reason :: "json option"
  hb_required_actions :: "string list option"
  hb_audit_ref :: "string option"
  hb_target_state :: "json option"

datatype fetch_outcome =
    FetchError string string
  | FetchResponse int "http_body option"
  \<comment> \<open>a thrown error with its name and message; or the status, with the body when the content type
      is JSON and the body parses to an object\<close>

datatype http_event = HttpFetch nat | HttpDelay int

definition response_ok :: "int \<Rightarrow> bool" where
  "response_ok status \<longleftrightarrow> 200 \<le> status \<and> status < 300"

definition is_gate_decision :: "string \<Rightarrow> bool" where
  "is_gate_decision v = (map_of valid_decisions v \<noteq> None)"

definition parse_http_decision :: "http_body \<Rightarrow> int \<Rightarrow> gate_decision" where
  "parse_http_decision body status =
    (case Option.bind (json_string (hb_decision body)) (map_of valid_decisions) of
       Some d \<Rightarrow> d
     | None \<Rightarrow>
         if status \<ge> 200 \<and> status < 300 then GAllow
         else if status \<ge> 400 \<and> status < 500 then GDeny
         else GDefer)"

definition delay_ms :: "nat \<Rightarrow> int" where
  "delay_ms attempt = min (1000 * 2 ^ attempt) 30000"

definition is_retryable_error :: "string \<Rightarrow> string \<Rightarrow> bool" where
  "is_retryable_error name message =
    (if name = ''AbortError'' then True
     else let msg = js_to_lower message in
       js_includes msg ''fetch failed'' \<or> js_includes msg ''econnrefused'' \<or>
       js_includes msg ''etimedout'' \<or> js_includes msg ''enotfound'' \<or>
       js_includes msg ''econnreset'' \<or> js_includes msg ''network'' \<or> js_includes msg ''socket'')"

definition http_body_reason :: "http_body \<Rightarrow> int \<Rightarrow> gate_decision \<Rightarrow> gate_reason" where
  "http_body_reason body status decision =
    (case hb_reason body of
       None \<Rightarrow> RHttpDecision status decision
     | Some JNull \<Rightarrow> RHttpDecision status decision
     | Some (JStr s) \<Rightarrow> RText s
     | Some v \<Rightarrow> RJson v)"

text \<open>The loop over the attempts; the second component is what it did, in order.\<close>

function http_attempts ::
  "(nat \<Rightarrow> fetch_outcome) \<Rightarrow> ident \<Rightarrow> gate_definition \<Rightarrow> timestamp \<Rightarrow> gate_request \<Rightarrow> nat \<Rightarrow> nat
    \<Rightarrow> (string \<times> string) option \<Rightarrow> gate_result \<times> http_event list" where
  "http_attempts fetch gate_id def clock req max_retries attempt last_error =
    (let audit = audit_of ''http'' gate_id req;
         on_fail = or_default (oc_on_fail (gd_output_config def)) GDeny
     in if attempt > max_retries then
          (build_result gate_id clock req on_fail
             (case last_error of
                None \<Rightarrow> RHttpError (max_retries + 1) ''Unknown error''
              | Some (name, msg) \<Rightarrow>
                  if name = ''AbortError''
                  then RHttpTimedOut (max_retries + 1) (gate_timeout def req)
                  else RHttpError (max_retries + 1) msg)
             (with_actions [''inspect-http-logs''] audit), [])
        else case fetch attempt of
          FetchError name msg \<Rightarrow>
            (let wait = (if attempt < max_retries \<and> is_retryable_error name msg
                         then [HttpDelay (delay_ms attempt)] else []);
                 (r, events) = http_attempts fetch gate_id def clock req max_retries (attempt + 1)
                                 (Some (name, msg))
             in (r, HttpFetch attempt # wait @ events))
        | FetchResponse status (Some body) \<Rightarrow>
            (let decision = parse_http_decision body status in
             (build_result gate_id clock req decision (http_body_reason body status decision)
                \<lparr>ro_required_actions = Some (or_default (hb_required_actions body) []),
                 ro_audit_ref = Some (or_default (hb_audit_ref body) audit),
                 ro_target_state = json_string (hb_target_state body)\<rparr>, [HttpFetch attempt]))
        | FetchResponse status None \<Rightarrow>
            if response_ok status then
              (build_result gate_id clock req GAllow (RHttpOk status)
                 (no_overrides\<lparr>ro_audit_ref := Some audit\<rparr>), [HttpFetch attempt])
            else if status \<ge> 500 \<and> attempt < max_retries then
              (let (r, events) = http_attempts fetch gate_id def clock req max_retries (attempt + 1)
                                   last_error
               in (r, HttpFetch attempt # HttpDelay (delay_ms attempt) # events))
            else
              (build_result gate_id clock req on_fail (RHttpFailed status)
                 (with_actions [''inspect-http-response''] audit), [HttpFetch attempt]))"
  by pat_completeness auto
termination
  by (relation "measure (\<lambda>(_, _, _, _, _, max_retries, attempt, _). Suc max_retries - attempt)") auto

declare http_attempts.simps [simp del]

definition http_url :: "gate_definition \<Rightarrow> string option" where
  "http_url def =
    non_empty (case gd_http def of Some u \<Rightarrow> Some u | None \<Rightarrow> gd_input def)"

definition run_http ::
  "(string \<Rightarrow> int \<Rightarrow> nat \<Rightarrow> fetch_outcome) \<Rightarrow> ident \<Rightarrow> gate_definition \<Rightarrow> timestamp \<Rightarrow> gate_request
    \<Rightarrow> gate_result \<times> http_event list" where
  "run_http fetch gate_id def clock req =
    (case http_url def of
       None \<Rightarrow> (build_result gate_id clock req GDeny RUrlMissing no_overrides, [])
     | Some url \<Rightarrow>
         http_attempts (fetch url (gate_timeout def req)) gate_id def clock req
           (gd_retry_threshold def) 0 None)"

definition fetches :: "http_event list \<Rightarrow> nat list" where
  "fetches events = concat (map (\<lambda>e. case e of HttpFetch a \<Rightarrow> [a] | _ \<Rightarrow> []) events)"

definition delays :: "http_event list \<Rightarrow> int list" where
  "delays events = concat (map (\<lambda>e. case e of HttpDelay d \<Rightarrow> [d] | _ \<Rightarrow> []) events)"

lemma event_simps [simp]:
  "fetches [] = []" "delays [] = []"
  "fetches (HttpFetch a # es) = a # fetches es" "delays (HttpFetch a # es) = delays es"
  "fetches (HttpDelay d # es) = fetches es" "delays (HttpDelay d # es) = d # delays es"
  "fetches (es @ es') = fetches es @ fetches es'" "delays (es @ es') = delays es @ delays es'"
  by (simp_all add: fetches_def delays_def)

text \<open>The attempts are numbered consecutively from the first, and there are at most \<open>max + 1\<close>.\<close>

lemma http_attempts_fetches:
  "a \<le> Suc m \<Longrightarrow>
   \<exists>n. fetches (snd (http_attempts fetch g def clock req m a err)) = [a..<n] \<and> n \<le> Suc m"
proof (induction "Suc m - a" arbitrary: a err)
  case 0
  then show ?case
    by (subst http_attempts.simps) (auto simp: Let_def intro!: exI[of _ a])
next
  case (Suc k)
  then have IH: "\<exists>n. fetches (snd (http_attempts fetch g def clock req m (Suc a) err')) = [Suc a..<n] \<and> n \<le> Suc m"
    for err' by (intro Suc.hyps(1)) auto
  have one: "\<exists>n. [a] = [a..<n] \<and> n \<le> Suc m"
    using Suc.hyps(2) by (intro exI[of _ "Suc a"]) simp
  have more: "\<exists>n. a # xs = [a..<n] \<and> n \<le> Suc m"
    if "\<exists>n. xs = [Suc a..<n] \<and> n \<le> Suc m" for xs
  proof -
    from that obtain n where n: "xs = [Suc a..<n]" "n \<le> Suc m" by blast
    show ?thesis
    proof (cases "a < n")
      case True
      with n show ?thesis by (intro exI[of _ n]) (simp add: upt_conv_Cons)
    next
      case False
      with n one show ?thesis by simp
    qed
  qed
  have "a \<le> m" using Suc.hyps(2) by simp
  then show ?case
    using one more[OF IH]
    by (subst http_attempts.simps)
      (simp add: Let_def case_prod_beta split: fetch_outcome.split option.split)
qed

lemma http_attempts_all_errors:
  assumes "\<And>k. a \<le> k \<Longrightarrow> k \<le> m \<Longrightarrow> \<exists>name msg. fetch k = FetchError name msg \<and> \<not> is_retryable_error name msg"
    and "a \<le> Suc m"
  shows "fetches (snd (http_attempts fetch g def clock req m a err)) = [a..<Suc m]"
    and "delays (snd (http_attempts fetch g def clock req m a err)) = []"
proof -
  have "fetches (snd (http_attempts fetch g def clock req m a err)) = [a..<Suc m] \<and>
      delays (snd (http_attempts fetch g def clock req m a err)) = []"
    using assms
  proof (induction "Suc m - a" arbitrary: a err)
    case 0
    then show ?case by (subst (1 2) http_attempts.simps) (simp add: Let_def)
  next
    case (Suc k)
    then have a: "a \<le> m" by simp
    with Suc.prems(1)[of a] obtain name msg where
      f: "fetch a = FetchError name msg" "\<not> is_retryable_error name msg" by auto
    have "fetches (snd (http_attempts fetch g def clock req m (Suc a) (Some (name, msg)))) = [Suc a..<Suc m] \<and>
        delays (snd (http_attempts fetch g def clock req m (Suc a) (Some (name, msg)))) = []"
      by (rule Suc.hyps(1)) (use Suc a in auto)
    with a f show ?case
      by (subst (1 2) http_attempts.simps) (simp add: Let_def case_prod_beta upt_conv_Cons)
  qed
  then show "fetches (snd (http_attempts fetch g def clock req m a err)) = [a..<Suc m]"
    and "delays (snd (http_attempts fetch g def clock req m a err)) = []"
    by simp_all
qed

text \<open>Between two attempts the runner waits for the backoff of the earlier one, at most 30 s.\<close>

lemma http_attempts_delays:
  "set (delays (snd (http_attempts fetch g def clock req m a err))) \<subseteq> delay_ms ` {a..<m}"
proof (induction "Suc m - a" arbitrary: a err)
  case 0
  then show ?case by (subst http_attempts.simps) (simp add: Let_def)
next
  case (Suc k)
  then have IH: "set (delays (snd (http_attempts fetch g def clock req m (Suc a) err'))) \<subseteq> delay_ms ` {Suc a..<m}"
    for err' by (intro Suc.hyps(1)) auto
  have "delay_ms ` {Suc a..<m} \<subseteq> delay_ms ` {a..<m}" by (intro image_mono) auto
  then have "set (delays (snd (http_attempts fetch g def clock req m (Suc a) err'))) \<subseteq> delay_ms ` {a..<m}"
    for err' using IH by blast
  with Suc.hyps(2) show ?case
    by (subst http_attempts.simps)
      (simp add: Let_def case_prod_beta split: fetch_outcome.split option.split)
qed

section \<open>The prompt runner\<close>

datatype llm_outcome = LlmReply string | LlmError string | LlmTimeout

datatype parse_error =
    NotValidJson
  | JsonSyntaxError string
  | NotAJsonObject
  | MissingDecision
  | InvalidDecision string

record decision_output =
  do_decision :: gate_decision
  do_reason :: "string option" \<comment> \<open>\<open>None\<close>: \<open>No reason provided.\<close>\<close>
  do_required_actions :: "string list option"

definition strip_fences :: "string \<Rightarrow> string" where
  "strip_fences raw =
    (let cleaned = js_trim raw in
     if starts_with cleaned ''```'' then
       (let after = (case js_index_of [CHR 10] cleaned of None \<Rightarrow> cleaned | Some i \<Rightarrow> drop (i + 1) cleaned);
            body = (case js_last_index_of ''```'' after of None \<Rightarrow> after | Some i \<Rightarrow> take i after)
        in js_trim body)
     else cleaned)"

definition brace_match :: "string \<Rightarrow> string option" where
  \<comment> \<open>the greedy match of \<open>/\{[\s\S]*\}/\<close>: from the first opening to the last closing brace\<close>
  "brace_match s =
    (case js_index_of ''{'' s of
       None \<Rightarrow> None
     | Some i \<Rightarrow>
         (case js_last_index_of ''}'' (drop i s) of
            None \<Rightarrow> None
          | Some j \<Rightarrow> Some (take (j + 1) (drop i s))))"

definition parse_gate_decision ::
  "(string \<Rightarrow> string + json) \<Rightarrow> string \<Rightarrow> parse_error + decision_output" where
  "parse_gate_decision json_parse raw =
    (let cleaned = strip_fences raw in
     bindR
       (case json_parse cleaned of
          Inr v \<Rightarrow> Inr v
        | Inl _ \<Rightarrow>
            (case brace_match cleaned of
               None \<Rightarrow> Inl NotValidJson
             | Some m \<Rightarrow>
                 (case json_parse m of Inr v \<Rightarrow> Inr v | Inl msg \<Rightarrow> Inl (JsonSyntaxError msg))))
       (\<lambda>parsed. case parsed of
          JObj obj \<Rightarrow>
            (case json_string (map_of obj ''decision'') of
               None \<Rightarrow> Inl MissingDecision
             | Some raw_decision \<Rightarrow>
                 (case map_of valid_decisions (js_to_lower raw_decision) of
                    None \<Rightarrow> Inl (InvalidDecision raw_decision)
                  | Some decision \<Rightarrow> Inr
                      \<lparr>do_decision = decision,
                       do_reason = json_string (map_of obj ''reason''),
                       do_required_actions =
                         (case map_of obj ''required_actions'' of
                            Some (JArr xs) \<Rightarrow> Some (List.map_filter (\<lambda>x. json_string (Some x)) xs)
                          | _ \<Rightarrow> None)\<rparr>))
        | JArr _ \<Rightarrow> Inl MissingDecision
        | _ \<Rightarrow> Inl NotAJsonObject))"

definition parse_error_message :: "parse_error \<Rightarrow> string" where
  "parse_error_message e =
    (case e of
       NotValidJson \<Rightarrow> ''Response is not valid JSON''
     | JsonSyntaxError msg \<Rightarrow> msg
     | NotAJsonObject \<Rightarrow> ''Response is not a JSON object''
     | MissingDecision \<Rightarrow> ''Response missing required field: decision''
     | InvalidDecision d \<Rightarrow> ''Invalid decision \"'' @ d @ ''\". Must be one of: allow, deny, ask, defer.'')"

text \<open>
  The loop over the parse attempts. \<open>llm attempt last_error\<close> is the settled call; a call that
  fails or times out leaves the loop at once. The decision of the model goes through the severity
  map, as \<open>this.mapSeverity(output.decision, ...)\<close> does.
\<close>

function prompt_attempts ::
  "(string \<Rightarrow> string + json) \<Rightarrow> (nat \<Rightarrow> string option \<Rightarrow> llm_outcome) \<Rightarrow> ident \<Rightarrow> gate_definition \<Rightarrow> timestamp
    \<Rightarrow> gate_request \<Rightarrow> nat \<Rightarrow> nat \<Rightarrow> string option \<Rightarrow> gate_result" where
  "prompt_attempts json_parse llm gate_id def clock req max_retries attempt last_error =
    (let on_fail = or_default (oc_on_fail (gd_output_config def)) GDeny;
         inspect = with_actions [''inspect-prompt-logs''] (audit_of ''prompt'' gate_id req)
     in if attempt > max_retries then
          build_result gate_id clock req GDeny (RPromptUnparsed (max_retries + 1) last_error) inspect
        else case llm attempt last_error of
          LlmTimeout \<Rightarrow>
            build_result gate_id clock req on_fail (RPromptTimedOut (gate_timeout def req)) inspect
        | LlmError msg \<Rightarrow>
            build_result gate_id clock req on_fail
              (if msg = ''TIMEOUT'' then RPromptTimedOut (gate_timeout def req) else RPromptFailed msg)
              inspect
        | LlmReply content \<Rightarrow>
            (case parse_gate_decision json_parse content of
               Inl e \<Rightarrow>
                 prompt_attempts json_parse llm gate_id def clock req max_retries (attempt + 1)
                   (Some (parse_error_message e))
             | Inr out \<Rightarrow>
                 build_result gate_id clock req
                   (map_severity (decision_name (do_decision out)) (gd_output_config def))
                   (RText (or_default (do_reason out) ''No reason provided.''))
                   (with_actions (or_default (do_required_actions out) [])
                      (audit_of ''prompt'' gate_id req))))"
  by pat_completeness auto
termination
  by (relation "measure (\<lambda>(_, _, _, _, _, _, max_retries, attempt, _). Suc max_retries - attempt)") auto

declare prompt_attempts.simps [simp del]

definition run_prompt ::
  "(string \<Rightarrow> string + json) \<Rightarrow> (string \<Rightarrow> nat \<Rightarrow> string option \<Rightarrow> llm_outcome) \<Rightarrow> ident
    \<Rightarrow> gate_definition \<Rightarrow> timestamp \<Rightarrow> gate_request \<Rightarrow> gate_result" where
  "run_prompt json_parse llm gate_id def clock req =
    (case non_empty (gd_prompt def) of
       None \<Rightarrow>
         build_result gate_id clock req GDeny RPromptMissing
           (no_overrides\<lparr>ro_required_actions := Some [''fix-gate-config'']\<rparr>)
     | Some prompt \<Rightarrow>
         prompt_attempts json_parse (llm prompt) gate_id def clock req (gd_retry_threshold def) 0 None)"

section \<open>Properties of the HTTP and prompt gates\<close>

text \<open>
  The HTTP gate is bounded. It sends at most \<open>retry_threshold + 1\<close> requests, numbered
  consecutively from 0, and every wait between two of them is the capped exponential backoff of an
  attempt that was not the last.
\<close>

theorem http_gate_is_bounded:
  "let events = snd (run_http fetch g def clock req) in
   (\<exists>n \<le> gd_retry_threshold def + 1. fetches events = [0..<n]) \<and>
   (\<forall>d \<in> set (delays events). \<exists>a < gd_retry_threshold def. d = min (1000 * 2 ^ a) 30000)"
proof (cases "http_url def")
  case None
  then show ?thesis by (auto simp: run_http_def Let_def intro!: exI[of _ 0])
next
  case (Some url)
  let ?run = "http_attempts (fetch url (gate_timeout def req)) g def clock req (gd_retry_threshold def) 0 None"
  from http_attempts_fetches[of 0 "gd_retry_threshold def"]
  have "\<exists>n. fetches (snd ?run) = [0..<n] \<and> n \<le> Suc (gd_retry_threshold def)" by simp
  moreover have "set (delays (snd ?run)) \<subseteq> delay_ms ` {0..<gd_retry_threshold def}"
    by (rule http_attempts_delays)
  ultimately show ?thesis
    by (fastforce simp: run_http_def Some Let_def delay_ms_def)
qed

theorem http_gate_is_bounded_witness:
  "let events = snd (run_http (\<lambda>_ _ _. FetchResponse 503 None) ''g'' (sample_definition HttpGateType) 0
     sample_gate_request) in
   (\<exists>n \<le> gd_retry_threshold (sample_definition HttpGateType) + 1. fetches events = [0..<n]) \<and>
   (\<forall>d \<in> set (delays events). \<exists>a < gd_retry_threshold (sample_definition HttpGateType).
      d = min (1000 * 2 ^ a) 30000)"
  by (rule http_gate_is_bounded)

text \<open>
  Errors that are not worth retrying are retried. When every request fails with an error that
  \<open>isRetryableError\<close> rejects, the gate still sends all \<open>retry_threshold + 1\<close> requests, and sends
  them without any wait in between: the loop only skips the backoff.
\<close>

theorem non_retryable_errors_are_retried:
  assumes "http_url def = Some url"
    and "\<And>k. \<exists>name msg. fetch url (gate_timeout def req) k = FetchError name msg \<and> \<not> is_retryable_error name msg"
  shows "fetches (snd (run_http fetch g def clock req)) = [0..<gd_retry_threshold def + 1] \<and>
    delays (snd (run_http fetch g def clock req)) = []"
  using assms(1) http_attempts_all_errors[of 0 "gd_retry_threshold def" "fetch url (gate_timeout def req)"]
    assms(2)
  by (simp add: run_http_def)

theorem non_retryable_errors_are_retried_witness:
  "fetches (snd (run_http (\<lambda>_ _ _. FetchError ''TypeError'' ''Invalid URL'') ''g''
      (sample_definition HttpGateType) 0 sample_gate_request))
     = [0..<gd_retry_threshold (sample_definition HttpGateType) + 1] \<and>
   delays (snd (run_http (\<lambda>_ _ _. FetchError ''TypeError'' ''Invalid URL'') ''g''
      (sample_definition HttpGateType) 0 sample_gate_request)) = []"
  by (rule non_retryable_errors_are_retried[where url = "''http://gate''"])
    (simp add: http_url_def sample_definition_def, simp add: is_retryable_error_def js_includes_def
      js_to_lower_def js_lower_char_def starts_with_def Let_def)

text \<open>
  C40. The prompt gate discards the verdict of the model. Without a severity map, every reply that
  parses is allowed, whatever decision it carries: the decision is looked up as if it were a
  severity, and no default severity is called \<open>deny\<close>, \<open>ask\<close> or \<open>defer\<close>.
\<close>

theorem prompt_gate_discards_verdict:
  assumes "gd_prompt def = Some prompt" and "prompt \<noteq> []"
    and "oc_severity_map (gd_output_config def) = None"
    and "llm prompt 0 None = LlmReply content"
    and "parse_gate_decision json_parse content = Inr out"
  shows "gr_decision (run_prompt json_parse llm g def clock req) = GAllow"
proof -
  have "map_severity (decision_name d) (gd_output_config def) = GAllow" for d
    using assms(3)
    by (cases d) (simp_all add: map_severity_def decision_name_def js_to_lower_def js_lower_char_def
        default_severities_def Let_def)
  moreover have "non_empty (gd_prompt def) = Some prompt"
    using assms(1,2) by (simp add: non_empty_def)
  ultimately show ?thesis
    using assms(4,5) by (simp add: run_prompt_def prompt_attempts.simps[of _ _ _ _ _ _ _ 0] Let_def)
qed

definition sample_json_parse :: "string \<Rightarrow> string + json" where
  \<comment> \<open>reads one fixed reply\<close>
  "sample_json_parse s =
    (if s = ''{...}'' then Inr (JObj [(''decision'', JStr ''deny''), (''reason'', JStr ''unsafe'')])
     else Inl ''Unexpected token'')"

theorem prompt_gate_discards_verdict_witness:
  "\<exists>out. parse_gate_decision sample_json_parse ''{...}'' = Inr out \<and> do_decision out = GDeny \<and>
     gr_decision (run_prompt sample_json_parse (\<lambda>_ _ _. LlmReply ''{...}'') ''g''
       (sample_definition PromptGateType) 0 sample_gate_request) = GAllow"
proof -
  have "case parse_gate_decision sample_json_parse ''{...}'' of
      Inl _ \<Rightarrow> False | Inr out \<Rightarrow> do_decision out = GDeny"
    by code_simp
  then obtain out where out: "parse_gate_decision sample_json_parse ''{...}'' = Inr out"
    "do_decision out = GDeny" by (auto split: sum.splits)
  have "gr_decision (run_prompt sample_json_parse (\<lambda>_ _ _. LlmReply ''{...}'') ''g''
       (sample_definition PromptGateType) 0 sample_gate_request) = GAllow"
    by (rule prompt_gate_discards_verdict[where prompt = "''review''", OF _ _ _ _ out(1)])
      (simp_all add: sample_definition_def sample_output_config_def)
  with out show ?thesis by blast
qed

lemma prompt_attempts_unparsed:
  assumes "\<And>k err. \<exists>content e. llm k err = LlmReply content \<and> parse_gate_decision json_parse content = Inl e"
  shows "gr_decision (prompt_attempts json_parse llm g def clock req m a err) = GDeny"
proof (induction "Suc m - a" arbitrary: a err)
  case 0
  then show ?case by (subst prompt_attempts.simps) (simp add: Let_def)
next
  case (Suc k)
  obtain content e where r: "llm a err = LlmReply content" "parse_gate_decision json_parse content = Inl e"
    using assms by blast
  have "gr_decision (prompt_attempts json_parse llm g def clock req m (Suc a) err') = GDeny" for err'
    by (rule Suc.hyps(1)) (use Suc.hyps(2) in simp)
  with r show ?case by (subst prompt_attempts.simps) (simp add: Let_def)
qed

text \<open>
  The prompt gate fails closed on garbage. When no reply parses, however many retries are
  configured and whatever \<open>on_fail\<close> says, the gate denies.
\<close>

theorem prompt_gate_denies_unparsable_replies:
  assumes "\<And>prompt k err. \<exists>content e. llm prompt k err = LlmReply content \<and>
      parse_gate_decision json_parse content = Inl e"
  shows "gr_decision (run_prompt json_parse llm g def clock req) = GDeny"
  using prompt_attempts_unparsed[of "llm _" json_parse] assms
  by (auto simp: run_prompt_def split: option.split)

theorem prompt_gate_denies_unparsable_replies_witness:
  "gr_decision (run_prompt sample_json_parse (\<lambda>_ _ _. LlmReply ''I think it is fine'') ''g''
     (sample_definition PromptGateType) 0 sample_gate_request) = GDeny"
proof (rule prompt_gate_denies_unparsable_replies)
  have "case parse_gate_decision sample_json_parse ''I think it is fine'' of
      Inl e \<Rightarrow> e = NotValidJson | Inr _ \<Rightarrow> False"
    by code_simp
  then have "parse_gate_decision sample_json_parse ''I think it is fine'' = Inl NotValidJson"
    by (auto split: sum.splits)
  then show "\<exists>content e. LlmReply ''I think it is fine'' = LlmReply content \<and>
      parse_gate_decision sample_json_parse content = Inl e" for prompt :: string and k :: nat and err :: "string option"
    by blast
qed

end
