(* ===== verification/GateScheduler.thy ===== *)
theory GateScheduler
  imports GateRunners
begin

text \<open>
  The composite runner (\<open>src/gate/composite-runner.ts\<close>), the mock gates (\<open>mock-gate.ts\<close>), the
  resolution of a gate id to its runner (\<open>scheduler.ts\<close>, \<open>index.ts\<close>), and the priority queue of the
  scheduler (\<open>scheduler.ts\<close>). Composite gates resolve their sub-gates recursively, with no check
  for cycles: the recursion has fuel, and \<open>None\<close> means that it ran out.
\<close>

section \<open>Mock gates\<close>

definition schema_version :: string where
  "schema_version = ''v0''"

definition mock_gate_result ::
  "ident \<Rightarrow> timestamp \<Rightarrow> gate_request \<Rightarrow> gate_decision \<Rightarrow> string \<Rightarrow> string list \<Rightarrow> string \<Rightarrow> gate_result" where
  \<comment> \<open>\<open>buildGateResult\<close>: the request id is not copied\<close>
  "mock_gate_result fresh clock req decision reason actions target =
    \<lparr>gr_gate_result_id = fresh,
     gr_gate_id = gq_gate_id req,
     gr_gate_point = gq_gate_point req,
     gr_request_id = None,
     gr_subject_id = gq_subject_id req,
     gr_decision = decision,
     gr_reason = RText reason,
     gr_required_actions = actions,
     gr_audit_ref = Some (''artifact://audit/'' @ gq_gate_id req @ ''/'' @ fresh),
     gr_target_state = Some target,
     gr_created_at = clock,
     gr_schema_version = schema_version\<rparr>"

definition run_mock_allow :: "ident \<Rightarrow> timestamp \<Rightarrow> gate_request \<Rightarrow> gate_result" where
  "run_mock_allow fresh clock req =
    mock_gate_result fresh clock req GAllow ''Mock allow gate accepted the subject.'' [] ''allowed''"

definition run_mock_deny :: "ident \<Rightarrow> timestamp \<Rightarrow> gate_request \<Rightarrow> gate_result" where
  "run_mock_deny fresh clock req =
    mock_gate_result fresh clock req GDeny ''Mock deny gate blocked the subject.'' [''fix''] ''blocked''"

section \<open>The composite runner\<close>

type_synonym runner_outcome = "string + gate_result" \<comment> \<open>\<open>Inl\<close>: rejected, with the message\<close>

definition sub_gate_failure ::
  "gate_definition \<Rightarrow> timestamp \<Rightarrow> gate_request \<Rightarrow> ident \<Rightarrow> string \<Rightarrow> gate_result" where
  "sub_gate_failure def clock req sub_id message =
    \<lparr>gr_gate_result_id = sub_id @ ''_'' @ gq_request_id req,
     gr_gate_id = sub_id,
     gr_gate_point = gq_gate_point req,
     gr_request_id = Some (gq_request_id req),
     gr_subject_id = None,
     gr_decision = or_default (oc_on_fail (gd_output_config def)) GDeny,
     gr_reason = RSubGateFailed sub_id message,
     gr_required_actions = [],
     gr_audit_ref = Some [],
     gr_target_state = Some [],
     gr_created_at = clock,
     gr_schema_version = gq_schema_version req\<rparr>"

definition sub_gate_result ::
  "gate_definition \<Rightarrow> timestamp \<Rightarrow> gate_request \<Rightarrow> ident \<Rightarrow> runner_outcome \<Rightarrow> gate_result" where
  "sub_gate_result def clock req sub_id outcome =
    (case outcome of Inr r \<Rightarrow> r | Inl message \<Rightarrow> sub_gate_failure def clock req sub_id message)"

definition composite_result ::
  "ident \<Rightarrow> gate_definition \<Rightarrow> timestamp \<Rightarrow> gate_request \<Rightarrow> sub_gate_ref list \<Rightarrow> gate_result list
    \<Rightarrow> runner_outcome" where
  "composite_result gate_id def clock req subs sub_results =
    (case aggregate_composite sub_results subs of
       Inl _ \<Rightarrow> Inl ''DecisionAggregator requires at least one GateResult for composite aggregation''
     | Inr agg \<Rightarrow>
         Inr (build_result gate_id clock req (gr_decision agg) (RComposite (gr_reason agg))
           (with_actions (gr_required_actions agg) (audit_of ''composite'' gate_id req))))"

definition run_composite ::
  "(ident \<Rightarrow> gate_request \<Rightarrow> runner_outcome option) \<Rightarrow> ident \<Rightarrow> gate_definition \<Rightarrow> timestamp
    \<Rightarrow> gate_request \<Rightarrow> runner_outcome option" where
  \<comment> \<open>\<open>run_sub\<close>: resolve a sub-gate and run it; \<open>None\<close> when that does not return\<close>
  "run_composite run_sub gate_id def clock req =
    (case gd_gates def of
       None \<Rightarrow> Some (Inr (build_result gate_id clock req GAllow RNoSubGates no_overrides))
     | Some [] \<Rightarrow> Some (Inr (build_result gate_id clock req GAllow RNoSubGates no_overrides))
     | Some subs \<Rightarrow>
         map_option (composite_result gate_id def clock req subs)
           (those (map (\<lambda>sg. map_option (sub_gate_result def clock req (sg_gate_id sg))
              (run_sub (sg_gate_id sg) (req\<lparr>gq_gate_id := sg_gate_id sg\<rparr>))) subs)))"

section \<open>From a gate id to its runner\<close>

record gate_env =
  ge_definitions :: "(ident \<times> gate_definition) list"
  ge_custom_runners :: "(ident \<times> (gate_request \<Rightarrow> runner_outcome)) list"
  ge_exec :: "gate_request \<Rightarrow> string \<Rightarrow> int \<Rightarrow> exec_outcome"
  ge_fetch :: "gate_request \<Rightarrow> string \<Rightarrow> int \<Rightarrow> nat \<Rightarrow> fetch_outcome"
  ge_llm :: "gate_request \<Rightarrow> string \<Rightarrow> nat \<Rightarrow> string option \<Rightarrow> llm_outcome"
  ge_parse_output :: "string \<Rightarrow> gate_output_format \<Rightarrow> parsed_gate_output option"
  ge_json_parse :: "string \<Rightarrow> string + json"
  ge_fresh_id :: "gate_request \<Rightarrow> ident"
  ge_clock :: timestamp

definition run_unknown_gate :: "gate_env \<Rightarrow> ident \<Rightarrow> gate_request \<Rightarrow> runner_outcome" where
  "run_unknown_gate env gate_id req =
    (if gate_id = ''mock-allow-gate'' \<or> gate_id = ''allow-gate'' then
       Inr (run_mock_allow (ge_fresh_id env req) (ge_clock env) req)
     else if gate_id = ''mock-deny-gate'' \<or> gate_id = ''deny-gate'' then
       Inr (run_mock_deny (ge_fresh_id env req) (ge_clock env) req)
     else Inl (''No definition or custom runner found for gate_id: '' @ gate_id))"

definition resolve_and_run ::
  "(ident \<Rightarrow> gate_request \<Rightarrow> runner_outcome option) \<Rightarrow> gate_env \<Rightarrow> ident \<Rightarrow> gate_request
    \<Rightarrow> runner_outcome option" where
  "resolve_and_run run_sub env gate_id req =
     (case map_of (ge_custom_runners env) gate_id of
        Some runner \<Rightarrow> Some (runner req)
      | None \<Rightarrow>
          (case map_of (ge_definitions env) gate_id of
             None \<Rightarrow> Some (run_unknown_gate env gate_id req)
           | Some def \<Rightarrow>
               (case gd_type def of
                  CommandGateType \<Rightarrow>
                    Some (Inr (run_command (ge_parse_output env) (ge_exec env req) gate_id def
                      (ge_clock env) req))
                | PromptGateType \<Rightarrow>
                    Some (Inr (run_prompt (ge_json_parse env) (ge_llm env req) gate_id def
                      (ge_clock env) req))
                | HttpGateType \<Rightarrow>
                    Some (Inr (fst (run_http (ge_fetch env req) gate_id def (ge_clock env) req)))
                | CompositeGateType \<Rightarrow> run_composite run_sub gate_id def (ge_clock env) req)))"

fun run_gate :: "nat \<Rightarrow> gate_env \<Rightarrow> ident \<Rightarrow> gate_request \<Rightarrow> runner_outcome option" where
  "run_gate 0 env gate_id req = None"
| "run_gate (Suc n) env gate_id req = resolve_and_run (run_gate n env) env gate_id req"

definition execute_request :: "nat \<Rightarrow> gate_env \<Rightarrow> gate_request \<Rightarrow> runner_outcome option" where
  "execute_request n env req = run_gate n env (gq_gate_id req) req"

section \<open>When resolution ends\<close>

text \<open>The sub-gates that a gate id resolves to.\<close>

definition sub_gates_of :: "gate_env \<Rightarrow> ident \<Rightarrow> ident list" where
  "sub_gates_of env g =
    (case (map_of (ge_custom_runners env) g, map_of (ge_definitions env) g) of
       (None, Some def) \<Rightarrow>
         if gd_type def = CompositeGateType then map sg_gate_id (or_default (gd_gates def) []) else []
     | _ \<Rightarrow> [])"

lemma those_eq_None_iff: "those xs = None \<longleftrightarrow> None \<in> set xs"
  by (induction xs) (auto split: option.splits)

lemma those_map_Some:
  "those (map f xs) = Some ys \<longleftrightarrow> length ys = length xs \<and> (\<forall>i < length xs. f (xs ! i) = Some (ys ! i))"
proof (induction xs arbitrary: ys)
  case Nil
  then show ?case by auto
next
  case (Cons x xs)
  show ?case
  proof (cases ys)
    case Nil
    then show ?thesis by (auto split: option.splits)
  next
    case (Cons y ys')
    then show ?thesis
      using Cons.IH[of ys']
      by (auto simp: All_less_Suc2 split: option.splits)
  qed
qed

lemma run_composite_None_iff:
  "run_composite f g def clock req = None \<longleftrightarrow>
     (\<exists>sg \<in> set (or_default (gd_gates def) []). f (sg_gate_id sg) (req\<lparr>gq_gate_id := sg_gate_id sg\<rparr>) = None)"
  by (auto simp: run_composite_def those_eq_None_iff image_iff split: option.split list.split)

lemma run_gate_Suc_None_iff:
  "run_gate (Suc n) env g req = None \<longleftrightarrow>
     (\<exists>s \<in> set (sub_gates_of env g). run_gate n env s (req\<lparr>gq_gate_id := s\<rparr>) = None)"
  by (auto simp: resolve_and_run_def sub_gates_of_def run_composite_None_iff
      split: option.split gate_type.split)

lemma run_composite_mono:
  assumes "run_composite f g def clock req = Some x"
    and "\<And>s r y. f s r = Some y \<Longrightarrow> f' s r = Some y"
  shows "run_composite f' g def clock req = Some x"
proof (cases "or_default (gd_gates def) []")
  case Nil
  with assms(1) show ?thesis by (auto simp: run_composite_def split: option.splits list.splits)
next
  case (Cons a subs)
  let ?h = "\<lambda>f sg. map_option (sub_gate_result def clock req (sg_gate_id sg))
    (f (sg_gate_id sg) (req\<lparr>gq_gate_id := sg_gate_id sg\<rparr>))"
  from Cons have eq: "gd_gates def = Some (a # subs)"
    by (cases "gd_gates def") simp_all
  with assms(1) obtain ys where ys: "those (map (?h f) (a # subs)) = Some ys"
    and x: "x = composite_result g def clock req (a # subs) ys"
    by (auto simp: run_composite_def simp del: list.map)
  have "?h f sg = Some y \<Longrightarrow> ?h f' sg = Some y" for sg y
    using assms(2) by (cases "f (sg_gate_id sg) (req\<lparr>gq_gate_id := sg_gate_id sg\<rparr>)") auto
  then have "those (map (?h f') (a # subs)) = Some ys"
    using ys unfolding those_map_Some by blast
  with eq x show ?thesis by (simp add: run_composite_def del: list.map)
qed

lemma resolve_and_run_mono:
  assumes "resolve_and_run f env g req = Some x" and "\<And>s r y. f s r = Some y \<Longrightarrow> f' s r = Some y"
  shows "resolve_and_run f' env g req = Some x"
  using assms(1) run_composite_mono[of f g _ "ge_clock env" req x f', OF _ assms(2)]
  by (auto simp: resolve_and_run_def split: option.splits gate_type.splits)

lemma run_gate_Suc: "run_gate n env g req = Some x \<Longrightarrow> run_gate (Suc n) env g req = Some x"
proof (induction n arbitrary: g req x)
  case 0
  then show ?case by simp
next
  case (Suc n)
  from Suc.prems have run: "resolve_and_run (run_gate n env) env g req = Some x"
    by (simp only: run_gate.simps)
  show ?case
    unfolding run_gate.simps(2)[of "Suc n"] by (rule resolve_and_run_mono[OF run Suc.IH])
qed

lemma run_gate_mono: "n \<le> m \<Longrightarrow> run_gate n env g req = Some x \<Longrightarrow> run_gate m env g req = Some x"
  by (induction m rule: dec_induct) (assumption, blast intro: run_gate_Suc)

text \<open>A ranking of the gates that decreases along sub-gates bounds the fuel resolution needs.\<close>

definition gates_ranked :: "gate_env \<Rightarrow> (ident \<Rightarrow> nat) \<Rightarrow> bool" where
  "gates_ranked env rank \<longleftrightarrow> (\<forall>g. \<forall>s \<in> set (sub_gates_of env g). rank s < rank g)"

lemma run_gate_ranked:
  "gates_ranked env rank \<Longrightarrow> rank g < n \<Longrightarrow> run_gate n env g req \<noteq> None"
proof (induction n arbitrary: g req)
  case 0
  then show ?case by simp
next
  case (Suc n)
  have "run_gate n env s (req\<lparr>gq_gate_id := s\<rparr>) \<noteq> None" if "s \<in> set (sub_gates_of env g)" for s
  proof (rule Suc.IH[OF Suc.prems(1)])
    have "rank s < rank g" using Suc.prems(1) that by (auto simp: gates_ranked_def)
    then show "rank s < n" using Suc.prems(2) by simp
  qed
  then show ?case by (simp only: run_gate_Suc_None_iff) blast
qed

lemma run_gate_cycle:
  assumes "g \<in> set cyc" and "\<forall>c \<in> set cyc. \<exists>s \<in> set cyc. s \<in> set (sub_gates_of env c)"
  shows "run_gate n env g req = None"
  using assms(1)
proof (induction n arbitrary: g req)
  case 0
  then show ?case by simp
next
  case (Suc n)
  with assms(2) obtain s where "s \<in> set cyc" "s \<in> set (sub_gates_of env g)" by blast
  with Suc.IH[of s] show ?case by (simp only: run_gate_Suc_None_iff) blast
qed

section \<open>The priority queue of the scheduler\<close>

text \<open>
  The queue of \<open>PriorityGateScheduler\<close>. Items carry a ticket, the identity of the promise they
  settle. \<open>process_queue\<close> is the synchronous part of \<open>processQueue\<close>: it starts at most one item.
  The asynchronous part, the end of a started item, is the step \<open>finish_item\<close>.
\<close>

record queue_item =
  qi_ticket :: nat
  qi_request :: gate_request
  qi_priority :: int

record scheduler_state =
  ss_queue :: "queue_item list"
  ss_active :: "queue_item list"
  ss_concurrency :: nat
  ss_settled :: "queue_item list"

definition initial_scheduler :: "nat option \<Rightarrow> scheduler_state" where
  "initial_scheduler concurrency =
    \<lparr>ss_queue = [], ss_active = [], ss_concurrency = or_default concurrency 1, ss_settled = []\<rparr>"

definition process_queue :: "scheduler_state \<Rightarrow> scheduler_state" where
  "process_queue s =
    (if length (ss_active s) \<ge> ss_concurrency s \<or> ss_queue s = [] then s
     else s\<lparr>ss_queue := tl (ss_queue s), ss_active := ss_active s @ [hd (ss_queue s)]\<rparr>)"

definition by_priority :: "queue_item \<Rightarrow> queue_item \<Rightarrow> bool" where
  "by_priority a b \<longleftrightarrow> qi_priority b - qi_priority a \<le> 0"

definition insert_request :: "queue_item \<Rightarrow> scheduler_state \<Rightarrow> scheduler_state" where
  "insert_request item s =
    process_queue (s\<lparr>ss_queue := sort_le by_priority (ss_queue s @ [item])\<rparr>)"

definition finish_item :: "queue_item \<Rightarrow> scheduler_state \<Rightarrow> scheduler_state" where
  \<comment> \<open>the promise is settled, then \<open>finally { activeCount--; processQueue() }\<close>\<close>
  "finish_item item s =
    process_queue (s\<lparr>ss_active := remove1 item (ss_active s), ss_settled := ss_settled s @ [item]\<rparr>)"

inductive scheduler_step :: "scheduler_state \<Rightarrow> scheduler_state \<Rightarrow> bool" where
  step_insert: "scheduler_step s (insert_request item s)"
| step_finish: "item \<in> set (ss_active s) \<Longrightarrow> scheduler_step s (finish_item item s)"

inductive scheduler_reach :: "nat option \<Rightarrow> scheduler_state \<Rightarrow> bool" for concurrency where
  reach_init: "scheduler_reach concurrency (initial_scheduler concurrency)"
| reach_step: "scheduler_reach concurrency s \<Longrightarrow> scheduler_step s t \<Longrightarrow> scheduler_reach concurrency t"

inductive_cases scheduler_stepE: "scheduler_step s t"
inductive_simps scheduler_step_simps: "scheduler_step s t"

text \<open>
  The invariant: never more gates than allowed are running, the queue is in order of priority, and
  nothing waits while a slot is free.
\<close>

definition scheduler_inv :: "scheduler_state \<Rightarrow> bool" where
  "scheduler_inv s \<longleftrightarrow>
     length (ss_active s) \<le> ss_concurrency s \<and>
     sorted_wrt by_priority (ss_queue s) \<and>
     (ss_queue s \<noteq> [] \<longrightarrow> length (ss_active s) = ss_concurrency s)"

lemma by_priority_order:
  "by_priority a b \<or> by_priority b a" "by_priority a b \<Longrightarrow> by_priority b c \<Longrightarrow> by_priority a c"
  by (auto simp: by_priority_def)

lemma insert_request_inv: "scheduler_inv s \<Longrightarrow> scheduler_inv (insert_request item s)"
proof -
  assume inv: "scheduler_inv s"
  let ?q = "sort_le by_priority (ss_queue s @ [item])"
  have sorted: "sorted_wrt by_priority ?q"
    by (rule sort_le_sorted) (rule by_priority_order, erule (1) by_priority_order(2))
  then have tl: "sorted_wrt by_priority (tl ?q)" by (cases ?q) simp_all
  have "ss_queue s = [] \<Longrightarrow> tl ?q = []" by simp
  with inv sorted tl show ?thesis
    by (auto simp: scheduler_inv_def insert_request_def process_queue_def)
qed

lemma finish_item_inv:
  assumes "scheduler_inv s" and "item \<in> set (ss_active s)"
  shows "scheduler_inv (finish_item item s)"
proof -
  have "sorted_wrt by_priority (tl (ss_queue s))"
    using assms(1) by (cases "ss_queue s") (simp_all add: scheduler_inv_def)
  moreover have "length (ss_active s) > 0" using assms(2) by (cases "ss_active s") simp_all
  ultimately show ?thesis
    using assms by (auto simp: scheduler_inv_def finish_item_def process_queue_def length_remove1)
qed

lemma scheduler_step_inv: "scheduler_step s t \<Longrightarrow> scheduler_inv s \<Longrightarrow> scheduler_inv t"
  by (elim scheduler_stepE) (simp_all add: insert_request_inv finish_item_inv)

lemma scheduler_step_concurrency: "scheduler_step s t \<Longrightarrow> ss_concurrency t = ss_concurrency s"
  by (elim scheduler_stepE) (simp_all add: insert_request_def finish_item_def process_queue_def)

lemma scheduler_reach_inv: "scheduler_reach c s \<Longrightarrow> scheduler_inv s \<and> ss_concurrency s = or_default c 1"
proof (induction rule: scheduler_reach.induct)
  case reach_init
  then show ?case by (simp add: scheduler_inv_def initial_scheduler_def)
next
  case (reach_step s t)
  then show ?case using scheduler_step_inv scheduler_step_concurrency by metis
qed

text \<open>No item is lost or run twice.\<close>

definition all_items :: "scheduler_state \<Rightarrow> queue_item multiset" where
  "all_items s = mset (ss_queue s) + mset (ss_active s) + mset (ss_settled s)"

lemma all_items_process [simp]: "all_items (process_queue s) = all_items s"
  by (cases "ss_queue s") (auto simp: all_items_def process_queue_def)

lemma all_items_insert: "all_items (insert_request item s) = add_mset item (all_items s)"
  by (simp add: insert_request_def) (simp add: all_items_def)

lemma all_items_finish:
  "item \<in> set (ss_active s) \<Longrightarrow> all_items (finish_item item s) = all_items s"
  by (simp add: finish_item_def) (simp add: all_items_def)

text \<open>Draining: the oldest started item finishes, until nothing is running.\<close>

fun drain :: "nat \<Rightarrow> scheduler_state \<Rightarrow> scheduler_state" where
  "drain 0 s = s"
| "drain (Suc n) s =
     (case ss_active s of [] \<Rightarrow> s | item # _ \<Rightarrow> drain n (finish_item item s))"

lemma drain_completes:
  assumes "scheduler_inv s" and "0 < ss_concurrency s"
    and "length (ss_queue s) + length (ss_active s) \<le> n"
  shows "ss_queue (drain n s) = [] \<and> ss_active (drain n s) = [] \<and>
    mset (ss_settled (drain n s)) = all_items s"
  using assms
proof (induction n arbitrary: s)
  case 0
  then show ?case by (simp add: all_items_def)
next
  case (Suc n)
  show ?case
  proof (cases "ss_active s")
    case Nil
    with Suc.prems show ?thesis by (auto simp: scheduler_inv_def all_items_def)
  next
    case (Cons item rest)
    let ?t = "finish_item item s"
    have mem: "item \<in> set (ss_active s)" using Cons by simp
    have "size (all_items ?t) = size (all_items s)" using all_items_finish[OF mem] by simp
    moreover have "length (ss_settled ?t) = Suc (length (ss_settled s))"
      by (simp add: finish_item_def process_queue_def)
    ultimately have "length (ss_queue ?t) + length (ss_active ?t) \<le> n"
      using Suc.prems(3) by (simp add: all_items_def)
    moreover have "ss_concurrency ?t = ss_concurrency s"
      by (simp add: finish_item_def process_queue_def)
    ultimately show ?thesis
      using Suc.IH[OF finish_item_inv[OF Suc.prems(1) mem]] Suc.prems(2) all_items_finish[OF mem] Cons
      by simp
  qed
qed

section \<open>Properties\<close>

lemma sub_gate_map_nth:
  assumes "distinct (map sg_gate_id subs)" and "k < length subs"
  shows "sub_gate_map subs (sg_gate_id (subs ! k)) = Some (subs ! k)"
  unfolding sub_gate_map_def
  by (rule map_of_is_SomeI) (use assms in \<open>auto simp: rev_map[symmetric] comp_def\<close>)

text \<open>
  C31. The verdict of a composite gate. When every sub-gate reports under its own identifier, the
  composite denies exactly when some sub-gate that is not marked optional denies: an optional
  denial never blocks, a required one always does.
\<close>

theorem composite_denies_iff:
  assumes "distinct (map sg_gate_id subs)" and "map gr_gate_id results = map sg_gate_id subs"
    and "composite_result g def clock req subs results = Inr r"
  shows "gr_decision r = GDeny \<longleftrightarrow>
    (\<exists>k < length subs. gr_decision (results ! k) = GDeny \<and> sg_required (subs ! k) \<noteq> Some False)"
proof -
  from assms(3) obtain agg where agg: "aggregate (map (adjust_optional subs) results) = Inr agg"
    and r: "gr_decision r = gr_decision agg"
    by (auto simp: composite_result_def aggregate_composite_def split: sum.splits if_splits)
  have len: "length results = length subs" using assms(2) by (metis length_map)
  have ids: "gr_gate_id (results ! k) = sg_gate_id (subs ! k)" if "k < length subs" for k
    using assms(2) that len by (metis nth_map)
  have adj: "gr_decision (adjust_optional subs (results ! k)) = GDeny \<longleftrightarrow>
      gr_decision (results ! k) = GDeny \<and> sg_required (subs ! k) \<noteq> Some False" if "k < length subs" for k
    using sub_gate_map_nth[OF assms(1) that] ids[OF that] by (auto simp: adjust_optional_def)
  have "gr_decision agg = GDeny \<longleftrightarrow> (\<exists>x \<in> set (map (adjust_optional subs) results). gr_decision x = GDeny)"
    by (rule aggregate_deny_iff[OF agg])
  also have "\<dots> \<longleftrightarrow> (\<exists>k < length subs. gr_decision (adjust_optional subs (results ! k)) = GDeny)"
  proof -
    have "set results = nth results ` {0..<length subs}"
      using nth_image[of "length results" results] len by simp
    then show ?thesis by auto
  qed
  finally show ?thesis by (simp add: r adj cong: conj_cong)
qed

definition sample_subs :: "sub_gate_ref list" where
  "sample_subs = [\<lparr>sg_gate_id = ''lint'', sg_required = Some False\<rparr>, \<lparr>sg_gate_id = ''test'', sg_required = None\<rparr>]"

theorem composite_denies_iff_witness:
  "\<exists>r. composite_result ''all'' (sample_definition CompositeGateType) 0 sample_gate_request sample_subs
      [sample_result ''lint'' GDeny, sample_result ''test'' GAsk] = Inr r \<and>
    (gr_decision r = GDeny \<longleftrightarrow>
      (\<exists>k < length sample_subs. gr_decision ([sample_result ''lint'' GDeny, sample_result ''test'' GAsk] ! k) = GDeny
         \<and> sg_required (sample_subs ! k) \<noteq> Some False))"
proof -
  obtain r where r: "composite_result ''all'' (sample_definition CompositeGateType) 0 sample_gate_request
      sample_subs [sample_result ''lint'' GDeny, sample_result ''test'' GAsk] = Inr r"
    by (simp add: composite_result_def aggregate_composite_def aggregate_def)
  have "gr_decision r = GDeny \<longleftrightarrow>
      (\<exists>k < length sample_subs. gr_decision ([sample_result ''lint'' GDeny, sample_result ''test'' GAsk] ! k) = GDeny
         \<and> sg_required (sample_subs ! k) \<noteq> Some False)"
    by (rule composite_denies_iff[OF _ _ r]) (simp_all add: sample_subs_def)
  with r show ?thesis by blast
qed

text \<open>
  C38. Gate resolution returns on acyclic configurations. When the gates can be ranked so that
  every sub-gate ranks below its composite, running a gate returns with any fuel above its rank,
  and more fuel does not change what it returns.
\<close>

theorem gate_resolution_terminates:
  assumes "gates_ranked env rank" and "rank (gq_gate_id req) < n"
  shows "\<exists>out. \<forall>m \<ge> n. execute_request m env req = Some out"
proof -
  obtain out where "execute_request n env req = Some out"
    using run_gate_ranked[OF assms] by (auto simp: execute_request_def)
  then show ?thesis
    using run_gate_mono by (auto simp: execute_request_def)
qed

definition sample_env :: "sub_gate_ref list \<Rightarrow> gate_env" where
  "sample_env subs =
    \<lparr>ge_definitions = [(''all'', (sample_definition CompositeGateType)\<lparr>gd_gates := Some subs\<rparr>)],
     ge_custom_runners = [], ge_exec = (\<lambda>_ _ _. ExecOk [] []), ge_fetch = (\<lambda>_ _ _ _. FetchResponse 200 None),
     ge_llm = (\<lambda>_ _ _ _. LlmTimeout), ge_parse_output = (\<lambda>_ _. None), ge_json_parse = (\<lambda>_. Inl []),
     ge_fresh_id = (\<lambda>_. ''id''), ge_clock = 0\<rparr>"

theorem gate_resolution_terminates_witness:
  "\<exists>out. \<forall>m \<ge> 2. execute_request m
     (sample_env [\<lparr>sg_gate_id = ''allow-gate'', sg_required = None\<rparr>])
     (sample_gate_request\<lparr>gq_gate_id := ''all''\<rparr>) = Some out"
  by (rule gate_resolution_terminates[where rank = "\<lambda>g. if g = ''all'' then 1 else 0"])
    (auto simp: gates_ranked_def sub_gates_of_def sample_env_def sample_definition_def split: if_splits)

text \<open>
  C39. A cycle of composite gates never returns: a composite that reaches itself through its
  sub-gates exhausts any fuel. Nothing in the resolution detects the cycle.
\<close>

theorem cyclic_gates_never_return:
  assumes "gq_gate_id req \<in> set cyc" and "\<forall>c \<in> set cyc. \<exists>s \<in> set cyc. s \<in> set (sub_gates_of env c)"
  shows "execute_request n env req = None"
  unfolding execute_request_def using assms by (rule run_gate_cycle)

theorem cyclic_gates_never_return_witness:
  "execute_request 5 (sample_env [\<lparr>sg_gate_id = ''all'', sg_required = None\<rparr>])
     (sample_gate_request\<lparr>gq_gate_id := ''all''\<rparr>) = None"
  by (rule cyclic_gates_never_return[where cyc = "[''all'']"])
    (simp_all add: sub_gates_of_def sample_env_def sample_definition_def)

text \<open>
  C37. The scheduler respects its limits. In every reachable state at most \<open>concurrency\<close> gates run
  (one by default), the waiting requests are in order of priority, and none waits while a slot is
  free.
\<close>

theorem scheduler_respects_limits:
  assumes "scheduler_reach concurrency s"
  shows "length (ss_active s) \<le> or_default concurrency 1 \<and>
    sorted_wrt (\<lambda>a b. qi_priority a \<ge> qi_priority b) (ss_queue s) \<and>
    (ss_queue s \<noteq> [] \<longrightarrow> length (ss_active s) = or_default concurrency 1)"
proof -
  have "by_priority = (\<lambda>a b. qi_priority a \<ge> qi_priority b)"
    by (intro ext) (simp add: by_priority_def)
  with scheduler_reach_inv[OF assms] show ?thesis
    by (simp add: scheduler_inv_def)
qed

definition sample_item :: "nat \<Rightarrow> int \<Rightarrow> queue_item" where
  "sample_item t p = \<lparr>qi_ticket = t, qi_request = sample_gate_request, qi_priority = p\<rparr>"

definition sample_schedule :: scheduler_state where
  "sample_schedule =
    insert_request (sample_item 2 90) (insert_request (sample_item 1 10)
      (insert_request (sample_item 0 50) (initial_scheduler None)))"

lemma sample_schedule_reach: "scheduler_reach None sample_schedule"
  unfolding sample_schedule_def 
  by (rule reach_step[OF _ step_insert])+ (rule reach_init)

theorem scheduler_respects_limits_witness:
  "length (ss_active sample_schedule) \<le> or_default None 1 \<and>
    sorted_wrt (\<lambda>a b. qi_priority a \<ge> qi_priority b) (ss_queue sample_schedule) \<and>
    ss_queue sample_schedule \<noteq> [] \<and> length (ss_active sample_schedule) = or_default None 1"
proof -
  have "ss_queue sample_schedule \<noteq> []"
    by (simp add: sample_schedule_def insert_request_def process_queue_def initial_scheduler_def)
  with scheduler_respects_limits[OF sample_schedule_reach] show ?thesis by blast
qed

text \<open>
  No request is lost. From every reachable state of a scheduler with at least one slot, when
  the running gates end one after the other, everything that was ever inserted settles, each item
  as often as it was inserted.
\<close>

theorem scheduler_drains:
  assumes "scheduler_reach concurrency s" and "or_default concurrency 1 > 0"
  shows "(let t = drain (length (ss_queue s) + length (ss_active s)) s in
    ss_queue t = [] \<and> ss_active t = [] \<and>
    mset (ss_settled t) = mset (ss_queue s) + mset (ss_active s) + mset (ss_settled s))"
  using drain_completes[of s] scheduler_reach_inv[OF assms(1)] assms(2)
  by (simp add: Let_def all_items_def)

theorem scheduler_drains_witness:
  "(let t = drain (length (ss_queue sample_schedule) + length (ss_active sample_schedule)) sample_schedule in
    ss_queue t = [] \<and> ss_active t = [] \<and>
    mset (ss_settled t) = mset (ss_queue sample_schedule) + mset (ss_active sample_schedule)
      + mset (ss_settled sample_schedule))"
  by (rule scheduler_drains[OF sample_schedule_reach]) simp

end
