(* ===== verification/HookEngine.thy ===== *)
theory HookEngine
  imports GateScheduler
begin

text \<open>
  The hook engine (\<open>src/hook/hook.ts\<close>, configuration types from \<open>config.ts\<close>, defaults from
  \<open>constants.ts\<close>): an event is matched against the bindings of its type, the matching bindings run
  their gates in order of priority, and the strictest result decides. The expression library
  \<open>expr-eval\<close> is outside the repository: \<open>eval\<close> is the evaluation of a condition, \<open>None\<close> when it
  throws. \<open>submit\<close> is the scheduler's \<open>insert\<close>, settled; \<open>fresh\<close> yields the identifiers.
\<close>

section \<open>Configuration\<close>

record hook_settings =
  hs_fail_fast :: bool
  hs_default_timeout :: int
  hs_parallel :: bool
  hs_output_format :: string
  hs_emergency_env_var :: string

record gate_config =
  gc_type :: gate_type
  gc_command :: "string option"
  gc_prompt :: "string option"
  gc_model :: "string option"
  gc_http :: "string option"
  gc_gates :: "sub_gate_ref list option"
  gc_output :: "gate_output_config option"
  gc_timeout :: "int option"
  gc_retry_threshold :: "nat option"

record hook_binding_entry =
  hb_name :: "string option"
  hb_gate :: ident
  hb_priority :: "int option"
  hb_if :: "string option"
  hb_timeout :: "int option"
  hb_on_failure :: "gate_decision option"

record hook_config =
  hc_version :: string
  hc_settings :: hook_settings
  hc_gates :: "(ident \<times> gate_config) list"
  hc_hooks :: "(string \<times> hook_binding_entry list) list"

record hook_event =
  he_event_id :: ident
  he_event_type :: string
  he_subject_id :: ident
  he_run_id :: "ident option"
  he_task_id :: "ident option"
  he_payload :: "(string \<times> json) list"
  he_created_at :: timestamp
  he_schema_version :: string

record hook_result =
  hr_hook_point :: string
  hr_matched :: bool
  hr_gate_requests :: "gate_request list"
  hr_gate_results :: "gate_result list"
  hr_final_decision :: gate_decision
  hr_created_at :: timestamp
  hr_schema_version :: string

definition default_priority :: int where
  "default_priority = 50"

definition default_timeout :: int where
  "default_timeout = 30"

definition default_hook_settings :: hook_settings where
  "default_hook_settings =
    \<lparr>hs_fail_fast = False, hs_default_timeout = default_timeout, hs_parallel = False,
     hs_output_format = ''json'', hs_emergency_env_var = ''AGENT_EMERGENCY_SKIP''\<rparr>"

definition phase_1_hook_points :: "string list" where
  "phase_1_hook_points =
    [''task.created'', ''task.claimed'', ''task.started'', ''task.completed'', ''task.failed'',
     ''task.checkpoint_resume'', ''task.before_merge'', ''agent.message_send'',
     ''agent.message_recv'', ''agent.checkpoint'', ''system.timeout'', ''system.budget_exceeded'',
     ''lifecycle.human_gate'', ''council.decision'']"

section \<open>The engine\<close>

definition to_gate_definition :: "gate_config \<Rightarrow> gate_definition" where
  "to_gate_definition config =
    (let is = (\<lambda>t v. if gc_type config = t then v else None) in
     \<lparr>gd_type = gc_type config,
      gd_command = is CommandGateType (gc_command config),
      gd_model = is PromptGateType (gc_model config),
      gd_prompt = is PromptGateType (gc_prompt config),
      gd_http = is HttpGateType (gc_http config),
      gd_input = None,
      gd_gates = (if gc_type config = CompositeGateType then gc_gates config else None),
      gd_output_config = or_default (gc_output config)
        \<lparr>oc_format = None, oc_severity_map = None, oc_threshold = None, oc_on_fail = None,
         oc_on_below_threshold = None\<rparr>,
      gd_timeout = gc_timeout config,
      gd_retry_threshold = or_default (gc_retry_threshold config) 3\<rparr>)"

definition engine_definitions :: "hook_config \<Rightarrow> (ident \<times> gate_definition) list" where
  "engine_definitions config = map (\<lambda>(name, g). (name, to_gate_definition g)) (hc_gates config)"

definition is_emergency_skip_enabled ::
  "(string \<Rightarrow> string option) \<Rightarrow> hook_settings \<Rightarrow> bool" where
  \<comment> \<open>\<open>process_env\<close> is \<open>process.env\<close>\<close>
  "is_emergency_skip_enabled process_env settings =
    (if hs_emergency_env_var settings = [] then False
     else case non_empty (process_env (hs_emergency_env_var settings)) of
       None \<Rightarrow> False
     | Some v \<Rightarrow> js_to_lower v \<in> {''1'', ''true'', ''yes'', ''on'', ''enabled''})"

definition evaluate_condition ::
  "(string \<Rightarrow> hook_event \<Rightarrow> bool option) \<Rightarrow> string option \<Rightarrow> hook_event \<Rightarrow> bool" where
  "evaluate_condition eval expression event =
    (case non_empty expression of None \<Rightarrow> True | Some e \<Rightarrow> or_default (eval e event) False)"

definition entry_priority :: "hook_binding_entry \<Rightarrow> int" where
  "entry_priority e = or_default (hb_priority e) default_priority"

definition matching_entries ::
  "(string \<Rightarrow> hook_event \<Rightarrow> bool option) \<Rightarrow> hook_binding_entry list \<Rightarrow> hook_event
    \<Rightarrow> hook_binding_entry list" where
  "matching_entries eval entries event =
    sort_le (\<lambda>l r. entry_priority r - entry_priority l \<le> 0)
      (filter (\<lambda>e. evaluate_condition eval (hb_if e) event) entries)"

definition spread_payload :: "hook_event \<Rightarrow> (string \<times> json) list" where
  \<comment> \<open>\<open>{ event_id, event_type, task_id, run_id, ...event.payload }\<close>\<close>
  "spread_payload event =
    fold (\<lambda>(k, v). AList.update k v) (he_payload event)
      ([(''event_id'', JStr (he_event_id event)), (''event_type'', JStr (he_event_type event))]
       @ (case he_task_id event of None \<Rightarrow> [] | Some t \<Rightarrow> [(''task_id'', JStr t)])
       @ (case he_run_id event of None \<Rightarrow> [] | Some r \<Rightarrow> [(''run_id'', JStr r)]))"

definition to_gate_request ::
  "hook_settings \<Rightarrow> ident \<Rightarrow> timestamp \<Rightarrow> hook_event \<Rightarrow> hook_binding_entry \<Rightarrow> gate_request" where
  "to_gate_request settings fresh clock event entry =
    \<lparr>gq_gate_id = hb_gate entry,
     gq_gate_point = he_event_type event,
     gq_request_id = fresh,
     gq_priority = entry_priority entry,
     gq_timeout_ms = Some (or_default (hb_timeout entry) (hs_default_timeout settings) * 1000),
     gq_created_at = clock,
     gq_payload = Some (JObj (spread_payload event)),
     gq_schema_version = schema_version,
     gq_subject_id = Some (he_subject_id event)\<rparr>"

definition execute_gate ::
  "(gate_request \<Rightarrow> runner_outcome) \<Rightarrow> (gate_request \<Rightarrow> ident) \<Rightarrow> timestamp \<Rightarrow> gate_request
    \<Rightarrow> hook_binding_entry \<Rightarrow> gate_result" where
  "execute_gate submit fresh clock req entry =
    (case submit req of
       Inr r \<Rightarrow> r
     | Inl message \<Rightarrow>
         \<lparr>gr_gate_result_id = fresh req,
          gr_gate_id = gq_gate_id req,
          gr_gate_point = gq_gate_point req,
          gr_request_id = Some (gq_request_id req),
          gr_subject_id = gq_subject_id req,
          gr_decision = or_default (hb_on_failure entry) GAllow,
          gr_reason = RExecutionFailed message,
          gr_required_actions = [],
          gr_audit_ref = None,
          gr_target_state = None,
          gr_created_at = clock,
          gr_schema_version = schema_version\<rparr>)"

fun execute_sequentially ::
  "bool \<Rightarrow> (gate_request \<Rightarrow> hook_binding_entry \<Rightarrow> gate_result)
    \<Rightarrow> (gate_request \<times> hook_binding_entry) list \<Rightarrow> gate_result list" where
  "execute_sequentially fail_fast run [] = []"
| "execute_sequentially fail_fast run ((req, entry) # rest) =
     (let result = run req entry in
      if fail_fast \<and> gr_decision result = GDeny then [result]
      else result # execute_sequentially fail_fast run rest)"

record hook_platform =
  hp_env :: "string \<Rightarrow> string option"
  hp_eval :: "string \<Rightarrow> hook_event \<Rightarrow> bool option"
  hp_insert :: "gate_request \<Rightarrow> runner_outcome"
  hp_request_id :: "nat \<Rightarrow> ident"
  hp_result_id :: "gate_request \<Rightarrow> ident"
  hp_clock :: timestamp

definition unmatched_result :: "hook_platform \<Rightarrow> hook_event \<Rightarrow> bool \<Rightarrow> hook_result" where
  "unmatched_result P event matched =
    \<lparr>hr_hook_point = he_event_type event, hr_matched = matched, hr_gate_requests = [],
     hr_gate_results = [], hr_final_decision = GAllow, hr_created_at = hp_clock P,
     hr_schema_version = schema_version\<rparr>"

definition gate_requests ::
  "hook_platform \<Rightarrow> hook_settings \<Rightarrow> hook_event \<Rightarrow> hook_binding_entry list \<Rightarrow> gate_request list" where
  "gate_requests P settings event entries =
    map (\<lambda>(k, e). to_gate_request settings (hp_request_id P k) (hp_clock P) event e)
      (List.enumerate 0 entries)"

definition final_decision :: "gate_result list \<Rightarrow> gate_decision" where
  "final_decision results =
    (case aggregate results of Inl _ \<Rightarrow> GAllow | Inr r \<Rightarrow> gr_decision r)"
  \<comment> \<open>\<open>gateResults.length > 0 ? aggregate(...).decision : 'allow'\<close>\<close>

definition handle_event :: "hook_platform \<Rightarrow> hook_config \<Rightarrow> hook_event \<Rightarrow> hook_result" where
  "handle_event P config event =
    (let settings = hc_settings config in
     if is_emergency_skip_enabled (hp_env P) settings then unmatched_result P event False
     else case map_of (hc_hooks config) (he_event_type event) of
       None \<Rightarrow> unmatched_result P event False
     | Some [] \<Rightarrow> unmatched_result P event False
     | Some entries \<Rightarrow>
         (let matching = matching_entries (hp_eval P) entries event in
          if matching = [] then unmatched_result P event True
          else
            (let requests = gate_requests P settings event matching;
                 run = execute_gate (hp_insert P) (hp_result_id P) (hp_clock P);
                 results =
                   (if hs_parallel settings then map2 run requests matching
                    else execute_sequentially (hs_fail_fast settings) run (zip requests matching))
             in \<lparr>hr_hook_point = he_event_type event, hr_matched = True,
                 hr_gate_requests = requests, hr_gate_results = results,
                 hr_final_decision = final_decision results, hr_created_at = hp_clock P,
                 hr_schema_version = schema_version\<rparr>)))"

definition default_engine_config :: hook_config where
  "default_engine_config =
    \<lparr>hc_version = ''hook-0.1'', hc_settings = default_hook_settings,
     hc_gates =
       [(''mock-allow-gate'',
         \<lparr>gc_type = CommandGateType, gc_command = Some ''node -e \"process.exit(0)\"'',
          gc_prompt = None, gc_model = None, gc_http = None, gc_gates = None, gc_output = None,
          gc_timeout = None, gc_retry_threshold = Some 1\<rparr>)],
     hc_hooks =
       map (\<lambda>p. (p, [\<lparr>hb_name = None, hb_gate = ''mock-allow-gate'',
         hb_priority = Some default_priority, hb_if = None, hb_timeout = None,
         hb_on_failure = None\<rparr>])) phase_1_hook_points\<rparr>"

section \<open>What the decision depends on\<close>

lemma final_decision_deny_iff:
  "final_decision results = GDeny \<longleftrightarrow> (\<exists>r \<in> set results. gr_decision r = GDeny)"
proof (cases "aggregate results")
  case (Inl e)
  then have "results = []" by (simp add: aggregate_def split: list.splits)
  then show ?thesis by (simp add: final_decision_def aggregate_def)
next
  case (Inr r)
  then show ?thesis using aggregate_deny_iff[OF Inr] by (simp add: final_decision_def)
qed

lemma sequential_no_fail_fast:
  "execute_sequentially False run xs = map (\<lambda>(q, e). run q e) xs"
  by (induction xs) (auto simp: Let_def)

lemma fail_fast_prefix:
  "\<exists>rest. map (\<lambda>(q, e). run q e) xs = execute_sequentially True run xs @ rest \<and>
     (rest \<noteq> [] \<longrightarrow> (\<exists>r. execute_sequentially True run xs \<noteq> [] \<and>
        r = last (execute_sequentially True run xs) \<and> gr_decision r = GDeny))"
proof (induction xs)
  case Nil
  then show ?case by simp
next
  case (Cons x xs)
  obtain q e where x: "x = (q, e)" by (cases x)
  from Cons obtain rest where rest: "map (\<lambda>(q, e). run q e) xs = execute_sequentially True run xs @ rest"
    "rest \<noteq> [] \<longrightarrow> execute_sequentially True run xs \<noteq> [] \<and>
       gr_decision (last (execute_sequentially True run xs)) = GDeny" by blast
  show ?case
  proof (cases "gr_decision (run q e) = GDeny")
    case True
    then show ?thesis
      by (intro exI[of _ "map (\<lambda>(q, e). run q e) xs"]) (simp add: x Let_def)
  next
    case False
    with rest show ?thesis by (intro exI[of _ rest]) (auto simp: x Let_def)
  qed
qed

lemma fail_fast_decision:
  "final_decision (execute_sequentially True run xs) = final_decision (map (\<lambda>(q, e). run q e) xs)"
proof -
  obtain rest where rest: "map (\<lambda>(q, e). run q e) xs = execute_sequentially True run xs @ rest"
    "rest \<noteq> [] \<longrightarrow> execute_sequentially True run xs \<noteq> [] \<and>
       gr_decision (last (execute_sequentially True run xs)) = GDeny"
    using fail_fast_prefix[of run xs] by blast
  show ?thesis
  proof (cases "rest = []")
    case True
    with rest(1) show ?thesis by simp
  next
    case False
    with rest(2) have "\<exists>r \<in> set (execute_sequentially True run xs). gr_decision r = GDeny"
      by (intro bexI[of _ "last (execute_sequentially True run xs)"]) simp_all
    then have "final_decision (execute_sequentially True run xs) = GDeny"
      "final_decision (execute_sequentially True run xs @ rest) = GDeny"
      by (auto simp: final_decision_deny_iff)
    with rest(1) show ?thesis by simp
  qed
qed

lemma handle_event_matched:
  assumes "\<not> is_emergency_skip_enabled (hp_env P) (hc_settings config)"
    and "map_of (hc_hooks config) (he_event_type event) = Some entries"
  defines "ms \<equiv> matching_entries (hp_eval P) entries event"
    and "run \<equiv> execute_gate (hp_insert P) (hp_result_id P) (hp_clock P)"
  shows "hr_final_decision (handle_event P config event) =
    final_decision (map (\<lambda>(q, e). run q e)
      (zip (gate_requests P (hc_settings config) event ms) ms))"
proof (cases "ms = []")
  case True
  then have "matching_entries (hp_eval P) entries event = []" by (simp add: ms_def)
  with assms(1,2) show ?thesis
    by (cases entries) (simp_all add: handle_event_def Let_def ms_def unmatched_result_def
        final_decision_def aggregate_def gate_requests_def)
next
  case False
  then have "entries \<noteq> []" by (auto simp: ms_def matching_entries_def)
  then obtain e es where "entries = e # es" by (cases entries) simp_all
  moreover have "matching_entries (hp_eval P) (e # es) event = ms"
    by (simp add: ms_def calculation)
  ultimately show ?thesis
    using False assms(1,2)
    by (cases "hs_fail_fast (hc_settings config)")
      (simp_all add: handle_event_def Let_def run_def fail_fast_decision sequential_no_fail_fast)
qed

lemma handle_event_skipped:
  "is_emergency_skip_enabled (hp_env P) (hc_settings config) \<Longrightarrow>
   handle_event P config event = unmatched_result P event False"
  "map_of (hc_hooks config) (he_event_type event) = None \<Longrightarrow>
   handle_event P config event = unmatched_result P event False"
  by (simp_all add: handle_event_def Let_def)

lemma length_gate_requests [simp]: "length (gate_requests P settings event ms) = length ms"
  by (simp add: gate_requests_def)

section \<open>Properties\<close>

text \<open>
  C34. The decision of an event. An event is denied exactly when the emergency bypass is off and
  the gate of one of the bindings that match it denies (its fallback decision standing in for a
  gate that fails to run), whatever the mode: sequential, fail-fast or parallel.
\<close>

theorem event_denied_iff:
  "hr_final_decision (handle_event P config event) = GDeny \<longleftrightarrow>
    \<not> is_emergency_skip_enabled (hp_env P) (hc_settings config) \<and>
    (\<exists>entries. map_of (hc_hooks config) (he_event_type event) = Some entries \<and>
      (let ms = matching_entries (hp_eval P) entries event;
           qs = gate_requests P (hc_settings config) event ms
       in \<exists>k < length ms. gr_decision
            (execute_gate (hp_insert P) (hp_result_id P) (hp_clock P) (qs ! k) (ms ! k)) = GDeny))"
proof (cases "is_emergency_skip_enabled (hp_env P) (hc_settings config)")
  case True
  then show ?thesis by (simp add: handle_event_skipped unmatched_result_def)
next
  case False
  show ?thesis
  proof (cases "map_of (hc_hooks config) (he_event_type event)")
    case None
    then show ?thesis by (simp add: handle_event_skipped unmatched_result_def)
  next
    case (Some entries)
    with False show ?thesis
      by (auto simp: handle_event_matched[OF False Some] final_decision_deny_iff set_zip Let_def)
  qed
qed

definition with_modes :: "bool \<Rightarrow> bool \<Rightarrow> hook_config \<Rightarrow> hook_config" where
  "with_modes fail_fast parallel config =
    config\<lparr>hc_settings := (hc_settings config)\<lparr>hs_fail_fast := fail_fast, hs_parallel := parallel\<rparr>\<rparr>"

lemma with_modes_simps [simp]:
  "hc_hooks (with_modes f p config) = hc_hooks config"
  "is_emergency_skip_enabled env (hc_settings (with_modes f p config))
    = is_emergency_skip_enabled env (hc_settings config)"
  "gate_requests P (hc_settings (with_modes f p config)) event ms
    = gate_requests P (hc_settings config) event ms"
  by (simp_all add: with_modes_def is_emergency_skip_enabled_def gate_requests_def to_gate_request_def)

text \<open>
  C35. Stopping early is safe. Turning \<open>fail_fast\<close> or \<open>parallel\<close> on or off never changes the
  decision of an event: the sequential run that stops at the first denial decides as the run that
  executes every gate.
\<close>

theorem modes_do_not_change_the_decision:
  "hr_final_decision (handle_event P (with_modes f p config) event)
    = hr_final_decision (handle_event P config event)"
proof (cases "is_emergency_skip_enabled (hp_env P) (hc_settings config)")
  case True
  then show ?thesis by (simp add: handle_event_skipped unmatched_result_def)
next
  case False
  show ?thesis
  proof (cases "map_of (hc_hooks config) (he_event_type event)")
    case None
    then show ?thesis by (simp add: handle_event_skipped unmatched_result_def)
  next
    case (Some entries)
    with False show ?thesis by (simp add: handle_event_matched)
  qed
qed

end
