(* ===== verification/MailboxStore.thy ===== *)
theory MailboxStore
  imports JsText
begin

text \<open>
  The durable mailbox: its port (\<open>src/mailbox/mailbox-state-store.ts\<close>) and the SQLite adapter
  (the mailbox part of \<open>src/persistence/sqlite-coordination-store.ts\<close>). The two tables are lists of
  rows in insertion order. Their primary keys, unique indexes and foreign keys are checked by the
  inserts, as the database does; a transaction that raises leaves the state unchanged. SQLite
  orders text by its bytes, which is \<open>code_unit_compare\<close>. Reading a row gives back the object that
  was written: JSON columns hold \<open>json\<close> values.
\<close>

section \<open>Rows\<close>

datatype message_kind = KindRequest | KindNotice

datatype agent_message_type =
    MsgAskHelp | MsgReviewRequest | MsgProposal | MsgCritique | MsgHandoff | MsgStatusUpdate
  | MsgDecisionRequest | MsgDecisionResponse | MsgTaskAssigned | MsgDriverRequested
  | MsgDriverCompleted

datatype mailbox_status = MbPending | MbInjected | MbAcknowledged | MbFailed

record mailbox_error_info =
  me_code :: string
  me_message :: string
  me_details :: "json option"

record mailbox_message =
  mm_message_id :: ident
  mm_task_id :: ident
  mm_workspace_path :: string
  mm_thread_id :: ident
  mm_from_role_id :: ident
  mm_kind :: "message_kind option"
  mm_content :: "string option"
  mm_type :: agent_message_type
  mm_payload :: "(string \<times> json) list"
  mm_artifact_refs :: "string list"
  mm_requires_ack :: bool
  mm_reply_to :: "ident option"
  mm_idempotency_key :: string
  mm_created_at :: timestamp
  mm_schema_version :: string

record mailbox_delivery =
  md_delivery_id :: ident
  md_message_id :: ident
  md_task_id :: ident
  md_workspace_path :: string
  md_recipient_role_id :: ident
  md_recipient_session_id :: "ident option"
  md_status :: mailbox_status
  md_deadline_at :: "timestamp option"
  md_injected_at :: "timestamp option"
  md_acknowledged_at :: "timestamp option"
  md_retry_count :: nat
  md_last_error :: "mailbox_error_info option"
  md_last_delivery_event_id :: "ident option"
  md_replay_cursor :: "string option"
  md_created_at :: timestamp
  md_updated_at :: timestamp
  md_schema_version :: string

record mailbox_envelope =
  ev_message :: mailbox_message
  ev_delivery :: mailbox_delivery

record mailbox_db =
  db_messages :: "mailbox_message list"
  db_deliveries :: "mailbox_delivery list"
  db_event_ids :: "ident list" \<comment> \<open>the keys of the \<open>events\<close> table, which another part writes\<close>

datatype store_error =
    NoDelivery
  | UnsupportedMessageSchema string
  | NotExactlyOneDelivery
  | MissingScopeOrKey
  | DeliveryOfOtherMessage
  | DeliveryOfOtherScope
  | NewDeliveryNotPending
  | DeliveryWithoutRole
  | DuplicateRecipient ident
  | UnsupportedDeliverySchema string
  | ConstraintViolation
  | DeliveryNotFound ident
  | MessageNotFound ident
  | OtherRecipient ident
  | CursorOfOtherRecipient ident
  | InjectedIntoOtherSession ident
  | CannotInjectFrom ident mailbox_status
  | NotInjectedBeforeAck ident
  | FailedCannotBeAcknowledged ident
  | NotInjectedBeforeReply ident
  | FailedCannotBeRepliedTo ident
  | ReplyToOtherMessage
  | PendingDeliveryNotFound ident
  | ReplayableDeliveryNotFound ident

definition mailbox_schema_version :: string where
  "mailbox_schema_version = ''v0''"

section \<open>Reads\<close>

definition find_message :: "mailbox_db \<Rightarrow> ident \<Rightarrow> mailbox_message option" where
  "find_message db i = find (\<lambda>m. mm_message_id m = i) (db_messages db)"

definition find_delivery :: "mailbox_db \<Rightarrow> ident \<Rightarrow> mailbox_delivery option" where
  "find_delivery db i = find (\<lambda>d. md_delivery_id d = i) (db_deliveries db)"

definition require_mailbox_delivery :: "mailbox_db \<Rightarrow> ident \<Rightarrow> store_error + mailbox_delivery" where
  "require_mailbox_delivery db i =
    (case find_delivery db i of None \<Rightarrow> Inl (DeliveryNotFound i) | Some d \<Rightarrow> Inr d)"

definition read_mailbox_envelope :: "mailbox_db \<Rightarrow> ident \<Rightarrow> store_error + mailbox_envelope" where
  "read_mailbox_envelope db i =
    bindR (require_mailbox_delivery db i) (\<lambda>d.
      case find_message db (md_message_id d) of
        None \<Rightarrow> Inl (MessageNotFound (md_message_id d))
      | Some m \<Rightarrow> Inr \<lparr>ev_message = m, ev_delivery = d\<rparr>)"

fun read_envelopes :: "mailbox_db \<Rightarrow> mailbox_delivery list \<Rightarrow> store_error + mailbox_envelope list" where
  "read_envelopes db [] = Inr []"
| "read_envelopes db (d # ds) =
     bindR (read_mailbox_envelope db (md_delivery_id d)) (\<lambda>e.
       bindR (read_envelopes db ds) (\<lambda>es. Inr (e # es)))"

definition delivery_before :: "timestamp \<times> ident \<Rightarrow> timestamp \<times> ident \<Rightarrow> bool" where
  \<comment> \<open>\<open>created_at < ? OR (created_at = ? AND delivery_id < ?)\<close>\<close>
  "delivery_before a b \<longleftrightarrow>
     fst a < fst b \<or> fst a = fst b \<and> code_unit_compare (snd a) (snd b) < 0"

definition delivery_key :: "mailbox_delivery \<Rightarrow> timestamp \<times> ident" where
  "delivery_key d = (md_created_at d, md_delivery_id d)"

definition order_by_creation :: "mailbox_delivery list \<Rightarrow> mailbox_delivery list" where
  "order_by_creation = sort_le (\<lambda>a b. \<not> delivery_before (delivery_key b) (delivery_key a))"

definition list_mailbox_inbox ::
  "mailbox_db \<Rightarrow> ident \<Rightarrow> string \<Rightarrow> ident \<Rightarrow> ident option \<Rightarrow> store_error + mailbox_envelope list" where
  "list_mailbox_inbox db task ws role after =
    (let mine = (\<lambda>d. md_task_id d = task \<and> md_workspace_path d = ws \<and> md_recipient_role_id d = role)
     in case non_empty after of
          None \<Rightarrow> read_envelopes db (order_by_creation (filter mine (db_deliveries db)))
        | Some a \<Rightarrow>
            bindR (require_mailbox_delivery db a) (\<lambda>cursor.
              bindR (ensure (mine cursor) (CursorOfOtherRecipient a)) (\<lambda>_.
                read_envelopes db (order_by_creation
                  (filter (\<lambda>d. mine d \<and> delivery_before (delivery_key cursor) (delivery_key d))
                    (db_deliveries db))))))"

definition get_mailbox_envelope :: "mailbox_db \<Rightarrow> ident \<Rightarrow> store_error + mailbox_envelope option" where
  "get_mailbox_envelope db i =
    (case find_delivery db i of
       None \<Rightarrow> Inr None
     | Some _ \<Rightarrow> bindR (read_mailbox_envelope db i) (\<lambda>e. Inr (Some e)))"

definition is_legacy_scope :: "mailbox_delivery \<Rightarrow> bool" where
  "is_legacy_scope d \<longleftrightarrow> md_task_id d = ''legacy'' \<and> md_workspace_path d = ''.''"

definition scope_matches :: "string option \<Rightarrow> string \<Rightarrow> bool" where
  \<comment> \<open>\<open>if (scope.x) clauses.push('x = ?')\<close>\<close>
  "scope_matches filter_value v = (case non_empty filter_value of None \<Rightarrow> True | Some w \<Rightarrow> v = w)"

definition list_replayable_deliveries ::
  "mailbox_db \<Rightarrow> ident option \<Rightarrow> string option \<Rightarrow> ident option \<Rightarrow> store_error + mailbox_envelope list"
  where
  "list_replayable_deliveries db task ws role =
    read_envelopes db (order_by_creation
      (filter (\<lambda>d. md_status d = MbPending \<and> \<not> is_legacy_scope d \<and> scope_matches task (md_task_id d)
          \<and> scope_matches ws (md_workspace_path d) \<and> scope_matches role (md_recipient_role_id d))
        (db_deliveries db)))"

definition mailbox_high_watermark ::
  "mailbox_db \<Rightarrow> ident \<Rightarrow> string \<Rightarrow> (timestamp \<times> ident) option" where
  "mailbox_high_watermark db task ws =
    (case rev (order_by_creation
       (filter (\<lambda>d. md_task_id d = task \<and> md_workspace_path d = ws) (db_deliveries db))) of
       [] \<Rightarrow> None
     | d # _ \<Rightarrow> Some (delivery_key d))"

definition list_deliveries_after ::
  "mailbox_db \<Rightarrow> ident \<Rightarrow> string \<Rightarrow> (timestamp \<times> ident) option
    \<Rightarrow> store_error + mailbox_envelope list" where
  "list_deliveries_after db task ws after =
    read_envelopes db (order_by_creation
      (filter (\<lambda>d. md_task_id d = task \<and> md_workspace_path d = ws \<and> \<not> is_legacy_scope d
          \<and> md_status d \<in> {MbPending, MbInjected}
          \<and> (case after of None \<Rightarrow> True | Some k \<Rightarrow> delivery_before k (delivery_key d)))
        (db_deliveries db)))"

definition list_mailbox_thread :: "mailbox_db \<Rightarrow> ident \<Rightarrow> mailbox_message list" where
  "list_mailbox_thread db thread =
    sort_le (\<lambda>a b. \<not> delivery_before (mm_created_at b, mm_message_id b) (mm_created_at a, mm_message_id a))
      (filter (\<lambda>m. mm_thread_id m = thread) (db_messages db))"

definition session_key :: "mailbox_delivery \<Rightarrow> timestamp option \<times> timestamp \<times> ident" where
  "session_key d = (md_injected_at d, md_updated_at d, md_delivery_id d)"

definition session_before ::
  "timestamp option \<times> timestamp \<times> ident \<Rightarrow> timestamp option \<times> timestamp \<times> ident \<Rightarrow> bool" where
  \<comment> \<open>\<open>NULL\<close> sorts before every time\<close>
  "session_before a b \<longleftrightarrow>
     (case (a, b) of ((i, u, x), (j, v, y)) \<Rightarrow>
        (case (i, j) of
           (None, None) \<Rightarrow> u < v \<or> u = v \<and> code_unit_compare x y < 0
         | (None, Some _) \<Rightarrow> True
         | (Some _, None) \<Rightarrow> False
         | (Some s, Some t) \<Rightarrow> s < t \<or> s = t \<and> (u < v \<or> u = v \<and> code_unit_compare x y < 0)))"

definition find_latest_mailbox_session :: "mailbox_db \<Rightarrow> ident \<Rightarrow> string \<Rightarrow> ident \<Rightarrow> ident option" where
  "find_latest_mailbox_session db task ws role =
    (case sort_le (\<lambda>a b. \<not> session_before (session_key a) (session_key b))
       (filter (\<lambda>d. md_task_id d = task \<and> md_workspace_path d = ws \<and> md_recipient_role_id d = role
          \<and> md_recipient_session_id d \<noteq> None) (db_deliveries db)) of
       [] \<Rightarrow> None
     | d # _ \<Rightarrow> md_recipient_session_id d)"

definition find_send_by_key ::
  "mailbox_db \<Rightarrow> ident \<Rightarrow> ident \<Rightarrow> string \<Rightarrow> (mailbox_message \<times> mailbox_delivery list) option" where
  "find_send_by_key db task from_role key =
    (case find (\<lambda>m. mm_task_id m = task \<and> mm_from_role_id m = from_role \<and> mm_idempotency_key m = key)
       (db_messages db) of
       None \<Rightarrow> None
     | Some m \<Rightarrow>
         Some (m, order_by_creation
           (filter (\<lambda>d. md_message_id d = mm_message_id m) (db_deliveries db))))"

section \<open>Writes\<close>

fun validate_deliveries ::
  "mailbox_message \<Rightarrow> ident list \<Rightarrow> mailbox_delivery list \<Rightarrow> store_error + unit" where
  \<comment> \<open>the loop of \<open>validateMailboxWrite\<close>\<close>
  "validate_deliveries m recipients [] = Inr ()"
| "validate_deliveries m recipients (d # ds) =
     (if md_message_id d \<noteq> mm_message_id m then Inl DeliveryOfOtherMessage
      else if md_task_id d \<noteq> mm_task_id m \<or> md_workspace_path d \<noteq> mm_workspace_path m then
        Inl DeliveryOfOtherScope
      else if md_status d \<noteq> MbPending then Inl NewDeliveryNotPending
      else if md_recipient_role_id d = [] then Inl DeliveryWithoutRole
      else if md_recipient_role_id d \<in> set recipients then
        Inl (DuplicateRecipient (md_recipient_role_id d))
      else if md_schema_version d \<noteq> mailbox_schema_version then
        Inl (UnsupportedDeliverySchema (md_schema_version d))
      else validate_deliveries m (md_recipient_role_id d # recipients) ds)"

definition validate_mailbox_write ::
  "mailbox_message \<Rightarrow> mailbox_delivery list \<Rightarrow> store_error + unit" where
  "validate_mailbox_write m ds =
    (if ds = [] then Inl NoDelivery
     else if mm_schema_version m \<noteq> mailbox_schema_version then
       Inl (UnsupportedMessageSchema (mm_schema_version m))
     else if length ds \<noteq> 1 then Inl NotExactlyOneDelivery
     else if mm_task_id m = [] \<or> mm_workspace_path m = [] \<or> mm_idempotency_key m = [] then
       Inl MissingScopeOrKey
     else validate_deliveries m [] ds)"

definition write_mailbox_message :: "mailbox_message \<Rightarrow> mailbox_db \<Rightarrow> store_error + mailbox_db" where
  \<comment> \<open>primary key, the two unique indexes, and the foreign key of \<open>reply_to_message_id\<close>\<close>
  "write_mailbox_message m db =
    (if mm_message_id m \<in> mm_message_id ` set (db_messages db) then Inl ConstraintViolation
     else if (mm_task_id m, mm_from_role_id m, mm_idempotency_key m)
       \<in> (\<lambda>x. (mm_task_id x, mm_from_role_id x, mm_idempotency_key x)) ` set (db_messages db)
       then Inl ConstraintViolation
     else if mm_reply_to m \<noteq> None \<and> mm_reply_to m \<in> mm_reply_to ` set (db_messages db) then
       Inl ConstraintViolation
     else if mm_reply_to m \<noteq> None \<and>
       the (mm_reply_to m) \<notin> insert (mm_message_id m) (mm_message_id ` set (db_messages db)) then
       Inl ConstraintViolation
     else Inr (db\<lparr>db_messages := db_messages db @ [m]\<rparr>))"

definition write_mailbox_delivery :: "mailbox_delivery \<Rightarrow> mailbox_db \<Rightarrow> store_error + mailbox_db" where
  "write_mailbox_delivery d db =
    (if md_delivery_id d \<in> md_delivery_id ` set (db_deliveries db) then Inl ConstraintViolation
     else if md_message_id d \<notin> mm_message_id ` set (db_messages db) then Inl ConstraintViolation
     else if md_last_delivery_event_id d \<noteq> None \<and>
       the (md_last_delivery_event_id d) \<notin> set (db_event_ids db) then Inl ConstraintViolation
     else Inr (db\<lparr>db_deliveries := db_deliveries db @ [d]\<rparr>))"

fun write_mailbox_deliveries :: "mailbox_delivery list \<Rightarrow> mailbox_db \<Rightarrow> store_error + mailbox_db" where
  "write_mailbox_deliveries [] db = Inr db"
| "write_mailbox_deliveries (d # ds) db =
     bindR (write_mailbox_delivery d db) (write_mailbox_deliveries ds)"

definition save_mailbox_message ::
  "mailbox_message \<Rightarrow> mailbox_delivery list \<Rightarrow> mailbox_db \<Rightarrow> store_error + mailbox_db" where
  "save_mailbox_message m ds db =
    bindR (validate_mailbox_write m ds) (\<lambda>_.
      bindR (write_mailbox_message m db) (write_mailbox_deliveries ds))"

definition update_delivery ::
  "ident \<Rightarrow> (mailbox_delivery \<Rightarrow> mailbox_delivery) \<Rightarrow> mailbox_db \<Rightarrow> mailbox_db" where
  \<comment> \<open>\<open>UPDATE deliveries SET ... WHERE delivery_id = ?\<close>\<close>
  "update_delivery i f db =
    db\<lparr>db_deliveries := map (\<lambda>d. if md_delivery_id d = i then f d else d) (db_deliveries db)\<rparr>"

definition assert_recipient :: "mailbox_delivery \<Rightarrow> ident \<Rightarrow> store_error + unit" where
  "assert_recipient d role = ensure (md_recipient_role_id d = role) (OtherRecipient (md_delivery_id d))"

definition mark_delivery_injected ::
  "ident \<Rightarrow> ident \<Rightarrow> ident \<Rightarrow> timestamp \<Rightarrow> mailbox_db \<Rightarrow> store_error + mailbox_delivery \<times> mailbox_db" where
  "mark_delivery_injected i role session now db =
    bindR (require_mailbox_delivery db i) (\<lambda>d.
      bindR (assert_recipient d role) (\<lambda>_.
        if md_status d \<in> {MbInjected, MbAcknowledged} then
          (if md_recipient_session_id d \<noteq> Some session then Inl (InjectedIntoOtherSession i)
           else Inr (d, db))
        else if md_status d \<noteq> MbPending then Inl (CannotInjectFrom i (md_status d))
        else
          (let db' = update_delivery i (\<lambda>d. d\<lparr>md_status := MbInjected,
               md_recipient_session_id := Some session,
               md_injected_at := Some (or_default (md_injected_at d) now),
               md_last_error := None, md_updated_at := now\<rparr>) db
           in bindR (require_mailbox_delivery db' i) (\<lambda>d'. Inr (d', db')))))"

definition mark_delivery_failed ::
  "ident \<Rightarrow> timestamp \<Rightarrow> mailbox_error_info \<Rightarrow> mailbox_db \<Rightarrow> store_error + mailbox_delivery \<times> mailbox_db"
  where
  "mark_delivery_failed i now err db =
    (case find_delivery db i of
       Some d \<Rightarrow>
         if md_status d \<in> {MbPending, MbInjected} then
           (let db' = update_delivery i (\<lambda>d. d\<lparr>md_status := MbFailed, md_last_error := Some err,
                md_updated_at := now\<rparr>) db
            in bindR (require_mailbox_delivery db' i) (\<lambda>d'. Inr (d', db')))
         else Inl (PendingDeliveryNotFound i)
     | None \<Rightarrow> Inl (PendingDeliveryNotFound i))"

definition acknowledged :: "timestamp \<Rightarrow> mailbox_delivery \<Rightarrow> mailbox_delivery" where
  "acknowledged now d =
    d\<lparr>md_status := MbAcknowledged, md_acknowledged_at := Some now, md_updated_at := now\<rparr>"

definition acknowledge_delivery ::
  "ident \<Rightarrow> ident \<Rightarrow> timestamp \<Rightarrow> mailbox_db \<Rightarrow> store_error + mailbox_delivery \<times> mailbox_db" where
  "acknowledge_delivery i role now db =
    bindR (require_mailbox_delivery db i) (\<lambda>d.
      bindR (assert_recipient d role) (\<lambda>_.
        if md_status d = MbPending then Inl (NotInjectedBeforeAck i)
        else if md_status d = MbFailed then Inl (FailedCannotBeAcknowledged i)
        else
          (let db' = (if md_status d = MbInjected then update_delivery i (acknowledged now) db else db)
           in bindR (require_mailbox_delivery db' i) (\<lambda>d'. Inr (d', db')))))"

definition save_mailbox_reply ::
  "ident \<Rightarrow> ident \<Rightarrow> mailbox_message \<Rightarrow> mailbox_delivery list \<Rightarrow> timestamp \<Rightarrow> mailbox_db
    \<Rightarrow> store_error + mailbox_delivery \<times> mailbox_db" where
  "save_mailbox_reply source role m ds now db =
    bindR (validate_mailbox_write m ds) (\<lambda>_.
      bindR (require_mailbox_delivery db source) (\<lambda>src.
        bindR (assert_recipient src role) (\<lambda>_.
          if md_status src = MbPending then Inl (NotInjectedBeforeReply source)
          else if md_status src = MbFailed then Inl (FailedCannotBeRepliedTo source)
          else if mm_reply_to m \<noteq> Some (md_message_id src) then Inl ReplyToOtherMessage
          else
            (let db1 = (if md_status src = MbInjected then update_delivery source (acknowledged now) db
                        else db)
             in bindR (write_mailbox_message m db1) (\<lambda>db2.
                  bindR (write_mailbox_deliveries ds db2) (\<lambda>db3.
                    bindR (require_mailbox_delivery db3 source) (\<lambda>src'. Inr (src', db3))))))))"

definition record_delivery_attempt ::
  "ident \<Rightarrow> timestamp \<Rightarrow> mailbox_error_info option \<Rightarrow> mailbox_db
    \<Rightarrow> store_error + mailbox_delivery \<times> mailbox_db" where
  "record_delivery_attempt i now err db =
    (case find_delivery db i of
       Some d \<Rightarrow>
         if md_status d \<in> {MbPending, MbInjected} then
           (let db' = update_delivery i (\<lambda>d. d\<lparr>md_retry_count := md_retry_count d + 1,
                md_last_error := err, md_updated_at := now\<rparr>) db
            in bindR (require_mailbox_delivery db' i) (\<lambda>d'. Inr (d', db')))
         else Inl (ReplayableDeliveryNotFound i)
     | None \<Rightarrow> Inl (ReplayableDeliveryNotFound i))"

end
