(* ===== verification/MailboxService.thy ===== *)
theory MailboxService
  imports MailboxStore
begin

text \<open>
  The mailbox service (\<open>src/mailbox/persistent-mailbox-service.ts\<close>) over the durable store. The
  clock, the identifiers and \<open>JSON.stringify\<close> (used only to turn a legacy payload into a message
  body) are arguments.
\<close>

section \<open>Inputs and errors\<close>

record mailbox_send_input =
  si_task_id :: ident
  si_workspace_path :: string
  si_thread_id :: ident
  si_from_role_id :: ident
  si_to_role_id :: ident
  si_kind :: "message_kind option"
  si_content :: "string option"
  si_type :: "agent_message_type option"
  si_payload :: "(string \<times> json) list option"
  si_artifact_refs :: "string list option"
  si_requires_ack :: "bool option"
  si_deadline_seconds :: "int option"
  si_idempotency_key :: string

record normalized_send =
  ns_task_id :: ident
  ns_workspace_path :: string
  ns_thread_id :: ident
  ns_from_role_id :: ident
  ns_to_role_id :: ident
  ns_kind :: message_kind
  ns_content :: string
  ns_type :: agent_message_type
  ns_payload :: "(string \<times> json) list"
  ns_artifact_refs :: "string list"
  ns_requires_ack :: bool
  ns_deadline_seconds :: "int option"
  ns_idempotency_key :: string

datatype mailbox_error =
    KindRequired
  | ContentRequired
  | AckNeedsDeadline
  | DeadlineNotPositive
  | FieldRequired string
  | SelfSend
  | KeyReusedWithOtherContent
  | KeyOfOtherReply
  | MailboxDeliveryNotFound ident
  | RecipientMismatch ident
  | DeliveryState ident mailbox_status
  | StoreFailure store_error

definition lift_store :: "store_error + 'a \<Rightarrow> mailbox_error + 'a" where
  "lift_store r = (case r of Inl e \<Rightarrow> Inl (StoreFailure e) | Inr x \<Rightarrow> Inr x)"

lemma lift_store_simps [simp]:
  "lift_store (Inl e) = Inl (StoreFailure e)" "lift_store (Inr x) = Inr x"
  "lift_store r = Inr x \<longleftrightarrow> r = Inr x"
  by (simp_all add: lift_store_def split: sum.split)

section \<open>Normalisation and validation\<close>

definition legacy_kind :: "agent_message_type option \<Rightarrow> message_kind option" where
  "legacy_kind t =
    map_option (\<lambda>t. if t \<in> {MsgAskHelp, MsgReviewRequest, MsgProposal, MsgDecisionRequest}
      then KindRequest else KindNotice) t"

definition legacy_content ::
  "((string \<times> json) list \<Rightarrow> string) \<Rightarrow> (string \<times> json) list option \<Rightarrow> string option" where
  "legacy_content stringify payload =
    (case payload of
       None \<Rightarrow> None
     | Some p \<Rightarrow>
         (case json_string (map_of p ''content'') of
            Some c \<Rightarrow> if blank c then Some (stringify p) else Some c
          | None \<Rightarrow> Some (stringify p)))"

definition normalize_send_input ::
  "((string \<times> json) list \<Rightarrow> string) \<Rightarrow> mailbox_send_input \<Rightarrow> mailbox_error + normalized_send" where
  "normalize_send_input stringify inp =
    (let kind = (case si_kind inp of Some k \<Rightarrow> Some k | None \<Rightarrow> legacy_kind (si_type inp));
         content = (case si_content inp of Some c \<Rightarrow> Some c
                    | None \<Rightarrow> legacy_content stringify (si_payload inp))
     in case kind of
          None \<Rightarrow> Inl KindRequired
        | Some k \<Rightarrow>
            (case non_empty content of
               None \<Rightarrow> Inl ContentRequired
             | Some c \<Rightarrow> Inr
                 \<lparr>ns_task_id = si_task_id inp, ns_workspace_path = si_workspace_path inp,
                  ns_thread_id = si_thread_id inp, ns_from_role_id = si_from_role_id inp,
                  ns_to_role_id = si_to_role_id inp, ns_kind = k, ns_content = c,
                  ns_type = or_default (si_type inp)
                    (if k = KindRequest then MsgAskHelp else MsgStatusUpdate),
                  ns_payload = or_default (si_payload inp) [(''content'', JStr c)],
                  ns_artifact_refs = or_default (si_artifact_refs inp) [],
                  ns_requires_ack = or_default (si_requires_ack inp) (k = KindRequest),
                  ns_deadline_seconds = si_deadline_seconds inp,
                  ns_idempotency_key = si_idempotency_key inp\<rparr>))"

definition require_text :: "string \<Rightarrow> string \<Rightarrow> mailbox_error + unit" where
  "require_text v field = ensure (\<not> blank v) (FieldRequired field)"

definition validate_send :: "normalized_send \<Rightarrow> mailbox_error + unit" where
  "validate_send inp =
    (if ns_requires_ack inp \<and> ns_deadline_seconds inp = None then Inl AckNeedsDeadline
     else if (case ns_deadline_seconds inp of None \<Rightarrow> False | Some n \<Rightarrow> n \<le> 0) then
       Inl DeadlineNotPositive
     else
       bindR (require_text (ns_task_id inp) ''task_id'') (\<lambda>_.
       bindR (require_text (ns_workspace_path inp) ''workspace_path'') (\<lambda>_.
       bindR (require_text (ns_from_role_id inp) ''from_role_id'') (\<lambda>_.
       bindR (require_text (ns_to_role_id inp) ''to_role_id'') (\<lambda>_.
       bindR (require_text (ns_idempotency_key inp) ''idempotency_key'') (\<lambda>_.
       bindR (ensure (\<not> blank (ns_content inp)) ContentRequired) (\<lambda>_.
       bindR (require_text (ns_thread_id inp) ''thread_id'') (\<lambda>_.
         ensure (ns_from_role_id inp \<noteq> ns_to_role_id inp) SelfSend))))))))"

section \<open>Messages and deliveries\<close>

definition create_message ::
  "ident \<Rightarrow> normalized_send \<Rightarrow> timestamp \<Rightarrow> ident option \<Rightarrow> mailbox_message" where
  "create_message fresh inp now reply_to =
    \<lparr>mm_message_id = fresh, mm_task_id = ns_task_id inp, mm_workspace_path = ns_workspace_path inp,
     mm_thread_id = ns_thread_id inp, mm_from_role_id = ns_from_role_id inp,
     mm_kind = Some (ns_kind inp), mm_content = Some (ns_content inp), mm_type = ns_type inp,
     mm_payload = ns_payload inp, mm_artifact_refs = ns_artifact_refs inp,
     mm_requires_ack = ns_requires_ack inp, mm_reply_to = non_empty reply_to,
     mm_idempotency_key = ns_idempotency_key inp, mm_created_at = now,
     mm_schema_version = mailbox_schema_version\<rparr>"

definition deadline_of :: "timestamp \<Rightarrow> int option \<Rightarrow> timestamp option" where
  "deadline_of created seconds =
    (case seconds of None \<Rightarrow> None | Some n \<Rightarrow> if n = 0 then None else Some (created + n * 1000))"

definition create_delivery ::
  "ident \<Rightarrow> ident \<Rightarrow> normalized_send \<Rightarrow> timestamp \<Rightarrow> mailbox_delivery" where
  "create_delivery fresh message_id inp now =
    \<lparr>md_delivery_id = fresh, md_message_id = message_id, md_task_id = ns_task_id inp,
     md_workspace_path = ns_workspace_path inp, md_recipient_role_id = ns_to_role_id inp,
     md_recipient_session_id = None, md_status = MbPending,
     md_deadline_at = deadline_of now (ns_deadline_seconds inp), md_injected_at = None,
     md_acknowledged_at = None, md_retry_count = 0, md_last_error = None,
     md_last_delivery_event_id = None, md_replay_cursor = None, md_created_at = now,
     md_updated_at = now, md_schema_version = mailbox_schema_version\<rparr>"

definition same_send :: "mailbox_message \<Rightarrow> mailbox_delivery list \<Rightarrow> normalized_send \<Rightarrow> bool" where
  \<comment> \<open>the negated disjunction of \<open>assertIdempotentReplay\<close>\<close>
  "same_send m ds inp \<longleftrightarrow>
     mm_workspace_path m = ns_workspace_path inp \<and> mm_thread_id m = ns_thread_id inp \<and>
     mm_from_role_id m = ns_from_role_id inp \<and> mm_kind m = Some (ns_kind inp) \<and>
     mm_content m = Some (ns_content inp) \<and> mm_type m = ns_type inp \<and>
     mm_payload m = ns_payload inp \<and> mm_artifact_refs m = ns_artifact_refs inp \<and>
     mm_requires_ack m = ns_requires_ack inp \<and>
     (case ds of
        [] \<Rightarrow> False
      | d # _ \<Rightarrow> md_recipient_role_id d = ns_to_role_id inp \<and>
          md_deadline_at d = deadline_of (mm_created_at m) (ns_deadline_seconds inp))"

definition assert_idempotent_replay ::
  "mailbox_message \<Rightarrow> mailbox_delivery list \<Rightarrow> normalized_send \<Rightarrow> mailbox_error + unit" where
  "assert_idempotent_replay m ds inp = ensure (same_send m ds inp) KeyReusedWithOtherContent"

definition require_delivery :: "mailbox_db \<Rightarrow> ident \<Rightarrow> mailbox_error + mailbox_envelope" where
  "require_delivery db i =
    bindR (lift_store (get_mailbox_envelope db i)) (\<lambda>e.
      case e of None \<Rightarrow> Inl (MailboxDeliveryNotFound i) | Some env \<Rightarrow> Inr env)"

definition assert_service_recipient :: "mailbox_delivery \<Rightarrow> ident \<Rightarrow> mailbox_error + unit" where
  "assert_service_recipient d role =
    ensure (md_recipient_role_id d = role) (RecipientMismatch (md_delivery_id d))"

section \<open>Operations\<close>

record mailbox_fresh =
  mf_message_id :: ident
  mf_delivery_id :: ident
  mf_now :: timestamp

definition send ::
  "((string \<times> json) list \<Rightarrow> string) \<Rightarrow> mailbox_fresh \<Rightarrow> mailbox_send_input \<Rightarrow> mailbox_db
    \<Rightarrow> mailbox_error + (mailbox_message \<times> mailbox_delivery list) \<times> mailbox_db" where
  "send stringify fr inp db =
    bindR (normalize_send_input stringify inp) (\<lambda>n.
      bindR (validate_send n) (\<lambda>_.
        case find_send_by_key db (ns_task_id n) (ns_from_role_id n) (ns_idempotency_key n) of
          Some (m, ds) \<Rightarrow> bindR (assert_idempotent_replay m ds n) (\<lambda>_. Inr ((m, ds), db))
        | None \<Rightarrow>
            (let m = create_message (mf_message_id fr) n (mf_now fr) None;
                 d = create_delivery (mf_delivery_id fr) (mm_message_id m) n (mf_now fr)
             in bindR (lift_store (save_mailbox_message m [d] db)) (\<lambda>db'. Inr ((m, [d]), db')))))"

definition inbox ::
  "mailbox_db \<Rightarrow> ident \<Rightarrow> string \<Rightarrow> ident \<Rightarrow> ident option \<Rightarrow> mailbox_error + mailbox_envelope list" where
  "inbox db task ws role after =
    bindR (require_text task ''task_id'') (\<lambda>_.
    bindR (require_text ws ''workspace_path'') (\<lambda>_.
    bindR (require_text role ''recipient_role_id'') (\<lambda>_.
      lift_store (list_mailbox_inbox db task ws role after))))"

definition mark_injected ::
  "ident \<Rightarrow> ident \<Rightarrow> ident \<Rightarrow> timestamp \<Rightarrow> mailbox_db \<Rightarrow> mailbox_error + mailbox_delivery \<times> mailbox_db"
  where
  "mark_injected i role session now db =
    bindR (require_text role ''recipient_role_id'') (\<lambda>_.
    bindR (require_text session ''recipient_session_id'') (\<lambda>_.
      lift_store (mark_delivery_injected i role session now db)))"

definition mark_failed ::
  "ident \<Rightarrow> mailbox_error_info \<Rightarrow> timestamp \<Rightarrow> mailbox_db \<Rightarrow> mailbox_error + mailbox_delivery \<times> mailbox_db"
  where
  "mark_failed i err now db = lift_store (mark_delivery_failed i now err db)"

definition record_attempt ::
  "ident \<Rightarrow> mailbox_error_info option \<Rightarrow> timestamp \<Rightarrow> mailbox_db
    \<Rightarrow> mailbox_error + mailbox_delivery \<times> mailbox_db" where
  "record_attempt i err now db = lift_store (record_delivery_attempt i now err db)"

definition ack ::
  "ident \<Rightarrow> ident \<Rightarrow> timestamp \<Rightarrow> mailbox_db \<Rightarrow> mailbox_error + mailbox_delivery \<times> mailbox_db" where
  "ack i role now db =
    bindR (require_delivery db i) (\<lambda>env.
      bindR (assert_service_recipient (ev_delivery env) role) (\<lambda>_.
        if md_status (ev_delivery env) = MbPending
        then Inl (DeliveryState i (md_status (ev_delivery env)))
        else lift_store (acknowledge_delivery i role now db)))"

record mailbox_reply_input =
  ri_source_delivery_id :: ident
  ri_send :: mailbox_send_input
    \<comment> \<open>the inherited fields; task, workspace, thread and recipient come from the source\<close>

definition reply_to_source ::
  "mailbox_fresh \<Rightarrow> mailbox_reply_input \<Rightarrow> mailbox_envelope \<Rightarrow> normalized_send \<Rightarrow> mailbox_db
    \<Rightarrow> mailbox_error + (mailbox_delivery \<times> mailbox_message \<times> mailbox_delivery list) \<times> mailbox_db" where
  \<comment> \<open>the part of \<open>reply\<close> after validation\<close>
  "reply_to_source fr inp source n db =
    (case find_send_by_key db (mm_task_id (ev_message source)) (si_from_role_id (ri_send inp))
            (si_idempotency_key (ri_send inp)) of
       Some (m, ds) \<Rightarrow>
         bindR (assert_idempotent_replay m ds n) (\<lambda>_.
           if mm_reply_to m \<noteq> Some (mm_message_id (ev_message source)) then Inl KeyOfOtherReply
           else Inr ((ev_delivery source, m, ds), db))
     | None \<Rightarrow>
         if md_status (ev_delivery source) = MbPending then
           Inl (DeliveryState (ri_source_delivery_id inp) (md_status (ev_delivery source)))
         else
           (let m = create_message (mf_message_id fr) n (mf_now fr)
                      (Some (mm_message_id (ev_message source)));
                d = create_delivery (mf_delivery_id fr) (mm_message_id m) n (mf_now fr)
            in bindR (lift_store (save_mailbox_reply (ri_source_delivery_id inp)
                 (si_from_role_id (ri_send inp)) m [d] (mf_now fr) db)) (\<lambda>(src, db').
                 Inr ((src, m, [d]), db'))))"

definition reply ::
  "((string \<times> json) list \<Rightarrow> string) \<Rightarrow> mailbox_fresh \<Rightarrow> mailbox_reply_input \<Rightarrow> mailbox_db
    \<Rightarrow> mailbox_error + (mailbox_delivery \<times> mailbox_message \<times> mailbox_delivery list) \<times> mailbox_db" where
  "reply stringify fr inp db =
    bindR (require_delivery db (ri_source_delivery_id inp)) (\<lambda>source.
      bindR (assert_service_recipient (ev_delivery source) (si_from_role_id (ri_send inp))) (\<lambda>_.
        bindR (normalize_send_input stringify ((ri_send inp)
                \<lparr>si_task_id := mm_task_id (ev_message source),
                 si_workspace_path := mm_workspace_path (ev_message source),
                 si_thread_id := mm_thread_id (ev_message source),
                 si_to_role_id := mm_from_role_id (ev_message source)\<rparr>)) (\<lambda>n.
          bindR (validate_send n) (\<lambda>_. reply_to_source fr inp source n db))))"

definition replay_pending_deliveries :: "mailbox_db \<Rightarrow> mailbox_error + mailbox_envelope list" where
  "replay_pending_deliveries db = lift_store (list_replayable_deliveries db None None None)"

definition find_reply_delivery ::
  "mailbox_db \<Rightarrow> ident \<Rightarrow> ident \<Rightarrow> mailbox_error + mailbox_envelope option" where
  "find_reply_delivery db source role =
    bindR (require_delivery db source) (\<lambda>s.
      bindR (lift_store (list_mailbox_inbox db (mm_task_id (ev_message s))
              (mm_workspace_path (ev_message s)) role None)) (\<lambda>es.
        Inr (find (\<lambda>c. mm_reply_to (ev_message c) = Some (mm_message_id (ev_message s)) \<and>
               mm_thread_id (ev_message c) = mm_thread_id (ev_message s)) es)))"

end
