(* ===== verification/MailboxInvariant.thy ===== *)
theory MailboxInvariant
  imports MailboxService
begin

text \<open>
  What holds of the mailbox in every reachable state: the rows of the two tables are aligned (each
  message has exactly one delivery, in its scope and not to its own sender), keys are unique, a
  message is replied to at most once and only by its recipient, and a delivery that was replied
  to is acknowledged. Rows only grow: the identity of a row never changes.
\<close>

section \<open>The invariant\<close>

definition delivery_status_wf :: "mailbox_delivery \<Rightarrow> bool" where
  "delivery_status_wf d \<longleftrightarrow>
     (md_status d = MbPending \<longrightarrow> md_recipient_session_id d = None \<and> md_injected_at d = None) \<and>
     (md_status d \<in> {MbInjected, MbAcknowledged} \<longrightarrow>
        md_recipient_session_id d \<noteq> None \<and> md_injected_at d \<noteq> None) \<and>
     (md_status d = MbAcknowledged \<longleftrightarrow> md_acknowledged_at d \<noteq> None)"

definition belongs :: "mailbox_message \<Rightarrow> mailbox_delivery \<Rightarrow> bool" where
  "belongs m d \<longleftrightarrow>
     md_message_id d = mm_message_id m \<and> md_task_id d = mm_task_id m \<and>
     md_workspace_path d = mm_workspace_path m \<and> md_recipient_role_id d \<noteq> mm_from_role_id m"

definition send_key :: "mailbox_message \<Rightarrow> ident \<times> ident \<times> string" where
  "send_key m = (mm_task_id m, mm_from_role_id m, mm_idempotency_key m)"

definition replied_by :: "mailbox_db \<Rightarrow> mailbox_message \<Rightarrow> mailbox_delivery \<Rightarrow> bool" where
  \<comment> \<open>delivery \<open>d\<close> carries the message that \<open>m\<close> replies to\<close>
  "replied_by db m d \<longleftrightarrow> d \<in> set (db_deliveries db) \<and> mm_reply_to m = Some (md_message_id d)"

definition mailbox_inv :: "mailbox_db \<Rightarrow> bool" where
  "mailbox_inv db \<longleftrightarrow>
     distinct (map mm_message_id (db_messages db)) \<and>
     distinct (map send_key (db_messages db)) \<and>
     distinct (List.map_filter mm_reply_to (db_messages db)) \<and>
     distinct (map md_delivery_id (db_deliveries db)) \<and>
     list_all2 belongs (db_messages db) (db_deliveries db) \<and>
     (\<forall>d \<in> set (db_deliveries db). delivery_status_wf d) \<and>
     (\<forall>m \<in> set (db_messages db). mm_reply_to m \<noteq> None \<longrightarrow>
        (\<exists>d. replied_by db m d \<and> md_status d = MbAcknowledged \<and>
             mm_from_role_id m = md_recipient_role_id d))"

text \<open>The fields of a delivery that no operation changes.\<close>

definition same_delivery :: "mailbox_delivery \<Rightarrow> mailbox_delivery \<Rightarrow> bool" where
  "same_delivery d e \<longleftrightarrow>
     md_delivery_id d = md_delivery_id e \<and> md_message_id d = md_message_id e \<and>
     md_task_id d = md_task_id e \<and> md_workspace_path d = md_workspace_path e \<and>
     md_recipient_role_id d = md_recipient_role_id e \<and> md_deadline_at d = md_deadline_at e \<and>
     md_created_at d = md_created_at e"

lemma same_delivery_refl [simp]: "same_delivery d d"
  by (simp add: same_delivery_def)

lemma same_delivery_trans: "same_delivery a b \<Longrightarrow> same_delivery b c \<Longrightarrow> same_delivery a c"
  by (simp add: same_delivery_def)

lemma belongs_same: "same_delivery d e \<Longrightarrow> belongs m e \<longleftrightarrow> belongs m d"
  by (simp add: belongs_def same_delivery_def)

section \<open>Updates of one row\<close>

lemma find_delivery_Some:
  "find_delivery db i = Some d \<Longrightarrow> d \<in> set (db_deliveries db) \<and> md_delivery_id d = i"
  by (auto simp: find_delivery_def find_Some_iff)

lemma find_delivery_unique:
  assumes "distinct (map md_delivery_id (db_deliveries db))" and "d \<in> set (db_deliveries db)"
  shows "find_delivery db (md_delivery_id d) = Some d"
proof -
  obtain d' where d': "find_delivery db (md_delivery_id d) = Some d'"
    using assms(2) by (cases "find_delivery db (md_delivery_id d)") (auto simp: find_delivery_def find_None_iff)
  with find_delivery_Some[OF d'] assms show ?thesis
    by (metis distinct_map inj_onD)
qed

lemma find_update_delivery:
  assumes "find_delivery db i = Some d" and "md_delivery_id (f d) = i"
  shows "find_delivery (update_delivery i f db) i = Some (f d)"
proof -
  have "find (\<lambda>d. md_delivery_id d = i) (map (\<lambda>d. if md_delivery_id d = i then f d else d) ds) = Some (f d)"
    if "find (\<lambda>d. md_delivery_id d = i) ds = Some d" for ds
    using that assms(2) by (induction ds) (auto split: if_splits)
  with assms(1) show ?thesis by (simp add: find_delivery_def update_delivery_def)
qed

lemma update_delivery_inv:
  assumes inv: "mailbox_inv db" and d: "find_delivery db i = Some d"
    and same: "\<And>x. same_delivery x (f x)" and wf: "delivery_status_wf (f d)"
    and final: "md_status d = MbAcknowledged \<Longrightarrow> md_status (f d) = MbAcknowledged"
  shows "mailbox_inv (update_delivery i f db)"
proof -
  let ?g = "\<lambda>x. if md_delivery_id x = i then f x else x"
  have g: "same_delivery x (?g x)" for x using same by simp
  have dist: "distinct (map md_delivery_id (db_deliveries db))" using inv by (simp add: mailbox_inv_def)
  have only: "x = d" if "x \<in> set (db_deliveries db)" "md_delivery_id x = i" for x
    using find_delivery_unique[OF dist that(1)] d that(2) by simp
  have ids: "map md_delivery_id (map ?g ds) = map md_delivery_id ds" for ds
    using g by (induction ds) (auto simp: same_delivery_def)
  have all2: "list_all2 belongs ms (map ?g ds) \<longleftrightarrow> list_all2 belongs ms ds" for ms ds
    unfolding list_all2_map2 by (simp only: belongs_same[OF g])
  have status: "delivery_status_wf (?g x)" if "x \<in> set (db_deliveries db)" for x
    using that only wf inv by (auto simp: mailbox_inv_def)
  have ack: "md_status (?g x) = MbAcknowledged" if "x \<in> set (db_deliveries db)" "md_status x = MbAcknowledged" for x
    using that only final by auto
  have replied: "\<exists>e. replied_by (update_delivery i f db) m e \<and> md_status e = MbAcknowledged \<and>
      mm_from_role_id m = md_recipient_role_id e"
    if "replied_by db m x" "md_status x = MbAcknowledged" "mm_from_role_id m = md_recipient_role_id x" for m x
    using that ack[of x] g[of x]
    by (intro exI[of _ "?g x"]) (auto simp: replied_by_def update_delivery_def same_delivery_def)
  let ?db = "update_delivery i f db"
  have parts: "db_messages ?db = db_messages db" "db_deliveries ?db = map ?g (db_deliveries db)"
    by (simp_all add: update_delivery_def)
  have "\<exists>e. replied_by ?db m e \<and> md_status e = MbAcknowledged \<and> mm_from_role_id m = md_recipient_role_id e"
    if "m \<in> set (db_messages db)" "mm_reply_to m \<noteq> None" for m
    using that inv replied[of m] unfolding mailbox_inv_def by blast
  moreover have "\<forall>x \<in> set (db_deliveries ?db). delivery_status_wf x"
    unfolding parts set_map using status by blast
  ultimately show ?thesis
    using inv unfolding mailbox_inv_def parts ids all2 by blast
qed

section \<open>A message and its delivery\<close>

lemma save_single:
  assumes "bindR (write_mailbox_message m db) (write_mailbox_deliveries [d]) = Inr db'"
  shows "db' = db\<lparr>db_messages := db_messages db @ [m], db_deliveries := db_deliveries db @ [d]\<rparr> \<and>
    mm_message_id m \<notin> mm_message_id ` set (db_messages db) \<and>
    send_key m \<notin> send_key ` set (db_messages db) \<and>
    (mm_reply_to m \<noteq> None \<longrightarrow> mm_reply_to m \<notin> mm_reply_to ` set (db_messages db)) \<and>
    md_delivery_id d \<notin> md_delivery_id ` set (db_deliveries db)"
  using assms
  by (auto simp: write_mailbox_message_def write_mailbox_delivery_def bindR_eq_Inr_conv send_key_def
      split: if_splits)

lemma validate_single:
  assumes "validate_mailbox_write m [d] = Inr u"
  shows "md_message_id d = mm_message_id m \<and> md_task_id d = mm_task_id m \<and>
    md_workspace_path d = mm_workspace_path m \<and> md_status d = MbPending"
  using assms by (auto simp: validate_mailbox_write_def split: if_splits)

lemma map_filter_append_single:
  "List.map_filter f (xs @ [x]) = List.map_filter f xs @ (case f x of None \<Rightarrow> [] | Some y \<Rightarrow> [y])"
  by (induction xs) (auto simp: List.map_filter_simps split: option.split)

lemma set_map_filter_iff: "y \<in> set (List.map_filter f xs) \<longleftrightarrow> Some y \<in> f ` set xs"
  by (induction xs) (auto simp: List.map_filter_simps split: option.split)

lemma append_inv:
  assumes inv: "mailbox_inv db"
    and run: "bindR (write_mailbox_message m db) (write_mailbox_deliveries [d]) = Inr db'"
    and bel: "belongs m d" and wf: "delivery_status_wf d"
    and rep: "\<And>p. mm_reply_to m = Some p \<Longrightarrow>
      \<exists>e \<in> set (db_deliveries db). md_message_id e = p \<and> md_status e = MbAcknowledged \<and>
        mm_from_role_id m = md_recipient_role_id e"
  shows "mailbox_inv db'"
proof -
  note save = save_single[OF run]
  let ?db = "db\<lparr>db_messages := db_messages db @ [m], db_deliveries := db_deliveries db @ [d]\<rparr>"
  have keys: "distinct (map mm_message_id (db_messages ?db))" "distinct (map send_key (db_messages ?db))"
    "distinct (map md_delivery_id (db_deliveries ?db))"
    using inv save by (auto simp: mailbox_inv_def)
  have replies: "distinct (List.map_filter mm_reply_to (db_messages ?db))"
    using inv save
    by (cases "mm_reply_to m")
      (auto simp: mailbox_inv_def map_filter_append_single set_map_filter_iff)
  have all2: "list_all2 belongs (db_messages ?db) (db_deliveries ?db)"
    using inv bel by (simp add: mailbox_inv_def list_all2_appendI)
  have old: "\<exists>e. replied_by ?db x e \<and> md_status e = MbAcknowledged \<and> mm_from_role_id x = md_recipient_role_id e"
    if "x \<in> set (db_messages db)" "mm_reply_to x \<noteq> None" for x
    using that inv by (auto simp: mailbox_inv_def replied_by_def)
  have new: "\<exists>e. replied_by ?db m e \<and> md_status e = MbAcknowledged \<and> mm_from_role_id m = md_recipient_role_id e"
    if "mm_reply_to m \<noteq> None"
    using that rep by (auto simp: replied_by_def)
  have "mailbox_inv ?db"
    unfolding mailbox_inv_def
    using keys replies all2 old new inv wf by (auto simp: mailbox_inv_def)
  with save show ?thesis by simp
qed

section \<open>Rows only grow\<close>

definition extends :: "mailbox_db \<Rightarrow> mailbox_db \<Rightarrow> bool" where
  "extends db db' \<longleftrightarrow>
     (\<exists>ms. db_messages db' = db_messages db @ ms) \<and>
     (\<exists>ds es. db_deliveries db' = ds @ es \<and> list_all2 same_delivery (db_deliveries db) ds)"

lemma list_all2_same_refl: "list_all2 same_delivery ds ds"
  by (simp add: list.rel_refl)

lemma extends_refl [simp]: "extends db db"
  unfolding extends_def using list_all2_same_refl by (metis append_Nil2)

lemma extends_trans:
  assumes "extends a b" and "extends b c"
  shows "extends a c"
proof -
  from assms(1) obtain ms ds es where ab: "db_messages b = db_messages a @ ms"
    "db_deliveries b = ds @ es" "list_all2 same_delivery (db_deliveries a) ds"
    by (auto simp: extends_def)
  from assms(2) obtain ms' ds' es' where bc: "db_messages c = db_messages b @ ms'"
    "db_deliveries c = ds' @ es'" "list_all2 same_delivery (db_deliveries b) ds'"
    by (auto simp: extends_def)
  from bc(3) ab(2) obtain u v where uv: "ds' = u @ v" "list_all2 same_delivery ds u"
    by (auto simp: list_all2_append1)
  have "list_all2 same_delivery (db_deliveries a) u"
    using list_all2_trans[of same_delivery same_delivery same_delivery, OF _ ab(3) uv(2)]
      same_delivery_trans by blast
  with ab(1) bc(1,2) uv(1) show ?thesis
    by (auto simp: extends_def)
qed

lemma extends_update:
  assumes "\<And>x. same_delivery x (f x)"
  shows "extends db (update_delivery i f db)"
proof -
  let ?ds = "map (\<lambda>x. if md_delivery_id x = i then f x else x) (db_deliveries db)"
  have "list_all2 same_delivery (db_deliveries db) ?ds"
    unfolding list_all2_map2 using assms by (auto intro!: list.rel_refl_strong)
  then have "\<exists>ds es. db_deliveries (update_delivery i f db) = ds @ es \<and>
      list_all2 same_delivery (db_deliveries db) ds"
    by - (rule exI[of _ ?ds], rule exI[of _ "[]"], simp add: update_delivery_def)
  then show ?thesis by (simp add: extends_def update_delivery_def)
qed

lemma extends_append:
  "extends db (db\<lparr>db_messages := db_messages db @ ms, db_deliveries := db_deliveries db @ ds\<rparr>)"
  using list_all2_same_refl by (auto simp: extends_def)

section \<open>Every operation keeps the invariant\<close>

definition good_step :: "mailbox_db \<Rightarrow> mailbox_db \<Rightarrow> bool" where
  "good_step db db' \<longleftrightarrow> extends db db' \<and> (mailbox_inv db \<longrightarrow> mailbox_inv db')"

lemma good_step_refl [simp]: "good_step db db"
  by (simp add: good_step_def)

lemma good_step_trans: "good_step a b \<Longrightarrow> good_step b c \<Longrightarrow> good_step a c"
  using extends_trans by (auto simp: good_step_def)

lemma good_step_update:
  assumes "find_delivery db i = Some d" and "\<And>x. same_delivery x (f x)"
    and "delivery_status_wf d \<Longrightarrow> delivery_status_wf (f d)"
    and "md_status d = MbAcknowledged \<Longrightarrow> md_status (f d) = MbAcknowledged"
  shows "good_step db (update_delivery i f db)"
proof -
  have "mailbox_inv db \<Longrightarrow> delivery_status_wf d"
    using find_delivery_Some[OF assms(1)] by (simp add: mailbox_inv_def)
  then show ?thesis
    using update_delivery_inv[OF _ assms(1,2) _ assms(4)] assms(3) extends_update[of f, OF assms(2)]
    by (auto simp: good_step_def)
qed

lemma require_Inr [simp]:
  "require_mailbox_delivery db i = Inr d \<longleftrightarrow> find_delivery db i = Some d"
  by (simp add: require_mailbox_delivery_def split: option.split)

lemma assert_recipient_Inr [simp]:
  "assert_recipient d role = Inr u \<longleftrightarrow> md_recipient_role_id d = role"
  "assert_service_recipient d role = Inr u \<longleftrightarrow> md_recipient_role_id d = role"
  by (simp_all add: assert_recipient_def assert_service_recipient_def)

lemma injected_step:
  "mark_delivery_injected i role session now db = Inr (d', db') \<Longrightarrow> good_step db db'"
  by (auto simp: mark_delivery_injected_def bindR_eq_Inr_conv Let_def split: if_splits
      intro!: good_step_update)
    (auto simp: same_delivery_def delivery_status_wf_def)

lemma failed_step: "mark_delivery_failed i now err db = Inr (d', db') \<Longrightarrow> good_step db db'"
  by (auto simp: mark_delivery_failed_def bindR_eq_Inr_conv Let_def split: if_splits option.splits
      intro!: good_step_update)
    (auto simp: same_delivery_def delivery_status_wf_def)

lemma attempt_step: "record_delivery_attempt i now err db = Inr (d', db') \<Longrightarrow> good_step db db'"
  by (auto simp: record_delivery_attempt_def bindR_eq_Inr_conv Let_def split: if_splits option.splits
      intro!: good_step_update)
    (auto simp: same_delivery_def delivery_status_wf_def)

lemma acknowledged_good_step:
  assumes "find_delivery db i = Some d" and "md_status d = MbInjected"
  shows "good_step db (update_delivery i (acknowledged now) db)"
  by (rule good_step_update[OF assms(1)])
    (auto simp: acknowledged_def same_delivery_def delivery_status_wf_def assms(2))

lemma ack_step: "acknowledge_delivery i role now db = Inr (d', db') \<Longrightarrow> good_step db db'"
  by (auto simp: acknowledge_delivery_def bindR_eq_Inr_conv Let_def split: if_splits
      intro: acknowledged_good_step)

lemma append_good_step:
  assumes run: "bindR (write_mailbox_message m db) (write_mailbox_deliveries [d]) = Inr db'"
    and "mailbox_inv db \<Longrightarrow> mailbox_inv db'"
  shows "good_step db db'"
proof -
  have "extends db db'"
    using save_single[OF run] extends_append[of db "[d]" "[m]"] by simp
  with assms(2) show ?thesis by (simp add: good_step_def)
qed

lemma create_message_simps:
  "mm_message_id (create_message i n now r) = i"
  "mm_reply_to (create_message i n now r) = non_empty r"
  "mm_from_role_id (create_message i n now r) = ns_from_role_id n"
  "send_key (create_message i n now r) = (ns_task_id n, ns_from_role_id n, ns_idempotency_key n)"
  "mm_created_at (create_message i n now r) = now"
  by (simp_all add: create_message_def send_key_def)

lemma create_belongs:
  "ns_from_role_id n \<noteq> ns_to_role_id n \<Longrightarrow>
   belongs (create_message mid n now r) (create_delivery did mid n now)"
  "delivery_status_wf (create_delivery did mid n now)"
  by (auto simp: belongs_def create_message_def create_delivery_def delivery_status_wf_def)

lemma validate_send_distinct: "validate_send n = Inr u \<Longrightarrow> ns_from_role_id n \<noteq> ns_to_role_id n"
  by (auto simp: validate_send_def bindR_eq_Inr_conv split: if_splits)

lemma validate_send_key:
  "validate_send n = Inr u \<Longrightarrow> \<not> blank (ns_task_id n) \<and> \<not> blank (ns_idempotency_key n)"
  by (auto simp: validate_send_def bindR_eq_Inr_conv require_text_def split: if_splits)

lemma save_message_step:
  assumes "save_mailbox_message (create_message mid n now None) [create_delivery did mid n now] db = Inr db'"
    and "ns_from_role_id n \<noteq> ns_to_role_id n"
  shows "good_step db db'"
proof -
  have run: "bindR (write_mailbox_message (create_message mid n now None) db)
      (write_mailbox_deliveries [create_delivery did mid n now]) = Inr db'"
    using assms(1) by (auto simp: save_mailbox_message_def bindR_eq_Inr_conv)
  show ?thesis
    by (rule append_good_step[OF run], rule append_inv[OF _ run])
      (use create_belongs assms(2) in \<open>auto simp: create_message_simps\<close>)
qed

definition send_outcome ::
  "mailbox_fresh \<Rightarrow> normalized_send \<Rightarrow> mailbox_db \<Rightarrow> mailbox_message \<times> mailbox_delivery list
    \<Rightarrow> mailbox_db \<Rightarrow> bool" where
  "send_outcome fr n db out db' \<longleftrightarrow>
    (case find_send_by_key db (ns_task_id n) (ns_from_role_id n) (ns_idempotency_key n) of
       Some sent \<Rightarrow> out = sent \<and> same_send (fst sent) (snd sent) n \<and> db' = db
     | None \<Rightarrow>
         (let m = create_message (mf_message_id fr) n (mf_now fr) None;
              d = create_delivery (mf_delivery_id fr) (mf_message_id fr) n (mf_now fr)
          in out = (m, [d]) \<and> save_mailbox_message m [d] db = Inr db'))"

lemma send_Inr_iff:
  "send stringify fr inp db = Inr (out, db') \<longleftrightarrow>
    (\<exists>n. normalize_send_input stringify inp = Inr n \<and> validate_send n = Inr () \<and>
         send_outcome fr n db out db')"
proof -
  have "bindR (validate_send n) (\<lambda>_.
        case find_send_by_key db (ns_task_id n) (ns_from_role_id n) (ns_idempotency_key n) of
          Some (m, ds) \<Rightarrow> bindR (assert_idempotent_replay m ds n) (\<lambda>_. Inr ((m, ds), db))
        | None \<Rightarrow>
            (let m = create_message (mf_message_id fr) n (mf_now fr) None;
                 d = create_delivery (mf_delivery_id fr) (mm_message_id m) n (mf_now fr)
             in bindR (lift_store (save_mailbox_message m [d] db)) (\<lambda>db'. Inr ((m, [d]), db'))))
        = Inr (out, db') \<longleftrightarrow> validate_send n = Inr () \<and> send_outcome fr n db out db'" for n
    by (cases "find_send_by_key db (ns_task_id n) (ns_from_role_id n) (ns_idempotency_key n)")
      (auto simp: send_outcome_def bindR_eq_Inr_conv Let_def assert_idempotent_replay_def
        create_message_simps)
  then show ?thesis
    unfolding send_def bindR_eq_Inr_conv[of "normalize_send_input stringify inp"] by blast
qed

lemma send_step:
  assumes "send stringify fr inp db = Inr (out, db')"
  shows "good_step db db'"
proof -
  from assms obtain n where "validate_send n = Inr ()" "send_outcome fr n db out db'"
    by (auto simp: send_Inr_iff)
  then show ?thesis
    using save_message_step validate_send_distinct
    by (auto simp: send_outcome_def Let_def split: option.splits)
qed

lemma get_envelope_Some:
  assumes "get_mailbox_envelope db i = Inr (Some env)"
  shows "find_delivery db i = Some (ev_delivery env)" and
    "find_message db (md_message_id (ev_delivery env)) = Some (ev_message env)"
  using assms
  by (auto simp: get_mailbox_envelope_def read_mailbox_envelope_def bindR_eq_Inr_conv
      split: option.splits)

lemma require_delivery_Inr:
  "require_delivery db i = Inr env \<longleftrightarrow> get_mailbox_envelope db i = Inr (Some env)"
  by (auto simp: require_delivery_def bindR_eq_Inr_conv split: option.splits)

lemma save_reply_step:
  assumes "save_mailbox_reply source role (create_message mid n now (Some p))
      [create_delivery did mid n now] now db = Inr (src', db')"
    and "ns_from_role_id n \<noteq> ns_to_role_id n" and "ns_from_role_id n = role"
  shows "good_step db db'"
proof -
  let ?m = "create_message mid n now (Some p)" and ?d = "create_delivery did mid n now"
  from assms(1) obtain src db1 where src: "find_delivery db source = Some src"
    "md_recipient_role_id src = role" "md_status src \<in> {MbInjected, MbAcknowledged}"
    "mm_reply_to ?m = Some (md_message_id src)"
    and db1: "db1 = (if md_status src = MbInjected then update_delivery source (acknowledged now) db else db)"
    and run: "bindR (write_mailbox_message ?m db1) (write_mailbox_deliveries [?d]) = Inr db'"
    by (cases "md_status (the (find_delivery db source))")
      (auto simp: save_mailbox_reply_def bindR_eq_Inr_conv Let_def split: if_splits)
  have step1: "good_step db db1"
    using acknowledged_good_step[OF src(1)] by (simp add: db1)
  have "\<exists>e \<in> set (db_deliveries db1). md_message_id e = md_message_id src \<and>
      md_status e = MbAcknowledged \<and> md_recipient_role_id e = role"
  proof (cases "md_status src = MbInjected")
    case True
    have "find_delivery db1 source = Some (acknowledged now src)"
      unfolding db1 if_P[OF True]
      by (rule find_update_delivery[OF src(1)])
        (use find_delivery_Some[OF src(1)] in \<open>simp add: acknowledged_def\<close>)
    with find_delivery_Some[OF this] src(2) show ?thesis
      by (intro bexI[of _ "acknowledged now src"]) (simp_all add: acknowledged_def)
  next
    case False
    with src find_delivery_Some[OF src(1)] show ?thesis
      by (intro bexI[of _ src]) (auto simp: db1)
  qed
  then have rep: "\<exists>e \<in> set (db_deliveries db1). md_message_id e = q \<and> md_status e = MbAcknowledged \<and>
      mm_from_role_id ?m = md_recipient_role_id e" if "mm_reply_to ?m = Some q" for q
    using that src(4) assms(3) by (auto simp: create_message_simps)
  have step2: "good_step db1 db'"
    by (rule append_good_step[OF run], rule append_inv[OF _ run])
      (use create_belongs assms(2) rep in auto)
  from step1 step2 show ?thesis by (rule good_step_trans)
qed

lemma reply_cases:
  assumes "reply stringify fr inp db = Inr (out, db')"
  shows "db' = db \<or> (\<exists>n p src'. validate_send n = Inr () \<and> ns_from_role_id n = si_from_role_id (ri_send inp) \<and>
    save_mailbox_reply (ri_source_delivery_id inp) (si_from_role_id (ri_send inp))
      (create_message (mf_message_id fr) n (mf_now fr) (Some p))
      [create_delivery (mf_delivery_id fr) (mf_message_id fr) n (mf_now fr)] (mf_now fr) db
      = Inr (src', db'))"
proof -
  have from_role: "normalize_send_input stringify i = Inr n \<Longrightarrow> ns_from_role_id n = si_from_role_id i"
    for i n by (auto simp: normalize_send_input_def Let_def split: option.splits)
  from assms obtain source n where n: "ns_from_role_id n = si_from_role_id (ri_send inp)"
    "validate_send n = Inr ()" and rest: "reply_to_source fr inp source n db = Inr (out, db')"
    by (auto simp: reply_def bindR_eq_Inr_conv dest: from_role)
  then show ?thesis
    by (auto simp: reply_to_source_def Let_def create_message_simps bindR_eq_Inr_conv
        split: option.splits if_splits)
qed

lemma reply_step:
  assumes "reply stringify fr inp db = Inr (out, db')"
  shows "good_step db db'"
  using reply_cases[OF assms]
proof (elim disjE exE conjE)
  fix n p src' assume n: "validate_send n = Inr ()" "ns_from_role_id n = si_from_role_id (ri_send inp)"
    and run: "save_mailbox_reply (ri_source_delivery_id inp) (si_from_role_id (ri_send inp))
      (create_message (mf_message_id fr) n (mf_now fr) (Some p))
      [create_delivery (mf_delivery_id fr) (mf_message_id fr) n (mf_now fr)] (mf_now fr) db = Inr (src', db')"
  show ?thesis by (rule save_reply_step[OF run validate_send_distinct[OF n(1)] n(2)])
qed simp

section \<open>Reachable states\<close>

inductive mailbox_step :: "mailbox_db \<Rightarrow> mailbox_db \<Rightarrow> bool" where
  do_send: "send stringify fr inp db = Inr (out, db') \<Longrightarrow> mailbox_step db db'"
| do_reply: "reply stringify fr rinp db = Inr (rout, db') \<Longrightarrow> mailbox_step db db'"
| do_inject: "mark_injected i role session now db = Inr (d, db') \<Longrightarrow> mailbox_step db db'"
| do_ack: "ack i role now db = Inr (d, db') \<Longrightarrow> mailbox_step db db'"
| do_fail: "mark_failed i err now db = Inr (d, db') \<Longrightarrow> mailbox_step db db'"
| do_attempt: "record_attempt i err' now db = Inr (d, db') \<Longrightarrow> mailbox_step db db'"
| do_log_event: "mailbox_step db (db\<lparr>db_event_ids := db_event_ids db @ [e]\<rparr>)"

inductive mailbox_reach :: "mailbox_db \<Rightarrow> mailbox_db \<Rightarrow> bool" where
  mailbox_refl: "mailbox_reach db db"
| mailbox_trans: "mailbox_reach db db' \<Longrightarrow> mailbox_step db' db'' \<Longrightarrow> mailbox_reach db db''"

definition empty_mailbox :: mailbox_db where
  "empty_mailbox = \<lparr>db_messages = [], db_deliveries = [], db_event_ids = []\<rparr>"

lemma events_step: "good_step db (db\<lparr>db_event_ids := es\<rparr>)"
proof -
  have "extends db (db\<lparr>db_event_ids := es\<rparr>)"
    using extends_refl[of db, unfolded extends_def] unfolding extends_def by simp
  then show ?thesis by (simp add: good_step_def mailbox_inv_def replied_by_def)
qed

lemma mailbox_step_good: "mailbox_step db db' \<Longrightarrow> good_step db db'"
proof (induction rule: mailbox_step.induct)
  case (do_send stringify fr inp db out db')
  then show ?case by (rule send_step)
next
  case (do_reply stringify fr rinp db rout db')
  then show ?case by (rule reply_step)
next
  case (do_inject i role session now db d db')
  then show ?case by (auto simp: mark_injected_def bindR_eq_Inr_conv intro: injected_step)
next
  case (do_ack i role now db d db')
  then show ?case by (auto simp: ack_def bindR_eq_Inr_conv split: if_splits intro: ack_step)
next
  case (do_fail i err now db d db')
  then show ?case by (auto simp: mark_failed_def intro: failed_step)
next
  case (do_attempt i err' now db d db')
  then show ?case by (auto simp: record_attempt_def intro: attempt_step)
next
  case (do_log_event db e)
  show ?case by (rule events_step)
qed

lemma mailbox_reach_good: "mailbox_reach db db' \<Longrightarrow> good_step db db'"
  by (induction rule: mailbox_reach.induct) (auto intro: good_step_trans mailbox_step_good)

lemma empty_mailbox_inv: "mailbox_inv empty_mailbox"
  by (simp add: mailbox_inv_def empty_mailbox_def List.map_filter_simps)

lemma mailbox_reach_inv: "mailbox_reach empty_mailbox db \<Longrightarrow> mailbox_inv db"
  using mailbox_reach_good empty_mailbox_inv by (auto simp: good_step_def)

section \<open>Finding a message again\<close>

lemma find_send_by_key_iff:
  assumes inv: "mailbox_inv db"
  shows "find_send_by_key db t f k = Some (m, ds) \<longleftrightarrow>
    m \<in> set (db_messages db) \<and> send_key m = (t, f, k) \<and>
    (\<exists>d \<in> set (db_deliveries db). belongs m d \<and> ds = [d])"
proof -
  let ?P = "\<lambda>m. mm_task_id m = t \<and> mm_from_role_id m = f \<and> mm_idempotency_key m = k"
  from inv have dist: "distinct (map send_key (db_messages db))"
    and ids: "distinct (map mm_message_id (db_messages db))"
    and all2: "list_all2 belongs (db_messages db) (db_deliveries db)"
    by (simp_all add: mailbox_inv_def)
  have P: "?P m \<longleftrightarrow> send_key m = (t, f, k)" for m by (simp add: send_key_def)
  have find_iff: "find ?P (db_messages db) = Some m \<longleftrightarrow> m \<in> set (db_messages db) \<and> send_key m = (t, f, k)"
    for m
  proof
    assume "find ?P (db_messages db) = Some m"
    then show "m \<in> set (db_messages db) \<and> send_key m = (t, f, k)"
      by (auto simp: find_Some_iff send_key_def)
  next
    assume m: "m \<in> set (db_messages db) \<and> send_key m = (t, f, k)"
    then obtain m' where m': "find ?P (db_messages db) = Some m'"
      using P by (cases "find ?P (db_messages db)") (auto simp: find_None_iff)
    then have "m' \<in> set (db_messages db) \<and> send_key m' = (t, f, k)"
      by (auto simp: find_Some_iff send_key_def)
    with m m' dist show "find ?P (db_messages db) = Some m"
      by (auto simp: distinct_map inj_on_def)
  qed
  have one: "\<exists>d. filter (\<lambda>d. md_message_id d = mm_message_id m) ds = [d] \<and> d \<in> set ds \<and> belongs m d"
    if "list_all2 belongs ms ds" "distinct (map mm_message_id ms)" "m \<in> set ms" for ms ds m
    using that
  proof (induction rule: list_all2_induct)
    case Nil
    then show ?case by simp
  next
    case (Cons x xs d ds)
    have none: "filter (\<lambda>d. md_message_id d = mm_message_id y) zs = []"
      if "list_all2 belongs ys zs" "mm_message_id y \<notin> mm_message_id ` set ys" for y ys zs
      using that by (induction rule: list_all2_induct) (auto simp: belongs_def)
    show ?case
    proof (cases "m = x")
      case True
      with Cons none[of xs ds x] show ?thesis by (auto simp: belongs_def)
    next
      case False
      with Cons.prems have "m \<in> set xs" "mm_message_id m \<noteq> mm_message_id x" by (auto simp: rev_image_eqI)
      with Cons show ?thesis by (auto simp: belongs_def)
    qed
  qed
  show ?thesis
  proof (cases "find ?P (db_messages db)")
    case None
    then show ?thesis
      using find_iff[of m] by (auto simp: find_send_by_key_def)
  next
    case (Some m')
    with one[OF all2 ids] obtain d where d: "filter (\<lambda>d. md_message_id d = mm_message_id m') (db_deliveries db) = [d]"
      "d \<in> set (db_deliveries db)" "belongs m' d"
      using find_iff[of m'] by blast
    have unique: "e = d" if "e \<in> set (db_deliveries db)" "belongs m' e" for e
    proof -
      have "e \<in> set (filter (\<lambda>d. md_message_id d = mm_message_id m') (db_deliveries db))"
        using that by (simp add: belongs_def)
      then show ?thesis unfolding d(1) by simp
    qed
    have res: "find_send_by_key db t f k = Some (m', [d])"
      by (simp add: find_send_by_key_def Some d(1) order_by_creation_def)
    have mine: "m \<in> set (db_messages db) \<and> send_key m = (t, f, k) \<longleftrightarrow> m = m'"
      using find_iff[of m] Some by auto
    have "(\<exists>e \<in> set (db_deliveries db). belongs m' e \<and> ds = [e]) \<longleftrightarrow> ds = [d]"
      using d(2,3) unique by blast
    then show ?thesis
      unfolding res conj_assoc[symmetric] mine by auto
  qed
qed

lemma extends_message: "extends db db' \<Longrightarrow> m \<in> set (db_messages db) \<Longrightarrow> m \<in> set (db_messages db')"
  by (auto simp: extends_def)

lemma extends_delivery:
  assumes "extends db db'" and "d \<in> set (db_deliveries db)"
  shows "\<exists>e \<in> set (db_deliveries db'). same_delivery d e"
proof -
  from assms(1) obtain ds es where "db_deliveries db' = ds @ es"
    "list_all2 same_delivery (db_deliveries db) ds" by (auto simp: extends_def)
  moreover obtain i where "i < length (db_deliveries db)" "d = db_deliveries db ! i"
    using assms(2) by (metis in_set_conv_nth)
  ultimately show ?thesis
    by (intro bexI[of _ "ds ! i"]) (auto simp: list_all2_conv_all_nth)
qed

lemma same_send_same:
  "same_delivery d e \<Longrightarrow> same_send m [d] n \<Longrightarrow> same_send m [e] n"
  by (simp add: same_send_def same_delivery_def)

text \<open>A send that succeeded has left its message, with a delivery, in the tables.\<close>

lemma created_same_send:
  "same_send (create_message mid n now None) [create_delivery did mid n now] n"
  by (simp add: same_send_def create_message_def create_delivery_def)

lemma send_outcome_stored:
  assumes "mailbox_inv db" and "validate_send n = Inr ()" and "send_outcome fr n db out db'"
  shows "\<exists>m d. out = (m, [d]) \<and> m \<in> set (db_messages db') \<and> d \<in> set (db_deliveries db') \<and>
    belongs m d \<and> same_send m [d] n \<and>
    send_key m = (ns_task_id n, ns_from_role_id n, ns_idempotency_key n)"
proof (cases "find_send_by_key db (ns_task_id n) (ns_from_role_id n) (ns_idempotency_key n)")
  case (Some sent)
  obtain m ds where sent: "sent = (m, ds)" by (cases sent)
  with Some have found: "m \<in> set (db_messages db)"
    "send_key m = (ns_task_id n, ns_from_role_id n, ns_idempotency_key n)"
    "\<exists>d \<in> set (db_deliveries db). belongs m d \<and> ds = [d]"
    using find_send_by_key_iff[OF assms(1)] by simp_all
  have "out = (m, ds)" "same_send m ds n" "db' = db"
    using assms(3) Some sent by (simp_all add: send_outcome_def)
  with found show ?thesis by blast
next
  case None
  let ?m = "create_message (mf_message_id fr) n (mf_now fr) None"
  let ?d = "create_delivery (mf_delivery_id fr) (mf_message_id fr) n (mf_now fr)"
  from None assms(3) have out: "out = (?m, [?d])" and save: "save_mailbox_message ?m [?d] db = Inr db'"
    by (simp_all add: send_outcome_def Let_def)
  then have "db' = db\<lparr>db_messages := db_messages db @ [?m], db_deliveries := db_deliveries db @ [?d]\<rparr>"
    using save_single[of ?m db ?d db'] by (auto simp: save_mailbox_message_def bindR_eq_Inr_conv)
  with out created_same_send create_belongs(1)[OF validate_send_distinct[OF assms(2)]] show ?thesis
    by (simp add: create_message_simps)
qed

lemma resend_after:
  assumes "mailbox_inv db" and "send stringify fr inp db = Inr (out, db')" and "mailbox_reach db' db''"
  shows "\<exists>e. send stringify fr' inp db'' = Inr ((fst out, [e]), db'') \<and>
    same_delivery (hd (snd out)) e"
proof -
  from assms(2) obtain n where n: "normalize_send_input stringify inp = Inr n" "validate_send n = Inr ()"
    and out: "send_outcome fr n db out db'" by (auto simp: send_Inr_iff)
  obtain m d where md: "out = (m, [d])" "m \<in> set (db_messages db')" "d \<in> set (db_deliveries db')"
    "belongs m d" "same_send m [d] n" "send_key m = (ns_task_id n, ns_from_role_id n, ns_idempotency_key n)"
    using send_outcome_stored[OF assms(1) n(2) out] by blast
  have step: "good_step db' db''" by (rule mailbox_reach_good[OF assms(3)])
  then have inv: "mailbox_inv db''" and ext: "extends db' db''"
    using send_step[OF assms(2)] assms(1) by (auto simp: good_step_def)
  obtain e where e: "e \<in> set (db_deliveries db'')" "same_delivery d e"
    using extends_delivery[OF ext md(3)] by blast
  have "find_send_by_key db'' (ns_task_id n) (ns_from_role_id n) (ns_idempotency_key n) = Some (m, [e])"
    using find_send_by_key_iff[OF inv] extends_message[OF ext md(2)] md(4,6) e belongs_same[OF e(2)]
    by blast
  then have "send_outcome fr' n db'' (m, [e]) db''"
    using same_send_same[OF e(2) md(5)] by (simp add: send_outcome_def)
  with n e(2) md(1) show ?thesis by (auto simp: send_Inr_iff)
qed

end
