(* ===== verification/MailboxProperties.thy ===== *)
theory MailboxProperties
  imports MailboxInvariant
begin

text \<open>
  What the mailbox promises to its users: the invariant of the tables, idempotent sends, final
  deliveries, and the reading of an inbox page by page.
\<close>

section \<open>Final deliveries\<close>

definition is_final :: "mailbox_delivery \<Rightarrow> bool" where
  "is_final d \<longleftrightarrow> md_status d \<in> {MbAcknowledged, MbFailed}"

definition keeps_final :: "mailbox_db \<Rightarrow> mailbox_db \<Rightarrow> bool" where
  "keeps_final db db' \<longleftrightarrow>
     (\<forall>i d. find_delivery db i = Some d \<longrightarrow> is_final d \<longrightarrow> find_delivery db' i = Some d)"

lemma keeps_final_refl [simp]: "keeps_final db db"
  by (simp add: keeps_final_def)

lemma keeps_final_trans: "keeps_final a b \<Longrightarrow> keeps_final b c \<Longrightarrow> keeps_final a c"
  by (simp add: keeps_final_def)

lemma find_map_other:
  assumes "\<And>x. md_delivery_id (f x) = md_delivery_id x" and "i \<noteq> j"
  shows "find (\<lambda>d. md_delivery_id d = i) (map (\<lambda>x. if md_delivery_id x = j then f x else x) ds)
    = find (\<lambda>d. md_delivery_id d = i) ds"
  using assms by (induction ds) auto

lemma keeps_final_update:
  assumes "find_delivery db j = Some d" and "\<not> is_final d" and "\<And>x. md_delivery_id (f x) = md_delivery_id x"
  shows "keeps_final db (update_delivery j f db)"
  unfolding keeps_final_def
proof (intro allI impI)
  fix i e assume e: "find_delivery db i = Some e" "is_final e"
  then have "i \<noteq> j" using assms(1,2) by auto
  with e(1) show "find_delivery (update_delivery j f db) i = Some e"
    using find_map_other[of f i j] assms(3) by (simp add: find_delivery_def update_delivery_def)
qed

lemma find_append: "find P (xs @ ys) = (case find P xs of Some x \<Rightarrow> Some x | None \<Rightarrow> find P ys)"
  by (induction xs) auto

lemma keeps_final_save:
  assumes "bindR (write_mailbox_message m db) (write_mailbox_deliveries [d]) = Inr db'"
  shows "keeps_final db db'"
  using save_single[OF assms] by (auto simp: keeps_final_def find_delivery_def find_append)

lemma keeps_final_ack:
  assumes "find_delivery db i = Some d" and "md_status d = MbInjected"
  shows "keeps_final db (update_delivery i (acknowledged now) db)"
  by (rule keeps_final_update[OF assms(1)]) (simp_all add: is_final_def assms(2) acknowledged_def)

lemma keeps_final_writes:
  "mark_delivery_injected i role session now db = Inr (d', db') \<Longrightarrow> keeps_final db db'"
  "mark_delivery_failed i now err db = Inr (d', db') \<Longrightarrow> keeps_final db db'"
  "record_delivery_attempt i now err' db = Inr (d', db') \<Longrightarrow> keeps_final db db'"
  "acknowledge_delivery i role now db = Inr (d', db') \<Longrightarrow> keeps_final db db'"
  by (auto simp: mark_delivery_injected_def mark_delivery_failed_def record_delivery_attempt_def
      acknowledge_delivery_def bindR_eq_Inr_conv Let_def is_final_def
      split: if_splits option.splits intro!: keeps_final_update keeps_final_ack)

lemma keeps_final_reply:
  assumes "save_mailbox_reply source role m [d] now db = Inr (src', db')"
  shows "keeps_final db db'"
proof -
  from assms obtain src db1 where src: "find_delivery db source = Some src"
    and db1: "db1 = (if md_status src = MbInjected then update_delivery source (acknowledged now) db else db)"
    and run: "bindR (write_mailbox_message m db1) (write_mailbox_deliveries [d]) = Inr db'"
    by (cases "md_status (the (find_delivery db source))")
      (auto simp: save_mailbox_reply_def bindR_eq_Inr_conv Let_def split: if_splits)
  have "keeps_final db db1" using keeps_final_ack[OF src] by (simp add: db1)
  then show ?thesis using keeps_final_save[OF run] by (rule keeps_final_trans)
qed

lemma mailbox_step_final: "mailbox_step db db' \<Longrightarrow> keeps_final db db'"
proof (induction rule: mailbox_step.induct)
  case (do_send stringify fr inp db out db')
  then obtain n where "send_outcome fr n db out db'" by (auto simp: send_Inr_iff)
  then show ?case
    by (auto simp: send_outcome_def Let_def save_mailbox_message_def bindR_eq_Inr_conv[of "validate_mailbox_write _ _"]
        split: option.splits intro: keeps_final_save)
next
  case (do_reply stringify fr rinp db rout db')
  then show ?case using reply_cases keeps_final_reply by (metis keeps_final_refl)
next
  case (do_inject i role session now db d db')
  then show ?case by (auto simp: mark_injected_def bindR_eq_Inr_conv intro: keeps_final_writes)
next
  case (do_ack i role now db d db')
  then show ?case by (auto simp: ack_def bindR_eq_Inr_conv split: if_splits intro: keeps_final_writes)
next
  case (do_fail i err now db d db')
  then show ?case by (auto simp: mark_failed_def intro: keeps_final_writes)
next
  case (do_attempt i err' now db d db')
  then show ?case by (auto simp: record_attempt_def intro: keeps_final_writes)
next
  case (do_log_event db e)
  show ?case by (simp add: keeps_final_def find_delivery_def)
qed

lemma mailbox_reach_final: "mailbox_reach db db' \<Longrightarrow> keeps_final db db'"
  by (induction rule: mailbox_reach.induct) (auto intro: keeps_final_trans mailbox_step_final)

section \<open>The order of an inbox\<close>

lemma delivery_before_irrefl [simp]: "\<not> delivery_before a a"
  by (simp add: delivery_before_def)

lemma delivery_before_trans: "delivery_before a b \<Longrightarrow> delivery_before b c \<Longrightarrow> delivery_before a c"
  using code_unit_compare_trans[of "snd a" "snd b" "snd c"] code_unit_compare_swap[of "snd a" "snd b"]
  by (auto simp: delivery_before_def order.strict_iff_order)

lemma delivery_before_linear: "delivery_before a b \<or> a = b \<or> delivery_before b a"
  using code_unit_compare_linear[of "snd a" "snd b"]
  by (auto simp: delivery_before_def prod_eq_iff)

abbreviation created_le :: "mailbox_delivery \<Rightarrow> mailbox_delivery \<Rightarrow> bool" where
  "created_le a b \<equiv> \<not> delivery_before (delivery_key b) (delivery_key a)"

lemma created_le_total: "created_le a b \<or> created_le b a"
  using delivery_before_trans delivery_before_irrefl by blast

lemma created_le_trans: "created_le a b \<Longrightarrow> created_le b c \<Longrightarrow> created_le a c"
  using delivery_before_linear delivery_before_trans by metis

lemma order_by_creation_filter: "filter P (order_by_creation ds) = order_by_creation (filter P ds)"
  unfolding order_by_creation_def
  by (rule filter_sort_le) (use created_le_total in blast, rule created_le_trans)

lemma order_by_creation_sorted: "sorted_wrt created_le (order_by_creation ds)"
  unfolding order_by_creation_def
  by (rule sort_le_sorted) (use created_le_total in blast, rule created_le_trans)

lemma set_order_by_creation [simp]: "set (order_by_creation ds) = set ds"
  by (simp add: order_by_creation_def)

lemma distinct_order_by_creation:
  "distinct (map md_delivery_id ds) \<Longrightarrow> distinct (map md_delivery_id (order_by_creation ds))"
  by (metis mset_eq_imp_distinct_iff mset_map mset_sort_le order_by_creation_def)

text \<open>In creation order, the deliveries after one of them are the rest of the list.\<close>

lemma sorted_after:
  assumes "sorted_wrt created_le (xs @ c # ys)" and "distinct (map md_delivery_id (xs @ c # ys))"
  shows "filter (\<lambda>d. delivery_before (delivery_key c) (delivery_key d)) (xs @ c # ys) = ys"
proof -
  have "\<not> delivery_before (delivery_key c) (delivery_key d)" if "d \<in> set xs" for d
    using assms(1) that by (simp add: sorted_wrt_append)
  moreover have "delivery_before (delivery_key c) (delivery_key d)" if d: "d \<in> set ys" for d
  proof -
    have "created_le c d" using assms(1) d by (simp add: sorted_wrt_append)
    moreover have "delivery_key c \<noteq> delivery_key d"
      using assms(2) d by (auto simp: delivery_key_def)
    ultimately show ?thesis using delivery_before_linear by blast
  qed
  ultimately show ?thesis by simp
qed

lemma read_envelopes_Inr_iff:
  "read_envelopes db ds = Inr es \<longleftrightarrow>
     list_all2 (\<lambda>d e. read_mailbox_envelope db (md_delivery_id d) = Inr e) ds es"
  by (induction ds arbitrary: es) (auto simp: bindR_eq_Inr_conv list_all2_Cons1)

lemma read_mailbox_envelope_delivery:
  "read_mailbox_envelope db i = Inr e \<Longrightarrow> find_delivery db i = Some (ev_delivery e)"
  by (auto simp: read_mailbox_envelope_def require_mailbox_delivery_def bindR_eq_Inr_conv
      split: option.splits)

section \<open>Properties\<close>

definition sample_send :: mailbox_send_input where
  "sample_send = \<lparr>si_task_id = ''t'', si_workspace_path = ''w'', si_thread_id = ''th'',
     si_from_role_id = ''a'', si_to_role_id = ''b'', si_kind = Some KindRequest,
     si_content = Some ''hi'', si_type = None, si_payload = None, si_artifact_refs = None,
     si_requires_ack = None, si_deadline_seconds = Some 60, si_idempotency_key = ''k1''\<rparr>"

definition sample_fresh :: "string \<Rightarrow> timestamp \<Rightarrow> mailbox_fresh" where
  "sample_fresh i now = \<lparr>mf_message_id = ''m'' @ i, mf_delivery_id = ''d'' @ i, mf_now = now\<rparr>"

definition ok_state :: "'e + 'a \<times> mailbox_db \<Rightarrow> mailbox_db" where
  "ok_state r = (case r of Inr (_, db) \<Rightarrow> db | Inl _ \<Rightarrow> empty_mailbox)"

definition sent_mailbox :: mailbox_db where
  \<comment> \<open>one message sent at time 5\<close>
  "sent_mailbox = ok_state (send (\<lambda>_. []) (sample_fresh ''2'' 5) sample_send empty_mailbox)"

definition sent_pair :: "mailbox_message \<times> mailbox_delivery list" where
  "sent_pair = fst (projr (send (\<lambda>_. []) (sample_fresh ''2'' 5) sample_send empty_mailbox))"

lemma ok_stateI: "is_ok r \<Longrightarrow> r = Inr (fst (projr r), ok_state r)"
  by (auto simp: is_ok_def ok_state_def split: sum.splits)

lemma sent_mailbox_sent:
  "send (\<lambda>_. []) (sample_fresh ''2'' 5) sample_send empty_mailbox = Inr (sent_pair, sent_mailbox)"
  unfolding sent_mailbox_def sent_pair_def by (rule ok_stateI) code_simp

text \<open>
  C29. The tables stay consistent. Whatever sends, replies, injections, acknowledgements, failures
  and attempts run on an empty mailbox, every reachable one has unique message and delivery
  identifiers, one message per (task, sender, idempotency key), one delivery per message under the
  same task and workspace and never to its sender, at most one reply per message, a reply only to a
  message whose delivery its author acknowledged, and session and times that fit each status.
\<close>

theorem mailbox_tables_consistent:
  assumes "mailbox_reach empty_mailbox db"
  shows "mailbox_inv db"
  using assms by (rule mailbox_reach_inv)

theorem mailbox_tables_consistent_witness: "mailbox_inv sent_mailbox"
  by (rule mailbox_tables_consistent)
    (rule mailbox_trans[OF mailbox_refl do_send[OF sent_mailbox_sent]])



text \<open>
  Final deliveries are frozen. Once a delivery is acknowledged or failed, no later operation
  changes any field of it.
\<close>

theorem final_deliveries_are_frozen:
  assumes "mailbox_reach db db'" and "find_delivery db i = Some d"
    and "md_status d = MbAcknowledged \<or> md_status d = MbFailed"
  shows "find_delivery db' i = Some d"
  using mailbox_reach_final[OF assms(1)] assms(2,3) by (auto simp: keeps_final_def is_final_def)

definition failed_mailbox :: mailbox_db where
  "failed_mailbox = ok_state (mark_failed ''d2''
     \<lparr>me_code = ''c'', me_message = ''m'', me_details = None\<rparr> 9 sent_mailbox)"

theorem final_deliveries_are_frozen_witness:
  "\<exists>d. find_delivery failed_mailbox ''d2'' = Some d \<and> md_status d = MbFailed \<and>
     find_delivery (failed_mailbox\<lparr>db_event_ids := db_event_ids failed_mailbox @ [''ev'']\<rparr>) ''d2'' = Some d"
proof -
  have "map_option md_status (find_delivery failed_mailbox ''d2'') = Some MbFailed"
    by code_simp
  then obtain d where d: "find_delivery failed_mailbox ''d2'' = Some d" "md_status d = MbFailed" by auto
  have "mailbox_reach failed_mailbox (failed_mailbox\<lparr>db_event_ids := db_event_ids failed_mailbox @ [''ev'']\<rparr>)"
    by (rule mailbox_trans[OF mailbox_refl do_log_event])
  from final_deliveries_are_frozen[OF this d(1)] d show ?thesis by blast
qed

lemma read_envelopes_mem:
  "read_envelopes db ds = Inr es \<Longrightarrow> e \<in> set es \<Longrightarrow>
    \<exists>c \<in> set ds. read_mailbox_envelope db (md_delivery_id c) = Inr e"
  by (induction ds arbitrary: es) (auto simp: bindR_eq_Inr_conv)

text \<open>
  Reading an inbox page by page loses and repeats nothing. On a consistent mailbox, if the
  inbox of a recipient reads as \<open>pre @ e # post\<close>, then reading it after the delivery of \<open>e\<close> returns
  exactly \<open>post\<close>, in the same order.
\<close>

theorem inbox_after_cursor_is_the_rest:
  assumes inv: "mailbox_inv db" and all: "inbox db task ws role None = Inr (pre @ e # post)"
    and id: "md_delivery_id (ev_delivery e) \<noteq> []"
  shows "inbox db task ws role (Some (md_delivery_id (ev_delivery e))) = Inr post"
proof -
  let ?mine = "\<lambda>d. md_task_id d = task \<and> md_workspace_path d = ws \<and> md_recipient_role_id d = role"
  let ?ds = "order_by_creation (filter ?mine (db_deliveries db))"
  from all have texts: "require_text task ''task_id'' = Inr ()" "require_text ws ''workspace_path'' = Inr ()"
      "require_text role ''recipient_role_id'' = Inr ()"
    and read: "read_envelopes db ?ds = Inr (pre @ e # post)"
    by (auto simp: inbox_def list_mailbox_inbox_def bindR_eq_Inr_conv lift_store_def Let_def
        non_empty_def split: sum.splits)
  from read obtain xs c ys where ds: "?ds = xs @ c # ys"
    and c: "read_mailbox_envelope db (md_delivery_id c) = Inr e" and ys: "read_envelopes db ys = Inr post"
    by (auto simp: read_envelopes_Inr_iff list_all2_append2 list_all2_Cons2)
  have dist: "distinct (map md_delivery_id (db_deliveries db))" using inv by (simp add: mailbox_inv_def)
  have c_in: "c \<in> set (db_deliveries db)" "?mine c"
    using arg_cong[OF ds, of set] by auto
  then have found: "find_delivery db (md_delivery_id c) = Some c"
    using find_delivery_unique[OF dist] by blast
  with read_mailbox_envelope_delivery[OF c] have e: "ev_delivery e = c" by simp
  have dist': "distinct (map md_delivery_id (xs @ c # ys))"
    unfolding ds[symmetric] using dist by (intro distinct_order_by_creation) (simp add: distinct_map_filter)
  have "order_by_creation (filter (\<lambda>d. ?mine d \<and> delivery_before (delivery_key c) (delivery_key d))
      (db_deliveries db)) = filter (\<lambda>d. delivery_before (delivery_key c) (delivery_key d)) ?ds"
    by (simp add: order_by_creation_filter filter_filter conj_commute)
  also have "\<dots> = ys"
    unfolding ds using sorted_after[OF order_by_creation_sorted[of "filter ?mine (db_deliveries db)", unfolded ds] dist'] .
  finally show ?thesis
    using texts ys found c_in(2) id
    by (simp add: inbox_def list_mailbox_inbox_def e require_mailbox_delivery_def non_empty_def lift_store_def)
qed

definition second_mailbox :: mailbox_db where
  \<comment> \<open>a second message, sent in the same millisecond under a smaller delivery identifier\<close>
  "second_mailbox = ok_state (send (\<lambda>_. []) (sample_fresh ''1'' 5)
     (sample_send\<lparr>si_idempotency_key := ''k2''\<rparr>) sent_mailbox)"

lemma second_mailbox_reach: "mailbox_reach empty_mailbox second_mailbox"
proof -
  have "is_ok (send (\<lambda>_. []) (sample_fresh ''1'' 5) (sample_send\<lparr>si_idempotency_key := ''k2''\<rparr>) sent_mailbox)"
    by code_simp
  from mailbox_trans[OF mailbox_trans[OF mailbox_refl do_send[OF sent_mailbox_sent]] do_send[OF ok_stateI[OF this]]]
  show ?thesis by (simp add: second_mailbox_def)
qed

theorem inbox_after_cursor_is_the_rest_witness:
  "\<exists>e e'. inbox second_mailbox ''t'' ''w'' ''b'' None = Inr [e, e'] \<and>
     inbox second_mailbox ''t'' ''w'' ''b'' (Some (md_delivery_id (ev_delivery e))) = Inr [e']"
proof -
  have "map md_delivery_id (map ev_delivery (projr (inbox second_mailbox ''t'' ''w'' ''b'' None))) = [''d1'', ''d2'']"
    "is_ok (inbox second_mailbox ''t'' ''w'' ''b'' None)"
    by code_simp+
  then obtain e e' where "inbox second_mailbox ''t'' ''w'' ''b'' None = Inr ([] @ e # [e'])"
    "md_delivery_id (ev_delivery e) = ''d1''"
    by (auto simp: is_ok_iff)
  with inbox_after_cursor_is_the_rest[OF mailbox_reach_inv[OF second_mailbox_reach] this(1)]
  show ?thesis by auto
qed

text \<open>
  The watermark misses deliveries of its own millisecond. A delivery that is created in the
  millisecond of a watermark under an identifier that orders below the watermark's is not listed
  as a delivery after that watermark, even when it was stored later: a resume from the watermark
  skips the message. (The witness sends a second message in the millisecond of the first.)
\<close>

theorem same_millisecond_delivery_is_skipped:
  assumes inv: "mailbox_inv db"
    and key: "md_created_at d = now" "code_unit_compare (md_delivery_id d) wid < 0"
    and read: "list_deliveries_after db task ws (Some (now, wid)) = Inr es"
  shows "d \<notin> ev_delivery ` set es"
proof
  assume "d \<in> ev_delivery ` set es"
  then obtain e where e: "e \<in> set es" "d = ev_delivery e" by blast
  from read_envelopes_mem[OF read[unfolded list_deliveries_after_def] e(1)]
  obtain c where c: "c \<in> set (db_deliveries db)" "delivery_before (now, wid) (delivery_key c)"
    "read_mailbox_envelope db (md_delivery_id c) = Inr e"
    by auto
  have "distinct (map md_delivery_id (db_deliveries db))" using inv by (simp add: mailbox_inv_def)
  with c(1) have "find_delivery db (md_delivery_id c) = Some c"
    using find_delivery_unique by blast
  with read_mailbox_envelope_delivery[OF c(3)] e(2) have "c = d" by simp
  with c(2) key code_unit_compare_swap[of wid "md_delivery_id d"] show False
    by (simp add: delivery_before_def delivery_key_def)
qed

theorem same_millisecond_delivery_is_skipped_witness:
  "mailbox_high_watermark sent_mailbox ''t'' ''w'' = Some (5, ''d2'') \<and>
   (\<exists>d es. find_delivery sent_mailbox ''d1'' = None \<and> find_delivery second_mailbox ''d1'' = Some d \<and>
      md_status d = MbPending \<and>
      list_deliveries_after second_mailbox ''t'' ''w'' (Some (5, ''d2'')) = Inr es \<and> d \<notin> ev_delivery ` set es)"
proof -
  have facts: "mailbox_high_watermark sent_mailbox ''t'' ''w'' = Some (5, ''d2'')"
    "find_delivery sent_mailbox ''d1'' = None"
    "map_option (\<lambda>d. (md_status d, md_created_at d, md_delivery_id d)) (find_delivery second_mailbox ''d1'')
      = Some (MbPending, 5, ''d1'')"
    "is_ok (list_deliveries_after second_mailbox ''t'' ''w'' (Some (5, ''d2'')))"
    "code_unit_compare ''d1'' ''d2'' < 0"
    by code_simp+
  from facts(3) obtain d where d: "find_delivery second_mailbox ''d1'' = Some d"
    "md_status d = MbPending" "md_created_at d = 5" "md_delivery_id d = ''d1''" by auto
  from facts(4) obtain es where es: "list_deliveries_after second_mailbox ''t'' ''w'' (Some (5, ''d2'')) = Inr es"
    unfolding is_ok_iff by blast
  have "d \<notin> ev_delivery ` set es"
    using same_millisecond_delivery_is_skipped[OF mailbox_reach_inv[OF second_mailbox_reach] d(3) _ es]
      facts(5) d(4) by simp
  with facts(1,2) d(1,2) es show ?thesis by blast
qed

end
