(* ===== verification/CoordinationTypes.thy ===== *)
theory CoordinationTypes
  imports TaskStateMachine JsText
begin

text \<open>
  The persisted state of tasks and runs (\<open>src/persistence/coordination-state-store.ts\<close>): the resume
  cursor with its input, tasks, runs, runtime states, events and checkpoints. The diagnostics and
  interrupt states, which the code keeps as \<open>Record<string, unknown>\<close>, are records of the keys that
  the program writes or reads. \<open>schema_version\<close>, of a type with the single value \<open>v0\<close>, is left out.
\<close>

section \<open>Cursors\<close>

datatype run_mode = SingleAgentMode | CouncilMode

datatype run_status = RunCreated | RunRunning | RunInterrupted | RunCompleted | RunFailed | RunCancelled

datatype cursor =
  SelectAgent | ExecuteAgent | Council | GateStage | Deliver | MailboxWait | CursorDone

datatype council_trigger = ExplicitMode | PersistentOverride | AgentRequest

datatype cursor_input =
    InSelect string "string list" "string option" \<comment> \<open>seed, candidates, market evidence\<close>
  | InExecute ident "string option" "ident option" \<comment> \<open>winner, execution evidence, mailbox delivery\<close>
  | InCouncil council_trigger "string option" "string option" \<comment> \<open>primary evidence, candidate manifest\<close>
  | InGate string string string string \<comment> \<open>subject, phase, changeset, sha256\<close>
  | InDeliver string string \<comment> \<open>changeset, sha256\<close>
  | InWait "ident list" string \<comment> \<open>deliveries, waiting reason\<close>
  | InDone

fun cursor_of :: "cursor_input \<Rightarrow> cursor" where
  "cursor_of (InSelect _ _ _) = SelectAgent"
| "cursor_of (InExecute _ _ _) = ExecuteAgent"
| "cursor_of (InCouncil _ _ _) = Council"
| "cursor_of (InGate _ _ _ _) = GateStage"
| "cursor_of (InDeliver _ _) = Deliver"
| "cursor_of (InWait _ _) = MailboxWait"
| "cursor_of InDone = CursorDone"

fun cursor_name :: "cursor \<Rightarrow> string" where
  "cursor_name SelectAgent = ''select_agent''"
| "cursor_name ExecuteAgent = ''execute_agent''"
| "cursor_name Council = ''council''"
| "cursor_name GateStage = ''gate''"
| "cursor_name Deliver = ''deliver''"
| "cursor_name MailboxWait = ''mailbox_wait''"
| "cursor_name CursorDone = ''done''"

datatype cursor_error =
    FieldNotText string
  | FieldNotSha256 string
  | SubjectNotChangeset

definition is_sha256 :: "string \<Rightarrow> bool" where
  \<comment> \<open>\<open>/^[a-f0-9]{64}$/\<close>\<close>
  "is_sha256 s \<longleftrightarrow> length s = 64 \<and> set s \<subseteq> set ''0123456789abcdef''"

definition require_string :: "string \<Rightarrow> string \<Rightarrow> cursor_error + string" where
  "require_string v field = (if v = [] then Inl (FieldNotText field) else Inr v)"

definition optional_string :: "string option \<Rightarrow> string \<Rightarrow> cursor_error + string option" where
  "optional_string v field =
    (case v of None \<Rightarrow> Inr None | Some s \<Rightarrow> bindR (require_string s field) (\<lambda>x. Inr (Some x)))"

definition require_sha256 :: "string \<Rightarrow> string \<Rightarrow> cursor_error + string" where
  "require_sha256 v field =
    bindR (require_string v field) (\<lambda>hash.
      if is_sha256 hash then Inr hash else Inl (FieldNotSha256 field))"

fun parse_cursor_input :: "cursor_input \<Rightarrow> cursor_error + cursor_input" where
  "parse_cursor_input (InSelect seed candidates evidence) =
     bindR (optional_string evidence ''market_evidence_ref'') (\<lambda>ev.
     bindR (require_string seed ''seed'') (\<lambda>sd. Inr (InSelect sd candidates ev)))"
| "parse_cursor_input (InExecute winner evidence delivery) =
     bindR (optional_string evidence ''execution_evidence_ref'') (\<lambda>ev.
     bindR (optional_string delivery ''mailbox_delivery_id'') (\<lambda>dl.
     bindR (require_string winner ''winner_agent_id'') (\<lambda>w. Inr (InExecute w ev dl))))"
| "parse_cursor_input (InCouncil trigger evidence manifest) =
     bindR (optional_string evidence ''primary_evidence_ref'') (\<lambda>ev.
     bindR (optional_string manifest ''candidate_manifest_ref'') (\<lambda>mf. Inr (InCouncil trigger ev mf)))"
| "parse_cursor_input (InGate subject phase changeset sha) =
     bindR (require_string subject ''subject_ref'') (\<lambda>sj.
     bindR (require_string changeset ''changeset_ref'') (\<lambda>cs.
     if sj \<noteq> cs then Inl SubjectNotChangeset
     else bindR (require_string phase ''phase'') (\<lambda>ph.
       bindR (require_sha256 sha ''expected_sha256'') (\<lambda>h. Inr (InGate sj ph cs h)))))"
| "parse_cursor_input (InDeliver changeset sha) =
     bindR (require_string changeset ''changeset_ref'') (\<lambda>cs.
     bindR (require_sha256 sha ''expected_sha256'') (\<lambda>h. Inr (InDeliver cs h)))"
| "parse_cursor_input (InWait deliveries reason) =
     bindR (require_string reason ''waiting_reason'') (\<lambda>r. Inr (InWait deliveries r))"
| "parse_cursor_input InDone = Inr InDone"

lemma require_string_Inr [simp]: "require_string v f = Inr w \<longleftrightarrow> v \<noteq> [] \<and> w = v"
  by (auto simp: require_string_def)

lemma optional_string_Inr [simp]: "optional_string v f = Inr w \<longleftrightarrow> v \<noteq> Some [] \<and> w = v"
  by (cases v) (auto simp: optional_string_def bindR_eq_Inr_conv)

lemma require_sha256_Inr [simp]: "require_sha256 v f = Inr w \<longleftrightarrow> is_sha256 v \<and> w = v"
  by (auto simp: require_sha256_def bindR_eq_Inr_conv is_sha256_def split: if_splits)

text \<open>Validation never changes the input.\<close>

lemma parse_cursor_input_same: "parse_cursor_input ci = Inr ci' \<Longrightarrow> ci' = ci"
  by (cases ci) (auto simp: bindR_eq_Inr_conv split: if_splits)

definition cursor_input_ok :: "cursor_input \<Rightarrow> bool" where
  "cursor_input_ok ci \<longleftrightarrow> is_ok (parse_cursor_input ci)"

lemma parse_ok: "cursor_input_ok ci \<longleftrightarrow> parse_cursor_input ci = Inr ci"
  using parse_cursor_input_same by (auto simp: cursor_input_ok_def is_ok_iff)

section \<open>Tasks and runs\<close>

datatype risk_level = RiskLow | RiskMedium | RiskHigh | RiskCritical

record task_budget =
  tb_max_tokens :: "int option"
  tb_max_wall_clock_seconds :: "int option"
  tb_max_tool_calls :: "int option"

record task_error =
  te_code :: string
  te_message :: string
  te_details :: "json option"

record final_output =
  fo_artifact_ref :: string
  fo_sha256 :: string
  fo_workspace_path :: string

record task_state =
  tk_task_id :: ident
  tk_parent_id :: "ident option"
  tk_status :: task_status
  tk_owner_agent_id :: "ident option"
  tk_role_id :: "ident option"
  tk_risk_level :: risk_level
  tk_spec :: string
  tk_completion_criteria :: "string list"
  tk_affected_paths :: "string list"
  tk_budget :: "task_budget option"
  tk_workspace_path :: string
  tk_warnings :: "string list"
  tk_final_output :: "final_output option"
  tk_error :: "task_error option"
  tk_revision :: nat
  tk_created_at :: timestamp
  tk_updated_at :: timestamp

record run_snapshot =
  \<comment> \<open>what the coordination layer reads of the frontend's snapshot of a run\<close>
  rs_run_session_id :: "ident option"
  rs_output_session_id :: "ident option"
  rs_output_artifact_refs :: "string list"
  rs_council_warnings :: "string list"
  rs_errors :: "task_error list"

record run_state =
  rn_run_id :: ident
  rn_task_id :: ident
  rn_status :: run_status
  rn_mode :: run_mode
  rn_workspace_path :: string
  rn_session_id :: "ident option"
  rn_restarted_from_run_id :: "ident option"
  rn_snapshot :: "run_snapshot option"
  rn_error :: "task_error option"
  rn_revision :: nat
  rn_started_at :: "timestamp option"
  rn_completed_at :: "timestamp option"
  rn_created_at :: timestamp
  rn_updated_at :: timestamp

definition is_active_status :: "run_status \<Rightarrow> bool" where
  "is_active_status s \<longleftrightarrow> s = RunCreated \<or> s = RunRunning"

abbreviation is_active_run :: "run_state \<Rightarrow> bool" where
  "is_active_run r \<equiv> is_active_status (rn_status r)"

section \<open>Runtime state\<close>

record evidence_ref =
  er_uri :: string
  er_sha256 :: string

record active_stage =
  as_cursor :: cursor
  as_invocation_id :: ident
  as_started_at :: timestamp
  as_started_event_id :: ident

datatype memory_ablation = AblationB0 | AblationB1 | AblationB2 | AblationB3 | AblationB4

datatype resume_strategy = FromCheckpoint | RestartFromBeginning

datatype run_intent =
    CreateRun
  | CheckpointResumeRun resume_strategy
  | CouncilRefinementRun
  | MailboxContinuationRun ident \<comment> \<open>the source delivery\<close>

datatype safepoint_trigger = TrManual | TrPeriodic | TrShutdown | TrBlocked | TrEscalated

record diagnostics =
  dg_mode :: "run_mode option"
  dg_run_intent :: "run_intent option"
  dg_allow_agent_council :: bool
  dg_memory_ablation :: "memory_ablation option"
  dg_resume_checkpoint_id :: "ident option"
  dg_requested_resume_cursor :: "cursor option"
  dg_active_stage :: "active_stage option"
  dg_stage_evidence :: "(cursor \<times> evidence_ref) list"
  dg_last_completed_stage :: "(cursor \<times> ident) option" \<comment> \<open>with its invocation\<close>
  dg_failed_stage :: "(cursor \<times> ident \<times> evidence_ref option) option"
  dg_mailbox_wait_run_id :: "ident option"
  dg_collaboration_deadlock :: bool
  dg_mailbox_timeout :: bool
  dg_council_override :: "ident option" \<comment> \<open>the event that set it\<close>
  dg_legacy_cursor_projection :: bool
  dg_legacy_cursor_projection_suppressed :: bool
  dg_last_event :: "(ident \<times> string) option"
  dg_interrupted_run_id :: "ident option"
  dg_recovery_checkpoint_id :: "ident option"
  dg_terminal :: "(run_status \<times> ident) option" \<comment> \<open>status and event\<close>
  dg_last_safepoint :: "(ident \<times> safepoint_trigger) option"

datatype interrupt_type =
  ItMailboxWait | ItCollaborationDeadlock | ItMailboxTimeout | ItUserInterrupted | ItProcessInterrupted

record interrupt_state =
  is_type :: interrupt_type
  is_reason :: string
  is_from_shutdown :: bool \<comment> \<open>the \<open>source\<close> of a user interruption\<close>
  is_delivery_ids :: "ident list option"
  is_interrupted_run_id :: "ident option"

record runtime_state =
  rt_task_id :: ident
  rt_current_run_id :: "ident option"
  rt_resume_cursor :: cursor
  rt_cursor_input :: "cursor_input option"
  rt_waiting_on :: "ident list" \<comment> \<open>each \<open>{ kind: 'mailbox_reply', delivery_id }\<close>\<close>
  rt_interrupt_state :: "interrupt_state option"
  rt_artifact_refs :: "string list"
  rt_diagnostics :: diagnostics
  rt_updated_at :: timestamp

section \<open>Events and checkpoints\<close>

record coord_event =
  ce_event_id :: ident
  ce_event_type :: string
  ce_subject_id :: ident
  ce_run_id :: "ident option"
  ce_task_id :: "ident option"
  ce_payload :: "(string \<times> json) list"
  ce_created_at :: timestamp

type_synonym stored_event = "nat \<times> coord_event" \<comment> \<open>with its sequence number\<close>

record file_anchor =
  fa_base_commit :: string
  fa_snapshot_commit :: "string option"
  fa_worktree_path :: string
  fa_branch :: string
  fa_modified_files :: "string list"

record checkpoint_message =
  cm_message_id :: ident
  cm_role :: string
  cm_content :: string
  cm_turn :: nat
  cm_artifact_refs :: "string list"
  cm_created_at :: timestamp

record checkpoint_session =
  cs_role_id :: ident
  cs_session_id :: ident
  cs_workspace_path :: "string option"

record checkpoint_mailbox =
  cb_high_watermark :: "(timestamp \<times> ident) option"
  cb_waiting_delivery_ids :: "ident list"

record semantic_handoff =
  sh_done :: "string list"
  sh_in_progress :: "string list"
  sh_blocked_on :: "string list"
  sh_next_steps :: "string list"
  sh_known_risks :: "string list"

datatype validity_status = CpValid | CpInvalid | CpSuperseded

record checkpoint =
  cp_checkpoint_id :: ident
  cp_parent_checkpoint_id :: "ident option"
  cp_task_id :: ident
  cp_run_id :: ident
  cp_agent_id :: ident
  cp_session_id :: "ident option"
  cp_trigger :: safepoint_trigger
  cp_resume_cursor :: cursor
  cp_cursor_input :: "cursor_input option"
  cp_participant_sessions :: "checkpoint_session list option"
  cp_mailbox_state :: "checkpoint_mailbox option"
  cp_council_state_ref :: "string option"
  cp_message_thread :: "checkpoint_message list"
  cp_mechanical_snapshot :: file_anchor
  cp_semantic_handoff :: semantic_handoff
  cp_interrupt_state :: "interrupt_state option"
  cp_artifact_refs :: "string list"
  cp_validity_status :: validity_status
  cp_created_at :: timestamp

record task_aggregate =
  ag_task :: task_state
  ag_runs :: "run_state list"
  ag_runtime :: runtime_state
  ag_events :: "stored_event list"

end
