(* ===== verification/CoordinationStore.thy ===== *)
theory CoordinationStore
  imports CoordinationTypes MailboxStore
begin

text \<open>
  The coordination store (the task, run, event, checkpoint and session tables of
  \<open>src/persistence/sqlite-coordination-store.ts\<close>). Tables are lists of rows in insertion order;
  primary keys, the partial unique index on active runs and the foreign keys are checked where a
  row is written. A commit is a transaction: an error anywhere leaves the database as it was, which
  the model has by construction. Reading turns an empty text column into an absent one, as the code
  does. The mailbox tables are those of \<open>MailboxStore\<close>; its list of event identifiers, the target of a
  foreign key, follows the event table.
\<close>

section \<open>Tables\<close>

record session_binding =
  sb_task_id :: ident
  sb_workspace_path :: string
  sb_role_id :: ident
  sb_session_id :: ident

record coord_db =
  cd_tasks :: "task_state list"
  cd_runs :: "run_state list"
  cd_runtime_states :: "runtime_state list"
  cd_events :: "stored_event list"
  cd_next_sequence :: nat
  cd_checkpoints :: "checkpoint list"
  cd_sessions :: "session_binding list"
  cd_mailbox :: mailbox_db

record coord_commit =
  cc_expected_task_revision :: "nat option"
  cc_task :: task_state
  cc_run :: "run_state option"
  cc_runtime_state :: runtime_state
  cc_checkpoint :: "checkpoint option"
  cc_events :: "coord_event list"

datatype coord_error =
    NoEvents
  | RuntimeOfOtherTask
  | InvalidCursorInput cursor_error
  | CursorInputMismatch
  | RunOfOtherTask
  | EventOfOtherTask
  | EventOfOtherRun
  | CompletedWithoutEvidence
  | CheckpointOfOtherTaskOrRun
  | CheckpointWithoutEvent
  | TaskDoesNotExist ident
  | NewTaskRevision ident
  | RevisionConflict ident "nat option" nat
  | TaskRevisionGap ident
  | AlreadyActiveRun ident ident
  | NewRunRevision ident
  | RunChangesTask ident
  | RunRevisionGap ident
  | EventWithoutTask ident
  | TaskWithoutRuntimeState ident
  | CoordConstraintViolation

definition find_task :: "coord_db \<Rightarrow> ident \<Rightarrow> task_state option" where
  "find_task db i = find (\<lambda>t. tk_task_id t = i) (cd_tasks db)"

definition find_run :: "coord_db \<Rightarrow> ident \<Rightarrow> run_state option" where
  "find_run db i = find (\<lambda>r. rn_run_id r = i) (cd_runs db)"

definition find_runtime :: "coord_db \<Rightarrow> ident \<Rightarrow> runtime_state option" where
  "find_runtime db i = find (\<lambda>s. rt_task_id s = i) (cd_runtime_states db)"

section \<open>Validation of a commit\<close>

definition final_output_ok :: "final_output \<Rightarrow> bool" where
  "final_output_ok fo \<longleftrightarrow> fo_artifact_ref fo \<noteq> [] \<and> fo_workspace_path fo \<noteq> [] \<and> is_sha256 (fo_sha256 fo)"

definition validate_cursor_input :: "runtime_state \<Rightarrow> coord_error + unit" where
  "validate_cursor_input rt =
    (case rt_cursor_input rt of
       None \<Rightarrow> Inr ()
     | Some raw \<Rightarrow>
         (case parse_cursor_input raw of
            Inl e \<Rightarrow> Inl (InvalidCursorInput e)
          | Inr ci \<Rightarrow> ensure (cursor_of ci = rt_resume_cursor rt) CursorInputMismatch))"

fun validate_events :: "ident \<Rightarrow> run_state option \<Rightarrow> coord_event list \<Rightarrow> coord_error + unit" where
  "validate_events task run [] = Inr ()"
| "validate_events task run (e # es) =
     (if ce_task_id e \<noteq> Some task then Inl EventOfOtherTask
      else if (case (non_empty (ce_run_id e), run) of (Some i, Some r) \<Rightarrow> i \<noteq> rn_run_id r | _ \<Rightarrow> False)
        then Inl EventOfOtherRun
      else validate_events task run es)"

definition validate_checkpoint :: "coord_commit \<Rightarrow> checkpoint \<Rightarrow> coord_error + unit" where
  "validate_checkpoint input cp =
    (if cp_task_id cp \<noteq> tk_task_id (cc_task input) \<or>
        (case cc_run input of None \<Rightarrow> False | Some r \<Rightarrow> cp_run_id cp \<noteq> rn_run_id r)
       then Inl CheckpointOfOtherTaskOrRun
     else if \<not> list_ex (\<lambda>e. ce_event_type e = ''checkpoint.saved'' \<and>
          ce_subject_id e = cp_checkpoint_id cp) (cc_events input)
       then Inl CheckpointWithoutEvent
     else Inr ())"

definition validate_commit :: "coord_commit \<Rightarrow> coord_error + unit" where
  "validate_commit input =
    (if cc_events input = [] then Inl NoEvents
     else if rt_task_id (cc_runtime_state input) \<noteq> tk_task_id (cc_task input) then Inl RuntimeOfOtherTask
     else bindR (validate_cursor_input (cc_runtime_state input)) (\<lambda>_.
       if (case cc_run input of None \<Rightarrow> False | Some r \<Rightarrow> rn_task_id r \<noteq> tk_task_id (cc_task input))
         then Inl RunOfOtherTask
       else bindR (validate_events (tk_task_id (cc_task input)) (cc_run input) (cc_events input)) (\<lambda>_.
         if tk_status (cc_task input) = TaskCompleted \<and>
            (case tk_final_output (cc_task input) of None \<Rightarrow> True | Some fo \<Rightarrow> \<not> final_output_ok fo)
           then Inl CompletedWithoutEvidence
         else (case cc_checkpoint input of
                 None \<Rightarrow> Inr ()
               | Some cp \<Rightarrow> validate_checkpoint input cp))))"

section \<open>Writes\<close>

definition write_task :: "coord_commit \<Rightarrow> coord_db \<Rightarrow> coord_error + coord_db" where
  "write_task input db =
    (let t = cc_task input; i = tk_task_id t in
     case find_task db i of
       None \<Rightarrow>
         (if cc_expected_task_revision input \<noteq> None then Inl (TaskDoesNotExist i)
          else if tk_revision t \<noteq> 1 then Inl (NewTaskRevision i)
          else Inr (db\<lparr>cd_tasks := cd_tasks db @ [t]\<rparr>))
     | Some current \<Rightarrow>
         (if cc_expected_task_revision input \<noteq> Some (tk_revision current)
            then Inl (RevisionConflict i (cc_expected_task_revision input) (tk_revision current))
          else if tk_revision t \<noteq> tk_revision current + 1 then Inl (TaskRevisionGap i)
          else Inr (db\<lparr>cd_tasks := map (\<lambda>x. if tk_task_id x = i then t else x) (cd_tasks db)\<rparr>)))"

definition other_active_run :: "run_state \<Rightarrow> coord_db \<Rightarrow> run_state option" where
  "other_active_run r db =
    find (\<lambda>x. rn_task_id x = rn_task_id r \<and> is_active_run x \<and> rn_run_id x \<noteq> rn_run_id r) (cd_runs db)"

definition lineage_ok :: "run_state \<Rightarrow> coord_db \<Rightarrow> bool" where
  \<comment> \<open>the foreign keys of a run\<close>
  "lineage_ok r db \<longleftrightarrow> find_task db (rn_task_id r) \<noteq> None \<and>
     (case rn_restarted_from_run_id r of
        None \<Rightarrow> True
      | Some s \<Rightarrow> s = rn_run_id r \<or> find_run db s \<noteq> None)"

definition write_run :: "run_state \<Rightarrow> coord_db \<Rightarrow> coord_error + coord_db" where
  "write_run r db =
    (case (if is_active_run r then other_active_run r db else None) of
       Some x \<Rightarrow> Inl (AlreadyActiveRun (rn_task_id r) (rn_run_id x))
     | None \<Rightarrow>
         (case find_run db (rn_run_id r) of
            None \<Rightarrow>
              (if rn_revision r \<noteq> 1 then Inl (NewRunRevision (rn_run_id r))
               else if \<not> lineage_ok r db then Inl CoordConstraintViolation
               else Inr (db\<lparr>cd_runs := cd_runs db @ [r]\<rparr>))
          | Some current \<Rightarrow>
              (if rn_task_id current \<noteq> rn_task_id r then Inl (RunChangesTask (rn_run_id r))
               else if rn_revision r \<noteq> rn_revision current + 1 then Inl (RunRevisionGap (rn_run_id r))
               else if \<not> lineage_ok r db then Inl CoordConstraintViolation
               else Inr (db\<lparr>cd_runs := map (\<lambda>x. if rn_run_id x = rn_run_id r then r else x) (cd_runs db)\<rparr>))))"

definition write_runtime_state :: "runtime_state \<Rightarrow> coord_db \<Rightarrow> coord_error + coord_db" where
  "write_runtime_state s db =
    (if find_task db (rt_task_id s) = None \<or>
        (case rt_current_run_id s of None \<Rightarrow> False | Some i \<Rightarrow> find_run db i = None)
       then Inl CoordConstraintViolation
     else Inr (db\<lparr>cd_runtime_states :=
       (if find_runtime db (rt_task_id s) = None then cd_runtime_states db @ [s]
        else map (\<lambda>x. if rt_task_id x = rt_task_id s then s else x) (cd_runtime_states db))\<rparr>))"

definition write_checkpoint :: "checkpoint \<Rightarrow> coord_db \<Rightarrow> coord_error + coord_db" where
  "write_checkpoint cp db =
    (let ids = map cp_checkpoint_id (cd_checkpoints db) in
     if cp_checkpoint_id cp \<in> set ids \<or> find_task db (cp_task_id cp) = None \<or>
        (case cp_parent_checkpoint_id cp of
           None \<Rightarrow> False | Some p \<Rightarrow> p \<noteq> cp_checkpoint_id cp \<and> p \<notin> set ids)
       then Inl CoordConstraintViolation
     else Inr (db\<lparr>cd_checkpoints := cd_checkpoints db @ [cp]\<rparr>))"

definition log_event_id :: "ident \<Rightarrow> mailbox_db \<Rightarrow> mailbox_db" where
  "log_event_id i mb = mb\<lparr>db_event_ids := db_event_ids mb @ [i]\<rparr>"

definition write_event :: "coord_event \<Rightarrow> coord_db \<Rightarrow> coord_error + stored_event \<times> coord_db" where
  "write_event e db =
    (case non_empty (ce_task_id e) of
       None \<Rightarrow> Inl (EventWithoutTask (ce_event_id e))
     | Some task \<Rightarrow>
         (if ce_event_id e \<in> (\<lambda>x. ce_event_id (snd x)) ` set (cd_events db) \<or> find_task db task = None \<or>
             (case ce_run_id e of None \<Rightarrow> False | Some r \<Rightarrow> find_run db r = None)
            then Inl CoordConstraintViolation
          else let stored = (cd_next_sequence db, e) in
            Inr (stored, db\<lparr>cd_events := cd_events db @ [stored],
                            cd_next_sequence := cd_next_sequence db + 1,
                            cd_mailbox := log_event_id (ce_event_id e) (cd_mailbox db)\<rparr>)))"

fun write_events :: "coord_event list \<Rightarrow> coord_db \<Rightarrow> coord_error + stored_event list \<times> coord_db" where
  "write_events [] db = Inr ([], db)"
| "write_events (e # es) db =
     bindR (write_event e db) (\<lambda>(s, db'). bindR (write_events es db') (\<lambda>(ss, db''). Inr (s # ss, db'')))"

definition commit_state :: "coord_commit \<Rightarrow> coord_db \<Rightarrow> coord_error + stored_event list \<times> coord_db" where
  "commit_state input db =
    bindR (validate_commit input) (\<lambda>_.
    bindR (write_task input db) (\<lambda>db1.
    bindR (case cc_run input of None \<Rightarrow> Inr db1 | Some r \<Rightarrow> write_run r db1) (\<lambda>db2.
    bindR (write_runtime_state (cc_runtime_state input) db2) (\<lambda>db3.
    bindR (case cc_checkpoint input of None \<Rightarrow> Inr db3 | Some cp \<Rightarrow> write_checkpoint cp db3) (\<lambda>db4.
      write_events (cc_events input) db4)))))"

section \<open>Reads\<close>

definition read_task :: "task_state \<Rightarrow> task_state" where
  "read_task t = t\<lparr>tk_parent_id := non_empty (tk_parent_id t),
     tk_owner_agent_id := non_empty (tk_owner_agent_id t), tk_role_id := non_empty (tk_role_id t)\<rparr>"

definition read_run :: "run_state \<Rightarrow> run_state" where
  "read_run r = r\<lparr>rn_session_id := non_empty (rn_session_id r),
     rn_restarted_from_run_id := non_empty (rn_restarted_from_run_id r)\<rparr>"

definition read_runtime_state :: "runtime_state \<Rightarrow> coord_error + runtime_state" where
  "read_runtime_state s =
    (case rt_cursor_input s of
       None \<Rightarrow> Inr (s\<lparr>rt_current_run_id := non_empty (rt_current_run_id s)\<rparr>)
     | Some raw \<Rightarrow>
         (case parse_cursor_input raw of
            Inl e \<Rightarrow> Inl (InvalidCursorInput e)
          | Inr ci \<Rightarrow> Inr (s\<lparr>rt_current_run_id := non_empty (rt_current_run_id s),
                             rt_cursor_input := Some ci\<rparr>)))"

definition read_event :: "coord_event \<Rightarrow> coord_event" where
  "read_event e = e\<lparr>ce_run_id := non_empty (ce_run_id e)\<rparr>"

definition read_checkpoint :: "checkpoint \<Rightarrow> checkpoint" where
  "read_checkpoint cp = cp\<lparr>
     cp_parent_checkpoint_id := non_empty (cp_parent_checkpoint_id cp),
     cp_session_id := non_empty (cp_session_id cp),
     cp_cursor_input := (case cp_cursor_input cp of
        None \<Rightarrow> None
      | Some raw \<Rightarrow> (case parse_cursor_input raw of Inl _ \<Rightarrow> None | Inr ci \<Rightarrow> Some ci)),
     cp_council_state_ref := non_empty (cp_council_state_ref cp)\<rparr>"

definition list_events :: "coord_db \<Rightarrow> ident \<Rightarrow> nat \<Rightarrow> stored_event list" where
  "list_events db task after =
    map (\<lambda>(n, e). (n, read_event e))
      (sort_le (\<lambda>a b. fst a \<le> fst b)
        (filter (\<lambda>(n, e). ce_task_id e = Some task \<and> after < n) (cd_events db)))"

definition latest_first :: "run_state \<Rightarrow> run_state \<Rightarrow> bool" where
  \<comment> \<open>\<open>ORDER BY created_at DESC, run_id DESC\<close>\<close>
  "latest_first a b \<longleftrightarrow> rn_created_at b < rn_created_at a \<or>
     rn_created_at a = rn_created_at b \<and> code_unit_compare (rn_run_id b) (rn_run_id a) \<le> 0"

definition runs_of :: "coord_db \<Rightarrow> ident \<Rightarrow> run_state list" where
  "runs_of db task = map read_run (sort_le latest_first (filter (\<lambda>r. rn_task_id r = task) (cd_runs db)))"

definition get_task_aggregate :: "coord_db \<Rightarrow> ident \<Rightarrow> coord_error + task_aggregate option" where
  "get_task_aggregate db task =
    (case find_task db task of
       None \<Rightarrow> Inr None
     | Some t \<Rightarrow>
         (case find_runtime db task of
            None \<Rightarrow> Inl (TaskWithoutRuntimeState task)
          | Some s \<Rightarrow> bindR (read_runtime_state s) (\<lambda>rt.
              Inr (Some \<lparr>ag_task = read_task t, ag_runs = runs_of db task, ag_runtime = rt,
                         ag_events = list_events db task 0\<rparr>))))"

fun read_aggregates :: "coord_db \<Rightarrow> task_state list \<Rightarrow> coord_error + task_aggregate list" where
  "read_aggregates db [] = Inr []"
| "read_aggregates db (t # ts) =
     bindR (get_task_aggregate db (tk_task_id t)) (\<lambda>a.
     bindR (read_aggregates db ts) (\<lambda>as. Inr (case a of None \<Rightarrow> as | Some x \<Rightarrow> x # as)))"

definition list_task_aggregates :: "coord_db \<Rightarrow> coord_error + task_aggregate list" where
  "list_task_aggregates db =
    read_aggregates db (sort_le (\<lambda>a b. tk_updated_at b < tk_updated_at a \<or>
        tk_updated_at a = tk_updated_at b \<and> code_unit_compare (tk_task_id b) (tk_task_id a) \<le> 0)
      (cd_tasks db))"

definition newer_checkpoint :: "checkpoint \<Rightarrow> checkpoint \<Rightarrow> bool" where
  "newer_checkpoint a b \<longleftrightarrow> cp_created_at b < cp_created_at a \<or>
     cp_created_at a = cp_created_at b \<and>
       code_unit_compare (cp_checkpoint_id b) (cp_checkpoint_id a) \<le> 0"

definition get_latest_checkpoint :: "coord_db \<Rightarrow> ident \<Rightarrow> checkpoint option" where
  "get_latest_checkpoint db task =
    (case sort_le newer_checkpoint
       (filter (\<lambda>c. cp_task_id c = task \<and> cp_validity_status c = CpValid) (cd_checkpoints db)) of
       [] \<Rightarrow> None
     | c # _ \<Rightarrow> Some (read_checkpoint c))"

section \<open>Deletion and sessions\<close>

definition delete_mailbox_task :: "ident \<Rightarrow> mailbox_db \<Rightarrow> mailbox_db" where
  \<comment> \<open>\<open>DELETE FROM messages\<close>; the deliveries of a message go with it\<close>
  "delete_mailbox_task task mb =
    (let gone = map mm_message_id (filter (\<lambda>m. mm_task_id m = task) (db_messages mb)) in
     mb\<lparr>db_messages := filter (\<lambda>m. mm_task_id m \<noteq> task) (db_messages mb),
        db_deliveries := filter (\<lambda>d. md_message_id d \<notin> set gone) (db_deliveries mb)\<rparr>)"

definition delete_task :: "ident \<Rightarrow> coord_db \<Rightarrow> coord_error + coord_db" where
  "delete_task task db =
    (let mb = delete_mailbox_task task (cd_mailbox db);
         events = filter (\<lambda>x. ce_task_id (snd x) = Some task) (cd_events db);
         gone = map (\<lambda>x. ce_event_id (snd x)) events;
         runs = filter (\<lambda>r. rn_task_id r \<noteq> task) (cd_runs db);
         kept_runs = map rn_run_id runs
     in if list_ex (\<lambda>m. mm_reply_to m \<noteq> None \<and>
             the (mm_reply_to m) \<notin> mm_message_id ` set (db_messages mb)) (db_messages mb)
          \<or> (find_task db task \<noteq> None \<and>
             (list_ex (\<lambda>d. md_last_delivery_event_id d \<noteq> None \<and>
                the (md_last_delivery_event_id d) \<in> set gone) (db_deliveries mb)
              \<or> list_ex (\<lambda>r. rn_restarted_from_run_id r \<noteq> None \<and>
                  the (rn_restarted_from_run_id r) \<notin> set kept_runs) runs))
        then Inl CoordConstraintViolation
        else Inr (db\<lparr>
          cd_tasks := filter (\<lambda>t. tk_task_id t \<noteq> task) (cd_tasks db),
          cd_runs := runs,
          cd_runtime_states := filter (\<lambda>s. rt_task_id s \<noteq> task) (cd_runtime_states db),
          cd_events := filter (\<lambda>x. ce_task_id (snd x) \<noteq> Some task) (cd_events db),
          cd_checkpoints := filter (\<lambda>c. cp_task_id c \<noteq> task) (cd_checkpoints db),
          cd_sessions := filter (\<lambda>b. sb_task_id b \<noteq> task) (cd_sessions db),
          cd_mailbox := mb\<lparr>db_event_ids := filter (\<lambda>i. i \<notin> set gone) (db_event_ids mb)\<rparr>\<rparr>))"

definition same_binding :: "session_binding \<Rightarrow> ident \<Rightarrow> string \<Rightarrow> ident \<Rightarrow> bool" where
  "same_binding b task ws role \<longleftrightarrow>
     sb_task_id b = task \<and> sb_workspace_path b = ws \<and> sb_role_id b = role"

definition find_participant_session :: "coord_db \<Rightarrow> ident \<Rightarrow> string \<Rightarrow> ident \<Rightarrow> ident option" where
  "find_participant_session db task ws role =
    map_option sb_session_id (find (\<lambda>b. same_binding b task ws role) (cd_sessions db))"

definition save_participant_session :: "session_binding \<Rightarrow> coord_db \<Rightarrow> coord_db" where
  "save_participant_session b db =
    (let same = (\<lambda>x. same_binding x (sb_task_id b) (sb_workspace_path b) (sb_role_id b)) in
     db\<lparr>cd_sessions := (if list_ex same (cd_sessions db)
        then map (\<lambda>x. if same x then x\<lparr>sb_session_id := sb_session_id b\<rparr> else x) (cd_sessions db)
        else cd_sessions db @ [b])\<rparr>)"

definition delete_participant_session :: "ident \<Rightarrow> string \<Rightarrow> ident \<Rightarrow> coord_db \<Rightarrow> coord_db" where
  "delete_participant_session task ws role db =
    db\<lparr>cd_sessions := filter (\<lambda>b. \<not> same_binding b task ws role) (cd_sessions db)\<rparr>"

definition list_participant_sessions :: "coord_db \<Rightarrow> ident \<Rightarrow> string \<Rightarrow> session_binding list" where
  "list_participant_sessions db task ws =
    sort_le (\<lambda>a b. code_unit_compare (sb_role_id a) (sb_role_id b) \<le> 0)
      (filter (\<lambda>b. sb_task_id b = task \<and> sb_workspace_path b = ws) (cd_sessions db))"

definition list_participant_sessions_for_task :: "coord_db \<Rightarrow> ident \<Rightarrow> session_binding list" where
  "list_participant_sessions_for_task db task =
    sort_le (\<lambda>a b. code_unit_compare (sb_workspace_path a) (sb_workspace_path b) < 0 \<or>
        sb_workspace_path a = sb_workspace_path b \<and>
          code_unit_compare (sb_role_id a) (sb_role_id b) \<le> 0)
      (filter (\<lambda>b. sb_task_id b = task) (cd_sessions db))"

datatype registry_error = BindingFieldRequired string | BindingConflict ident ident ident ident

definition register_session :: "session_binding \<Rightarrow> coord_db \<Rightarrow> registry_error + coord_db" where
  \<comment> \<open>\<open>PersistentParticipantSessionRegistry.register\<close>\<close>
  "register_session b db =
    bindR (ensure (\<not> blank (sb_task_id b)) (BindingFieldRequired ''task_id'')) (\<lambda>_.
    bindR (ensure (\<not> blank (sb_workspace_path b)) (BindingFieldRequired ''workspace_path'')) (\<lambda>_.
    bindR (ensure (\<not> blank (sb_role_id b)) (BindingFieldRequired ''role_id'')) (\<lambda>_.
    bindR (ensure (\<not> blank (sb_session_id b)) (BindingFieldRequired ''session_id'')) (\<lambda>_.
      (case non_empty (find_participant_session db (sb_task_id b) (sb_workspace_path b) (sb_role_id b)) of
         Some existing \<Rightarrow>
           (if existing \<noteq> sb_session_id b
            then Inl (BindingConflict (sb_task_id b) (sb_role_id b) existing (sb_session_id b))
            else Inr (save_participant_session b db))
       | None \<Rightarrow> Inr (save_participant_session b db))))))"

definition empty_coord_db :: coord_db where
  "empty_coord_db = \<lparr>cd_tasks = [], cd_runs = [], cd_runtime_states = [], cd_events = [],
     cd_next_sequence = 1, cd_checkpoints = [], cd_sessions = [],
     cd_mailbox = \<lparr>db_messages = [], db_deliveries = [], db_event_ids = []\<rparr>\<rparr>"

end
