(* ===== verification/Safepoint.thy ===== *)
theory Safepoint
  imports CoordinationStore
begin

text \<open>
  Checkpoints and resume packages (\<open>src/checkpoint/safepoint.ts\<close>, \<open>src/checkpoint/resume-package.ts\<close>).
  The capture of the workspace by Git is an argument: it maps the workspace and a label to a file
  anchor and whether its content can be restored. The session registry is optional in the code; the
  bindings it lists for the task are an optional argument. A deadline-free mailbox store is always
  given, as the production composition does.
\<close>

section \<open>Reading events\<close>

definition project_run_event_source :: "string \<Rightarrow> string" where
  "project_run_event_source t =
    (if starts_with t ''agent.'' then ''agent''
     else if starts_with t ''driver.'' then ''driver''
     else if starts_with t ''memory.'' \<or> starts_with t ''buffer.'' then ''memory''
     else if starts_with t ''gate.'' then ''gate''
     else if starts_with t ''council.'' then ''council''
     else ''coordinator'')"

definition payload_text :: "(string \<times> json) list \<Rightarrow> string \<Rightarrow> string option" where
  \<comment> \<open>\<open>typeof value === 'string' && value.length > 0\<close>\<close>
  "payload_text payload key = non_empty (json_string (map_of payload key))"

definition payload_words :: "(string \<times> json) list \<Rightarrow> string \<Rightarrow> string option" where
  \<comment> \<open>\<open>typeof value === 'string' && value.trim()\<close>\<close>
  "payload_words payload key =
    (case json_string (map_of payload key) of
       None \<Rightarrow> None | Some v \<Rightarrow> if blank v then None else Some v)"

definition payload_strings :: "(string \<times> json) list \<Rightarrow> string \<Rightarrow> string list" where
  "payload_strings payload key =
    (case map_of payload key of
       Some (JArr xs) \<Rightarrow> List.map_filter (\<lambda>x. json_string (Some x)) xs
     | _ \<Rightarrow> [])"

fun first_agent_id :: "stored_event list \<Rightarrow> string option" where
  "first_agent_id [] = None"
| "first_agent_id ((_, e) # es) =
     (case payload_text (ce_payload e) ''agent_id'' of Some a \<Rightarrow> Some a | None \<Rightarrow> first_agent_id es)"

definition read_latest_agent_id :: "task_aggregate \<Rightarrow> string option" where
  "read_latest_agent_id ag = first_agent_id (rev (ag_events ag))"

section \<open>Cursor inputs for a resume\<close>

definition first_some :: "'a option list \<Rightarrow> 'a option" where
  \<comment> \<open>a chain of \<open>??\<close>\<close>
  "first_some xs = (case List.map_filter (\<lambda>x. x) xs of [] \<Rightarrow> None | x # _ \<Rightarrow> Some x)"

definition last_opt :: "'a list \<Rightarrow> 'a option" where
  "last_opt xs = (if xs = [] then None else Some (last xs))"

definition zero_sha256 :: string where
  "zero_sha256 = replicate 64 CHR ''0''"

fun synthesize_cursor_input :: "cursor \<Rightarrow> task_aggregate \<Rightarrow> ident \<Rightarrow> cursor_input option" where
  \<comment> \<open>the diagnostics \<open>winner_agent_id\<close>, \<open>changeset_ref\<close> and \<open>expected_sha256\<close> that the code also
      consults are written nowhere in the program\<close>
  "synthesize_cursor_input SelectAgent ag run = Some (InSelect run [] None)"
| "synthesize_cursor_input ExecuteAgent ag run =
     (case non_empty (first_some [tk_owner_agent_id (ag_task ag), read_latest_agent_id ag]) of
        None \<Rightarrow> None | Some w \<Rightarrow> Some (InExecute w None None))"
| "synthesize_cursor_input Council ag run = Some (InCouncil PersistentOverride None None)"
| "synthesize_cursor_input GateStage ag run =
     (case non_empty (last_opt (rt_artifact_refs (ag_runtime ag))) of
        None \<Rightarrow> None | Some c \<Rightarrow> Some (InGate c ''post_primary'' c zero_sha256))"
| "synthesize_cursor_input Deliver ag run =
     (case non_empty (last_opt (rt_artifact_refs (ag_runtime ag))) of
        None \<Rightarrow> None | Some c \<Rightarrow> Some (InDeliver c zero_sha256))"
| "synthesize_cursor_input MailboxWait ag run = Some (InWait [] ''resume_from_checkpoint'')"
| "synthesize_cursor_input CursorDone ag run = Some InDone"

section \<open>Safepoints\<close>

record safepoint_input =
  sp_run_id :: ident
  sp_trigger :: safepoint_trigger
  sp_parent_checkpoint_id :: "ident option"
  sp_interrupt_state :: "interrupt_state option"
  sp_inherited :: "file_anchor option"
  sp_now :: timestamp
  sp_checkpoint_id :: ident

definition matching_cursor_input :: "runtime_state \<Rightarrow> cursor_input option" where
  "matching_cursor_input rt =
    (case rt_cursor_input rt of
       Some ci \<Rightarrow> if cursor_of ci = rt_resume_cursor rt then Some ci else None
     | None \<Rightarrow> None)"

definition collect_participant_sessions :: "task_aggregate \<Rightarrow> (ident \<times> ident) list" where
  \<comment> \<open>role to session, the last binding of a role wins at the place of the first\<close>
  "collect_participant_sessions ag =
    (let from_runs = fold (\<lambda>r m. case (non_empty (rn_session_id r), non_empty (tk_role_id (ag_task ag))) of
           (Some s, Some role) \<Rightarrow> AList.update role s m | _ \<Rightarrow> m) (ag_runs ag) []
     in fold (\<lambda>(_, e) m.
          let role = first_some [payload_words (ce_payload e) ''role_id'', payload_words (ce_payload e) ''agent_id'']
          in case (role, payload_words (ce_payload e) ''session_id'') of
               (Some r, Some s) \<Rightarrow> AList.update r s m | _ \<Rightarrow> m) (ag_events ag) from_runs)"

fun first_sessions :: "(ident \<times> ident) list \<Rightarrow> checkpoint_session list \<Rightarrow> checkpoint_session list" where
  \<comment> \<open>keep the first entry of each pair of role and session\<close>
  "first_sessions seen [] = []"
| "first_sessions seen (s # ss) =
     (if (cs_role_id s, cs_session_id s) \<in> set seen then first_sessions seen ss
      else s # first_sessions ((cs_role_id s, cs_session_id s) # seen) ss)"

definition participant_sessions_of ::
  "session_binding list option \<Rightarrow> task_aggregate \<Rightarrow> checkpoint_session list" where
  "participant_sessions_of registry ag =
    first_sessions []
      (map (\<lambda>b. \<lparr>cs_role_id = sb_role_id b, cs_session_id = sb_session_id b,
                 cs_workspace_path = Some (sb_workspace_path b)\<rparr>) (or_default registry [])
       @ map (\<lambda>(r, s). \<lparr>cs_role_id = r, cs_session_id = s, cs_workspace_path = None\<rparr>)
           (collect_participant_sessions ag))"

fun message_thread :: "nat \<Rightarrow> stored_event list \<Rightarrow> checkpoint_message list" where
  "message_thread n [] = []"
| "message_thread n ((_, e) # es) =
     \<lparr>cm_message_id = ce_event_id e, cm_role = project_run_event_source (ce_event_type e),
      cm_content = ce_event_type e, cm_turn = n,
      cm_artifact_refs = payload_strings (ce_payload e) ''artifact_refs'',
      cm_created_at = ce_created_at e\<rparr> # message_thread (n + 1) es"

definition trigger_name :: "safepoint_trigger \<Rightarrow> string" where
  "trigger_name t = (case t of TrManual \<Rightarrow> ''manual'' | TrPeriodic \<Rightarrow> ''periodic'' | TrShutdown \<Rightarrow> ''shutdown''
     | TrBlocked \<Rightarrow> ''blocked'' | TrEscalated \<Rightarrow> ''escalated'')"

definition semantic_handoff_of :: "safepoint_input \<Rightarrow> task_aggregate \<Rightarrow> bool \<Rightarrow> semantic_handoff" where
  "semantic_handoff_of inp ag recoverable =
    (let cursor = cursor_name (rt_resume_cursor (ag_runtime ag));
         crashed = (sp_trigger inp = TrBlocked \<and>
           (case sp_interrupt_state inp of None \<Rightarrow> False | Some i \<Rightarrow> is_type i = ItProcessInterrupted))
     in \<lparr>sh_done = map (\<lambda>x. ce_event_type (snd x)) (ag_events ag),
         sh_in_progress = [cursor],
         sh_blocked_on = (if crashed then [''backend process interrupted'']
            else if sp_trigger inp = TrBlocked \<or> sp_trigger inp = TrShutdown
            then [trigger_name (sp_trigger inp)] else []),
         sh_next_steps = [''resume '' @ cursor],
         sh_known_risks = (if recoverable
            then (if crashed then [''unfinished action will be re-executed''] else [])
            else [''file anchor unavailable; workspace path only''])\<rparr>)"

definition build_safepoint_checkpoint ::
  "(string \<Rightarrow> ident \<Rightarrow> file_anchor \<times> bool) \<Rightarrow> session_binding list option \<Rightarrow> mailbox_db
    \<Rightarrow> safepoint_input \<Rightarrow> task_aggregate \<Rightarrow> checkpoint option" where
  \<comment> \<open>\<open>None\<close> when the run is not one of the task\<close>
  "build_safepoint_checkpoint capture registry mb inp ag =
    (case find (\<lambda>r. rn_run_id r = sp_run_id inp) (ag_runs ag) of
       None \<Rightarrow> None
     | Some run \<Rightarrow>
        (let task = ag_task ag; rt = ag_runtime ag;
             cursor = rt_resume_cursor rt;
             ci = first_some [matching_cursor_input rt, synthesize_cursor_input cursor ag (sp_run_id inp)];
             inherited = (case sp_inherited inp of
               Some a \<Rightarrow> if non_empty (fa_snapshot_commit a) = None then None else Some a | None \<Rightarrow> None);
             (anchor, recoverable) = (case inherited of
               Some a \<Rightarrow> (a, True)
             | None \<Rightarrow> capture (tk_workspace_path task) (sp_checkpoint_id inp));
             agent = or_default (first_some
               [read_latest_agent_id ag, tk_owner_agent_id task, tk_role_id task]) ''coordinator'';
             waiting = (case rt_cursor_input rt of Some (InWait ds _) \<Rightarrow> ds | _ \<Rightarrow> []);
             sessions = participant_sessions_of registry ag
         in Some \<lparr>cp_checkpoint_id = sp_checkpoint_id inp,
             cp_parent_checkpoint_id = non_empty (sp_parent_checkpoint_id inp),
             cp_task_id = tk_task_id task, cp_run_id = sp_run_id inp, cp_agent_id = agent,
             cp_session_id = non_empty (rn_session_id run), cp_trigger = sp_trigger inp,
             cp_resume_cursor = cursor, cp_cursor_input = ci,
             cp_participant_sessions = (if sessions = [] then None else Some sessions),
             cp_mailbox_state = Some \<lparr>
               cb_high_watermark = mailbox_high_watermark mb (tk_task_id task) (tk_workspace_path task),
               cb_waiting_delivery_ids = waiting\<rparr>,
             cp_council_state_ref = None,
             cp_message_thread = message_thread 1 (ag_events ag),
             cp_mechanical_snapshot = anchor\<lparr>fa_snapshot_commit := non_empty (fa_snapshot_commit anchor)\<rparr>,
             cp_semantic_handoff = semantic_handoff_of inp ag recoverable,
             cp_interrupt_state = sp_interrupt_state inp,
             cp_artifact_refs = rt_artifact_refs rt,
             cp_validity_status = CpValid,
             cp_created_at = sp_now inp\<rparr>))"

section \<open>Resume packages\<close>

datatype resume_error =
    CheckpointForeign ident ident
  | CheckpointRunMissing ident ident
  | SessionNotRecoverable ident ident
  | CursorInputLost cursor
  | MailboxReadFailed store_error

definition usable_resume_input :: "cursor \<Rightarrow> cursor_input \<Rightarrow> bool" where
  "usable_resume_input c ci \<longleftrightarrow>
     cursor_input_ok ci \<and> cursor_of ci = c \<and> (case ci of InWait ds _ \<Rightarrow> ds \<noteq> [] | _ \<Rightarrow> True)"

definition resolve_resume_cursor_input ::
  "task_aggregate \<Rightarrow> checkpoint \<Rightarrow> resume_error + cursor_input" where
  "resolve_resume_cursor_input ag cp =
    (let candidates =
       [cp_cursor_input cp,
        rt_cursor_input (ag_runtime ag),
        (case cp_mailbox_state cp of
           Some m \<Rightarrow> if cp_resume_cursor cp = MailboxWait
             then Some (InWait (cb_waiting_delivery_ids m) ''resume_from_checkpoint'') else None
         | None \<Rightarrow> None),
        synthesize_cursor_input (cp_resume_cursor cp) ag (cp_run_id cp)]
     in case filter (usable_resume_input (cp_resume_cursor cp)) (List.map_filter (\<lambda>x. x) candidates) of
          [] \<Rightarrow> Inl (CursorInputLost (cp_resume_cursor cp))
        | ci # _ \<Rightarrow> Inr ci)"

fun deduplicate_deliveries :: "ident list \<Rightarrow> mailbox_delivery list \<Rightarrow> mailbox_delivery list" where
  "deduplicate_deliveries seen [] = []"
| "deduplicate_deliveries seen (d # ds) =
     (if md_delivery_id d \<in> set seen then deduplicate_deliveries seen ds
      else d # deduplicate_deliveries (md_delivery_id d # seen) ds)"

definition participant_workspace ::
  "session_binding list option \<Rightarrow> task_state \<Rightarrow> checkpoint_session \<Rightarrow> string" where
  \<comment> \<open>the workspace of a participant; older checkpoints lack it\<close>
  "participant_workspace registry task p =
    (case non_empty (cs_workspace_path p) of
       Some w \<Rightarrow> w
     | None \<Rightarrow> or_default (cs_workspace_path p)
        (case filter (\<lambda>b. sb_role_id b = cs_role_id p \<and> sb_session_id b = cs_session_id p)
            (or_default registry []) of
           [b] \<Rightarrow> sb_workspace_path b
         | _ \<Rightarrow> tk_workspace_path task))"

definition session_recoverable ::
  "session_binding list option \<Rightarrow> task_state \<Rightarrow> checkpoint_session \<Rightarrow> bool" where
  "session_recoverable registry task p =
    (case find (\<lambda>b. sb_workspace_path b = participant_workspace registry task p \<and>
              sb_role_id b = cs_role_id p) (or_default registry []) of
       None \<Rightarrow> True
     | Some b \<Rightarrow> sb_session_id b = cs_session_id p)"

record resume_package =
  rp_task_id :: ident
  rp_checkpoint_id :: ident
  rp_interrupted_run_id :: ident
  rp_mode :: run_mode
  rp_resume_cursor :: cursor
  rp_cursor_input :: cursor_input
  rp_session_id :: "ident option"
  rp_workspace_path :: string
  rp_artifact_refs :: "string list"
  rp_message_thread :: "checkpoint_message list"
  rp_pending_deliveries :: "mailbox_delivery list"
  rp_waiting_delivery_ids :: "ident list"
  rp_high_watermark :: "(timestamp \<times> ident) option"
  rp_participant_sessions :: "checkpoint_session list"
  rp_file_anchor :: file_anchor
  rp_recoverable :: bool
  rp_council_state_ref :: "string option"
  rp_interrupt_state :: "interrupt_state option"
  \<comment> \<open>the request of the task\<close>
  rp_spec :: string
  rp_role_id :: "ident option"
  rp_parent_task_id :: "ident option"
  rp_risk_level :: risk_level
  rp_affected_paths :: "string list"
  rp_completion_criteria :: "string list"
  rp_budget :: "task_budget option"

definition build_resume_package ::
  "session_binding list option \<Rightarrow> mailbox_db \<Rightarrow> task_aggregate \<Rightarrow> checkpoint
    \<Rightarrow> resume_error + resume_package" where
  "build_resume_package registry mb ag cp =
    (let task = ag_task ag in
     if cp_task_id cp \<noteq> tk_task_id task then Inl (CheckpointForeign (cp_checkpoint_id cp) (tk_task_id task))
     else case find (\<lambda>r. rn_run_id r = cp_run_id cp) (ag_runs ag) of
       None \<Rightarrow> Inl (CheckpointRunMissing (cp_run_id cp) (cp_task_id cp))
     | Some run \<Rightarrow>
        bindR (resolve_resume_cursor_input ag cp) (\<lambda>ci.
          let sessions = or_default (cp_participant_sessions cp) [];
              watermark = (case cp_mailbox_state cp of None \<Rightarrow> None | Some m \<Rightarrow> cb_high_watermark m)
          in case find (\<lambda>p. \<not> session_recoverable registry task p) sessions of
               Some p \<Rightarrow> Inl (SessionNotRecoverable (cs_role_id p) (cs_session_id p))
             | None \<Rightarrow>
                (case (list_deliveries_after mb (tk_task_id task) (tk_workspace_path task) watermark,
                       list_replayable_deliveries mb (Some (tk_task_id task)) (Some (tk_workspace_path task)) None) of
                   (Inl e, _) \<Rightarrow> Inl (MailboxReadFailed e)
                 | (_, Inl e) \<Rightarrow> Inl (MailboxReadFailed e)
                 | (Inr after, Inr pending) \<Rightarrow>
                     Inr \<lparr>rp_task_id = tk_task_id task, rp_checkpoint_id = cp_checkpoint_id cp,
                       rp_interrupted_run_id = cp_run_id cp, rp_mode = rn_mode run,
                       rp_resume_cursor = cp_resume_cursor cp, rp_cursor_input = ci,
                       rp_session_id = first_some [cp_session_id cp, rn_session_id run],
                       rp_workspace_path = tk_workspace_path task,
                       rp_artifact_refs = cp_artifact_refs cp,
                       rp_message_thread = cp_message_thread cp,
                       rp_pending_deliveries = deduplicate_deliveries []
                         (map ev_delivery (pending @ after)),
                       rp_waiting_delivery_ids = (case cp_mailbox_state cp of
                          None \<Rightarrow> [] | Some m \<Rightarrow> cb_waiting_delivery_ids m),
                       rp_high_watermark = watermark,
                       rp_participant_sessions = sessions,
                       rp_file_anchor = cp_mechanical_snapshot cp,
                       rp_recoverable =
                         (\<not> starts_with (fa_base_commit (cp_mechanical_snapshot cp)) ''unavailable:'' \<and>
                          non_empty (fa_snapshot_commit (cp_mechanical_snapshot cp)) \<noteq> None),
                       rp_council_state_ref = non_empty (cp_council_state_ref cp),
                       rp_interrupt_state = cp_interrupt_state cp,
                       rp_spec = tk_spec task, rp_role_id = non_empty (tk_role_id task),
                       rp_parent_task_id = non_empty (tk_parent_id task),
                       rp_risk_level = tk_risk_level task, rp_affected_paths = tk_affected_paths task,
                       rp_completion_criteria = tk_completion_criteria task,
                       rp_budget = tk_budget task\<rparr>)))"

end
