(* ===== verification/TaskProcessor.thy ===== *)
theory TaskProcessor
  imports Safepoint
begin

text \<open>
  The task processor (\<open>src/coordination/task-processor.ts\<close>), the only writer of tasks and runs: it reads
  the aggregate of a task, checks the request against it and commits the next state with its events
  in one transaction. Modelled in the composition without the SAP and AAP bridges (the options
  \<open>sapBridge\<close> and \<open>aapBridge\<close> absent) and with the mailbox tables of the same store. An operation
  returns its error, in which case nothing was written, or the committed events and the new
  database. The snapshot the code returns after a commit is a projection of the aggregate it reads
  back (\<open>get_task_snapshot\<close>). The clock is read once per operation; fresh identifiers are numbered.
\<close>

section \<open>Inputs and errors\<close>

record task_request =
  tr_spec :: string
  tr_role_id :: "ident option"
  tr_parent_task_id :: "ident option"
  tr_risk_level :: "risk_level option"
  tr_affected_paths :: "string list option"
  tr_completion_criteria :: "string list"
  tr_budget :: "task_budget option"
  tr_allow_agent_council :: bool

record begin_run_input =
  bi_task_id :: ident
  bi_run_id :: ident
  bi_task_request :: task_request
  bi_workspace_path :: string
  bi_mode :: run_mode
  bi_memory_ablation :: "memory_ablation option"
  bi_session_id :: "ident option"
  bi_restarted_from_run_id :: "ident option"
  bi_resume_checkpoint_id :: "ident option"
  bi_requested_resume_cursor :: "cursor option"
  bi_cursor_input :: "cursor_input option"
  bi_run_intent :: "run_intent option"
  bi_task_created_event :: "coord_event option"
  bi_run_created_event :: "coord_event option"
  bi_run_started_event :: "coord_event option"

record stage_input =
  sg_run_id :: ident
  sg_expected_cursor :: cursor
  sg_invocation_id :: ident
  sg_event :: "coord_event option"

record advance_input = stage_input +
  ai_evidence_ref :: evidence_ref
  ai_next_input :: cursor_input
  ai_council_override_input :: "cursor_input option" \<comment> \<open>a Council input\<close>
  ai_artifact_refs :: "string list option"
  ai_owner_agent_id :: "ident option"
  ai_session_id :: "ident option"
  ai_final_output :: "final_output option"
  ai_warnings :: "string list option"

record fail_stage_input = stage_input +
  fa_error :: task_error
  fa_evidence_ref :: "evidence_ref option"
  fa_artifact_refs :: "string list option"
  fa_owner_agent_id :: "ident option"
  fa_session_id :: "ident option"

record finish_run_input =
  fr_run_id :: ident
  fr_status :: run_status \<comment> \<open>completed, failed or cancelled\<close>
  fr_snapshot :: "run_snapshot option"
  fr_final_output :: "final_output option"
  fr_warnings :: "string list option"
  fr_error :: "task_error option"
  fr_event :: "coord_event option"

record proc_env =
  pe_now :: timestamp
  pe_event_id :: "nat \<Rightarrow> ident"
  pe_checkpoint_id :: ident
  pe_capture :: "string \<Rightarrow> ident \<Rightarrow> file_anchor \<times> bool"
  pe_with_sessions :: bool \<comment> \<open>the option \<open>participantSessions\<close> is given\<close>

datatype begin_error =
    TaskHasActiveRun ident ident
  | DefinitionChanged ident
  | CreateOfExisting ident
  | FreshTaskNotAtStart ident
  | CreateWithResumeFields
  | IntentNeedsTask run_intent ident
  | RefinementNotCouncil
  | RefinementWithLineage
  | ContinuationNotWaiting
  | ContinuationOtherAgent
  | ContinuationWithoutSource
  | ContinuationOtherMode
  | ContinuationWithCheckpoint
  | EnvelopeMissing ident
  | ReplyDoesNotMatch
  | ResumeNotLatest ident
  | ResumeOtherLineage ident
  | ResumeSourceNotInterrupted ident
  | ResumeOtherMode
  | ResumeCursorStrategy resume_strategy

datatype stage_error =
    NoActiveStage ident
  | InvocationMismatch cursor ident cursor ident
  | WrongStageEventType string
  | ForeignStageEvent ident
  | BadEvidence
  | OverrideInputMissing
  | OverrideInputMisplaced
  | InvalidCursorTransition cursor cursor
  | GateChangesetChanged
  | FinalOutputChanged
  | FinalOutputMissing
  | BadFinalOutput
  | DuplicateStageEvent ident
  | StageAlreadyActive ident
  | CursorMismatch cursor cursor
  | NoMatchingCursorInput cursor
  | InvalidActiveStage

datatype processor_error =
    BeginRefused begin_error
  | StageRefused stage_error
  | StoreFailed coord_error
  | MailboxFailed store_error
  | StatusRefused task_state_error
  | CursorInputRefused cursor_error
  | UnknownTask ident
  | UnknownRun ident
  | StageCommitFailed coord_error
  | RunAlready ident run_status
  | TaskIs ident task_status
  | NotCurrentRun ident ident
  | NotWaitingOnMailbox ident
  | NoAssociatedRun ident
  | OverrideTooLate cursor
  | ForeignEvent ident
  | SafepointRunMissing ident

definition lift_coord :: "coord_error + 'a \<Rightarrow> processor_error + 'a" where
  "lift_coord r = (case r of Inl e \<Rightarrow> Inl (StoreFailed e) | Inr x \<Rightarrow> Inr x)"

definition lift_mailbox :: "store_error + 'a \<Rightarrow> processor_error + 'a" where
  "lift_mailbox r = (case r of Inl e \<Rightarrow> Inl (MailboxFailed e) | Inr x \<Rightarrow> Inr x)"

definition lift_status :: "task_state_error + 'a \<Rightarrow> processor_error + 'a" where
  "lift_status r = (case r of Inl e \<Rightarrow> Inl (StatusRefused e) | Inr x \<Rightarrow> Inr x)"

definition lift_cursor :: "cursor_error + 'a \<Rightarrow> processor_error + 'a" where
  "lift_cursor r = (case r of Inl e \<Rightarrow> Inl (CursorInputRefused e) | Inr x \<Rightarrow> Inr x)"

lemma lift_Inr [simp]:
  "lift_coord r = Inr x \<longleftrightarrow> r = Inr x" "lift_mailbox m = Inr y \<longleftrightarrow> m = Inr y"
  "lift_status s = Inr z \<longleftrightarrow> s = Inr z" "lift_cursor c = Inr w \<longleftrightarrow> c = Inr w"
  by (auto simp: lift_coord_def lift_mailbox_def lift_status_def lift_cursor_def split: sum.splits)

section \<open>Reading the store\<close>

definition get_task_snapshot :: "coord_db \<Rightarrow> ident \<Rightarrow> processor_error + task_aggregate" where
  "get_task_snapshot db task =
    bindR (lift_coord (get_task_aggregate db task)) (\<lambda>a.
      case a of None \<Rightarrow> Inl (UnknownTask task) | Some ag \<Rightarrow> Inr ag)"

definition require_aggregate_for_run :: "coord_db \<Rightarrow> ident \<Rightarrow> processor_error + task_aggregate" where
  "require_aggregate_for_run db run =
    bindR (lift_coord (list_task_aggregates db)) (\<lambda>ags.
      case find (\<lambda>a. list_ex (\<lambda>r. rn_run_id r = run) (ag_runs a)) ags of
        None \<Rightarrow> Inl (UnknownRun run) | Some a \<Rightarrow> Inr a)"

definition require_run :: "task_aggregate \<Rightarrow> ident \<Rightarrow> processor_error + run_state" where
  "require_run ag run =
    (case find (\<lambda>r. rn_run_id r = run) (ag_runs ag) of None \<Rightarrow> Inl (UnknownRun run) | Some r \<Rightarrow> Inr r)"

definition read_active_stage :: "diagnostics \<Rightarrow> processor_error + active_stage option" where
  "read_active_stage d =
    (case dg_active_stage d of
       None \<Rightarrow> Inr None
     | Some s \<Rightarrow> if as_invocation_id s = [] then Inl (StageRefused InvalidActiveStage) else Inr (Some s))"

definition registry_of :: "proc_env \<Rightarrow> coord_db \<Rightarrow> ident \<Rightarrow> session_binding list option" where
  "registry_of env db task =
    (if pe_with_sessions env then Some (list_participant_sessions_for_task db task) else None)"

definition create_event ::
  "proc_env \<Rightarrow> nat \<Rightarrow> string \<Rightarrow> ident \<Rightarrow> ident \<Rightarrow> ident \<Rightarrow> (string \<times> json) list \<Rightarrow> coord_event" where
  "create_event env k event_type subject task run payload =
    \<lparr>ce_event_id = pe_event_id env k, ce_event_type = event_type, ce_subject_id = subject,
     ce_run_id = Some run, ce_task_id = Some task, ce_payload = payload, ce_created_at = pe_now env\<rparr>"

section \<open>Checks\<close>

definition cursor_transitions :: "cursor \<Rightarrow> cursor list" where
  "cursor_transitions c = (case c of
     SelectAgent \<Rightarrow> [ExecuteAgent]
   | ExecuteAgent \<Rightarrow> [Council, GateStage, MailboxWait]
   | Council \<Rightarrow> [GateStage]
   | GateStage \<Rightarrow> [Deliver]
   | Deliver \<Rightarrow> [CursorDone]
   | MailboxWait \<Rightarrow> []
   | CursorDone \<Rightarrow> [])"

definition assert_cursor_transition :: "cursor \<Rightarrow> cursor \<Rightarrow> processor_error + unit" where
  "assert_cursor_transition current nxt =
    ensure (nxt \<in> set (cursor_transitions current)) (StageRefused (InvalidCursorTransition current nxt))"

definition assert_active_run_ownership :: "task_aggregate \<Rightarrow> run_state \<Rightarrow> processor_error + unit" where
  "assert_active_run_ownership ag run =
    (if \<not> is_active_run run then Inl (RunAlready (rn_run_id run) (rn_status run))
     else if tk_status (ag_task ag) \<noteq> TaskRunning then Inl (TaskIs (tk_task_id (ag_task ag)) (tk_status (ag_task ag)))
     else if rt_current_run_id (ag_runtime ag) \<noteq> Some (rn_run_id run)
       then Inl (NotCurrentRun (rn_run_id run) (tk_task_id (ag_task ag)))
     else Inr ())"

definition assert_active_stage_target ::
  "task_aggregate \<Rightarrow> run_state \<Rightarrow> cursor \<Rightarrow> processor_error + unit" where
  "assert_active_stage_target ag run expected =
    bindR (assert_active_run_ownership ag run) (\<lambda>_.
      if rt_resume_cursor (ag_runtime ag) \<noteq> expected
        then Inl (StageRefused (CursorMismatch expected (rt_resume_cursor (ag_runtime ag))))
      else if map_option cursor_of (rt_cursor_input (ag_runtime ag)) \<noteq> Some expected
        then Inl (StageRefused (NoMatchingCursorInput expected))
      else Inr ())"

definition assert_evidence_reference :: "evidence_ref \<Rightarrow> processor_error + unit" where
  "assert_evidence_reference r = ensure (er_uri r \<noteq> [] \<and> is_sha256 (er_sha256 r)) (StageRefused BadEvidence)"

definition assert_invocation :: "task_aggregate \<Rightarrow> cursor \<Rightarrow> ident \<Rightarrow> processor_error + unit" where
  "assert_invocation ag expected invocation =
    bindR (read_active_stage (rt_diagnostics (ag_runtime ag))) (\<lambda>active.
      case active of
        None \<Rightarrow> Inl (StageRefused (NoActiveStage (or_default (rt_current_run_id (ag_runtime ag)) ''unknown'')))
      | Some s \<Rightarrow>
          ensure (as_cursor s = expected \<and> as_invocation_id s = invocation)
            (StageRefused (InvocationMismatch expected invocation (as_cursor s) (as_invocation_id s))))"

definition assert_stage_event :: "coord_event \<Rightarrow> string \<Rightarrow> ident \<Rightarrow> ident \<Rightarrow> processor_error + unit" where
  "assert_stage_event e event_type task run =
    (if ce_event_type e \<noteq> event_type then Inl (StageRefused (WrongStageEventType event_type))
     else if ce_task_id e \<noteq> Some task \<or> ce_run_id e \<noteq> Some run then Inl (StageRefused (ForeignStageEvent (ce_event_id e)))
     else Inr ())"

definition assert_changeset_identity ::
  "cursor_input option \<Rightarrow> cursor_input \<Rightarrow> final_output option \<Rightarrow> processor_error + unit" where
  "assert_changeset_identity current nxt output =
    (case (current, nxt) of
       (Some (InGate _ _ cs sha), InDeliver cs' sha') \<Rightarrow>
         ensure (cs' = cs \<and> sha' = sha) (StageRefused GateChangesetChanged)
     | (Some (InDeliver cs sha), InDone) \<Rightarrow>
         ensure (case output of None \<Rightarrow> False
                 | Some fo \<Rightarrow> fo_artifact_ref fo = cs \<and> fo_sha256 fo = sha) (StageRefused FinalOutputChanged)
     | _ \<Rightarrow> Inr ())"

definition assert_final_output_evidence :: "final_output \<Rightarrow> processor_error + unit" where
  "assert_final_output_evidence fo = ensure (final_output_ok fo) (StageRefused BadFinalOutput)"

definition resolve_stage_next_input ::
  "task_aggregate \<Rightarrow> advance_input \<Rightarrow> processor_error + cursor_input" where
  "resolve_stage_next_input ag inp =
    (let override_requested = (dg_council_override (rt_diagnostics (ag_runtime ag)) \<noteq> None);
         to_gate = (sg_expected_cursor inp = ExecuteAgent \<and> cursor_of (ai_next_input inp) = GateStage)
     in if override_requested \<and> to_gate \<and> ai_council_override_input inp = None then Inl (StageRefused OverrideInputMissing)
        else case ai_council_override_input inp of
          None \<Rightarrow> Inr (ai_next_input inp)
        | Some ci \<Rightarrow>
            (if \<not> to_gate \<or> (case ci of InCouncil PersistentOverride _ _ \<Rightarrow> False | _ \<Rightarrow> True)
               then Inl (StageRefused OverrideInputMisplaced)
             else Inr (if override_requested then ci else ai_next_input inp)))"

section \<open>Beginning a run\<close>

definition default_cursor_input :: "ident \<Rightarrow> cursor_input" where
  "default_cursor_input run = InSelect run [] None"

definition same_definition :: "task_state \<Rightarrow> task_request \<Rightarrow> string \<Rightarrow> bool" where
  \<comment> \<open>\<open>assertImmutableTaskDefinition\<close>\<close>
  "same_definition t req ws \<longleftrightarrow>
     tk_spec t = tr_spec req \<and> tk_workspace_path t = ws \<and>
     tk_parent_id t = tr_parent_task_id req \<and> tk_role_id t = tr_role_id req \<and>
     tk_risk_level t = or_default (tr_risk_level req) RiskLow \<and>
     tk_completion_criteria t = tr_completion_criteria req \<and>
     tk_affected_paths t = or_default (tr_affected_paths req) [] \<and>
     tk_budget t = tr_budget req"

definition require_mailbox_envelope :: "mailbox_db \<Rightarrow> ident \<Rightarrow> processor_error + mailbox_envelope" where
  "require_mailbox_envelope mb i =
    bindR (lift_mailbox (get_mailbox_envelope mb i)) (\<lambda>e.
      case e of None \<Rightarrow> Inl (BeginRefused (EnvelopeMissing i)) | Some x \<Rightarrow> Inr x)"

definition assert_continuation ::
  "task_aggregate \<Rightarrow> begin_run_input \<Rightarrow> cursor_input \<Rightarrow> ident \<Rightarrow> mailbox_db \<Rightarrow> processor_error + unit" where
  "assert_continuation ag inp ci source_id mb =
    bindR (lift_status (assert_task_run_start_transition (tk_status (ag_task ag)) MailboxContinuation)) (\<lambda>_.
    bindR (ensure (case rt_cursor_input (ag_runtime ag) of
             Some (InWait ds _) \<Rightarrow> source_id \<in> set ds | _ \<Rightarrow> False) (BeginRefused ContinuationNotWaiting)) (\<lambda>_.
    (case ci of
       InExecute winner _ delivery \<Rightarrow>
        (case non_empty delivery of
           None \<Rightarrow> Inl (BeginRefused ContinuationOtherAgent)
         | Some reply_id \<Rightarrow>
            if Some winner \<noteq> tk_owner_agent_id (ag_task ag) then Inl (BeginRefused ContinuationOtherAgent)
            else case (case non_empty (bi_restarted_from_run_id inp) of None \<Rightarrow> None
                       | Some r \<Rightarrow> find (\<lambda>x. rn_run_id x = r) (ag_runs ag)) of
              None \<Rightarrow> Inl (BeginRefused ContinuationWithoutSource)
            | Some src \<Rightarrow>
                if rn_status src \<noteq> RunCompleted \<and> rn_status src \<noteq> RunInterrupted then Inl (BeginRefused ContinuationWithoutSource)
                else if bi_mode inp \<noteq> rn_mode src then Inl (BeginRefused ContinuationOtherMode)
                else if non_empty (bi_resume_checkpoint_id inp) \<noteq> None \<or> bi_requested_resume_cursor inp \<noteq> None
                  then Inl (BeginRefused ContinuationWithCheckpoint)
                else
                  bindR (require_mailbox_envelope mb source_id) (\<lambda>source.
                  bindR (require_mailbox_envelope mb reply_id) (\<lambda>reply.
                    ensure (mm_task_id (ev_message source) = bi_task_id inp \<and>
                        mm_task_id (ev_message reply) = bi_task_id inp \<and>
                        bi_workspace_path inp = mm_workspace_path (ev_message source) \<and>
                        mm_workspace_path (ev_message reply) = mm_workspace_path (ev_message source) \<and>
                        Some (mm_from_role_id (ev_message source)) = tk_owner_agent_id (ag_task ag) \<and>
                        mm_from_role_id (ev_message reply) = md_recipient_role_id (ev_delivery source) \<and>
                        mm_reply_to (ev_message reply) = Some (mm_message_id (ev_message source)) \<and>
                        Some (md_recipient_role_id (ev_delivery reply)) = tk_owner_agent_id (ag_task ag))
                      (BeginRefused ReplyDoesNotMatch))))
     | _ \<Rightarrow> Inl (BeginRefused ContinuationOtherAgent))))"

definition assert_checkpoint_resume ::
  "task_aggregate \<Rightarrow> begin_run_input \<Rightarrow> cursor_input \<Rightarrow> resume_strategy \<Rightarrow> checkpoint option
    \<Rightarrow> processor_error + unit" where
  "assert_checkpoint_resume ag inp ci strategy latest =
    (case latest of
       None \<Rightarrow> Inl (BeginRefused (ResumeNotLatest (bi_task_id inp)))
     | Some cp \<Rightarrow>
        if bi_resume_checkpoint_id inp \<noteq> Some (cp_checkpoint_id cp) \<or>
           bi_requested_resume_cursor inp \<noteq> Some (cp_resume_cursor cp)
          then Inl (BeginRefused (ResumeNotLatest (bi_task_id inp)))
        else bindR (lift_status (assert_task_run_start_transition (tk_status (ag_task ag)) CheckpointResume)) (\<lambda>_.
          if bi_restarted_from_run_id inp \<noteq> Some (cp_run_id cp) then Inl (BeginRefused (ResumeOtherLineage (cp_run_id cp)))
          else case find (\<lambda>r. rn_run_id r = cp_run_id cp) (ag_runs ag) of
            None \<Rightarrow> Inl (BeginRefused (ResumeSourceNotInterrupted (cp_run_id cp)))
          | Some r \<Rightarrow>
              if rn_status r \<noteq> RunInterrupted then Inl (BeginRefused (ResumeSourceNotInterrupted (cp_run_id cp)))
              else if bi_mode inp \<noteq> rn_mode r then Inl (BeginRefused ResumeOtherMode)
              else if (case strategy of FromCheckpoint \<Rightarrow> cursor_of ci \<noteq> cp_resume_cursor cp
                       | RestartFromBeginning \<Rightarrow> cursor_of ci \<noteq> SelectAgent)
                then Inl (BeginRefused (ResumeCursorStrategy strategy))
              else Inr ()))"

definition assert_begin_run_intent ::
  "task_aggregate option \<Rightarrow> begin_run_input \<Rightarrow> cursor_input \<Rightarrow> run_intent \<Rightarrow> checkpoint option \<Rightarrow> mailbox_db
    \<Rightarrow> processor_error + unit" where
  "assert_begin_run_intent existing inp ci intent latest mb =
    bindR (lift_cursor (parse_cursor_input ci)) (\<lambda>_.
    (case intent of
       CreateRun \<Rightarrow>
         (if existing \<noteq> None then Inl (BeginRefused (CreateOfExisting (bi_task_id inp)))
          else if cursor_of ci \<noteq> SelectAgent then Inl (BeginRefused (FreshTaskNotAtStart (bi_task_id inp)))
          else if non_empty (bi_resume_checkpoint_id inp) \<noteq> None \<or> bi_requested_resume_cursor inp \<noteq> None
            then Inl (BeginRefused CreateWithResumeFields)
          else Inr ())
     | _ \<Rightarrow>
         (case existing of
            None \<Rightarrow> Inl (BeginRefused (IntentNeedsTask intent (bi_task_id inp)))
          | Some ag \<Rightarrow>
             (case intent of
                CouncilRefinementRun \<Rightarrow>
                  bindR (lift_status (assert_task_run_start_transition (tk_status (ag_task ag)) CouncilRefinement)) (\<lambda>_.
                    if bi_mode inp \<noteq> CouncilMode \<or> cursor_of ci \<noteq> SelectAgent then Inl (BeginRefused RefinementNotCouncil)
                    else if non_empty (bi_resume_checkpoint_id inp) \<noteq> None \<or>
                        bi_requested_resume_cursor inp \<noteq> None \<or>
                        non_empty (bi_restarted_from_run_id inp) \<noteq> None
                      then Inl (BeginRefused RefinementWithLineage)
                    else Inr ())
              | MailboxContinuationRun source_id \<Rightarrow> assert_continuation ag inp ci source_id mb
              | CheckpointResumeRun strategy \<Rightarrow> assert_checkpoint_resume ag inp ci strategy latest
              | CreateRun \<Rightarrow> Inr ()))))"

definition fresh_diagnostics :: diagnostics where
  "fresh_diagnostics = \<lparr>dg_mode = None, dg_run_intent = None, dg_allow_agent_council = False,
     dg_memory_ablation = None, dg_resume_checkpoint_id = None, dg_requested_resume_cursor = None,
     dg_active_stage = None, dg_stage_evidence = [], dg_last_completed_stage = None,
     dg_failed_stage = None, dg_mailbox_wait_run_id = None, dg_collaboration_deadlock = False,
     dg_mailbox_timeout = False, dg_council_override = None, dg_legacy_cursor_projection = False,
     dg_legacy_cursor_projection_suppressed = False, dg_last_event = None,
     dg_interrupted_run_id = None, dg_recovery_checkpoint_id = None, dg_terminal = None,
     dg_last_safepoint = None\<rparr>"

definition begin_task :: "proc_env \<Rightarrow> begin_run_input \<Rightarrow> task_aggregate option \<Rightarrow> task_state" where
  "begin_task env inp existing =
    (case existing of
       Some ag \<Rightarrow> (ag_task ag)\<lparr>tk_final_output := None, tk_error := None, tk_status := TaskRunning,
          tk_warnings := [], tk_revision := tk_revision (ag_task ag) + 1, tk_updated_at := pe_now env\<rparr>
     | None \<Rightarrow>
        (let req = bi_task_request inp in
         \<lparr>tk_task_id = bi_task_id inp, tk_parent_id = non_empty (tr_parent_task_id req),
          tk_status = TaskRunning, tk_owner_agent_id = None, tk_role_id = non_empty (tr_role_id req),
          tk_risk_level = or_default (tr_risk_level req) RiskLow, tk_spec = tr_spec req,
          tk_completion_criteria = tr_completion_criteria req,
          tk_affected_paths = or_default (tr_affected_paths req) [], tk_budget = tr_budget req,
          tk_workspace_path = bi_workspace_path inp, tk_warnings = [], tk_final_output = None,
          tk_error = None, tk_revision = 1, tk_created_at = pe_now env, tk_updated_at = pe_now env\<rparr>))"

definition begin_run_record :: "proc_env \<Rightarrow> begin_run_input \<Rightarrow> run_state" where
  "begin_run_record env inp =
    \<lparr>rn_run_id = bi_run_id inp, rn_task_id = bi_task_id inp, rn_status = RunRunning,
     rn_mode = bi_mode inp, rn_workspace_path = bi_workspace_path inp,
     rn_session_id = non_empty (bi_session_id inp),
     rn_restarted_from_run_id = non_empty (bi_restarted_from_run_id inp),
     rn_snapshot = None, rn_error = None, rn_revision = 1, rn_started_at = Some (pe_now env),
     rn_completed_at = None, rn_created_at = pe_now env, rn_updated_at = pe_now env\<rparr>"

definition mode_name :: "run_mode \<Rightarrow> string" where
  "mode_name m = (case m of SingleAgentMode \<Rightarrow> ''single_agent'' | CouncilMode \<Rightarrow> ''council'')"

definition risk_name :: "risk_level \<Rightarrow> string" where
  "risk_name r = (case r of RiskLow \<Rightarrow> ''low'' | RiskMedium \<Rightarrow> ''medium'' | RiskHigh \<Rightarrow> ''high''
     | RiskCritical \<Rightarrow> ''critical'')"

definition ablation_name :: "memory_ablation \<Rightarrow> string" where
  "ablation_name a = (case a of AblationB0 \<Rightarrow> ''B0'' | AblationB1 \<Rightarrow> ''B1'' | AblationB2 \<Rightarrow> ''B2''
     | AblationB3 \<Rightarrow> ''B3'' | AblationB4 \<Rightarrow> ''B4'')"

definition begin_events :: "proc_env \<Rightarrow> begin_run_input \<Rightarrow> task_aggregate option \<Rightarrow> coord_event list" where
  "begin_events env inp existing =
    (let task = bi_task_id inp; run = bi_run_id inp;
         run_payload = (''mode'', JStr (mode_name (bi_mode inp))) #
           (case bi_memory_ablation inp of None \<Rightarrow> [] | Some a \<Rightarrow> [(''memory_ablation'', JStr (ablation_name a))])
     in (if existing = None then
           [or_default (bi_task_created_event inp)
             (create_event env 0 ''task.created'' task task run
               [(''spec'', JStr (tr_spec (bi_task_request inp))),
                (''risk_level'', JStr (risk_name (or_default (tr_risk_level (bi_task_request inp)) RiskLow)))])]
         else []) @
        [or_default (bi_run_created_event inp) (create_event env 1 ''run.created'' run task run run_payload),
         or_default (bi_run_started_event inp) (create_event env 2 ''run.started'' run task run run_payload)])"

definition begin_runtime_state :: "proc_env \<Rightarrow> begin_run_input \<Rightarrow> cursor_input \<Rightarrow> run_intent \<Rightarrow> runtime_state" where
  "begin_runtime_state env inp ci intent =
    \<lparr>rt_task_id = bi_task_id inp, rt_current_run_id = Some (bi_run_id inp),
     rt_resume_cursor = cursor_of ci, rt_cursor_input = Some ci, rt_waiting_on = [],
     rt_interrupt_state = None, rt_artifact_refs = [],
     rt_diagnostics = fresh_diagnostics\<lparr>dg_mode := Some (bi_mode inp), dg_run_intent := Some intent,
       dg_allow_agent_council := tr_allow_agent_council (bi_task_request inp),
       dg_memory_ablation := bi_memory_ablation inp,
       dg_resume_checkpoint_id := non_empty (bi_resume_checkpoint_id inp),
       dg_requested_resume_cursor := bi_requested_resume_cursor inp\<rparr>,
     rt_updated_at = pe_now env\<rparr>"

definition begin_commit ::
  "proc_env \<Rightarrow> begin_run_input \<Rightarrow> task_aggregate option \<Rightarrow> cursor_input \<Rightarrow> run_intent \<Rightarrow> coord_commit" where
  "begin_commit env inp existing ci intent =
    \<lparr>cc_expected_task_revision = map_option (\<lambda>ag. tk_revision (ag_task ag)) existing,
     cc_task = begin_task env inp existing, cc_run = Some (begin_run_record env inp),
     cc_runtime_state = begin_runtime_state env inp ci intent, cc_checkpoint = None,
     cc_events = begin_events env inp existing\<rparr>"

definition begin_run ::
  "proc_env \<Rightarrow> begin_run_input \<Rightarrow> coord_db \<Rightarrow> processor_error + stored_event list \<times> coord_db" where
  "begin_run env inp db =
    bindR (lift_coord (get_task_aggregate db (bi_task_id inp))) (\<lambda>existing.
    let active = (case existing of None \<Rightarrow> None | Some ag \<Rightarrow> find is_active_run (ag_runs ag));
        intent = or_default (bi_run_intent inp) CreateRun;
        ci = or_default (bi_cursor_input inp) (default_cursor_input (bi_run_id inp))
    in case active of
         Some r \<Rightarrow> Inl (BeginRefused (TaskHasActiveRun (bi_task_id inp) (rn_run_id r)))
       | None \<Rightarrow>
          bindR (case existing of
              None \<Rightarrow> Inr ()
            | Some ag \<Rightarrow>
                ensure (same_definition (ag_task ag) (bi_task_request inp)
                  (case intent of MailboxContinuationRun _ \<Rightarrow> tk_workspace_path (ag_task ag)
                   | _ \<Rightarrow> bi_workspace_path inp)) (BeginRefused (DefinitionChanged (bi_task_id inp)))) (\<lambda>_.
          bindR (assert_begin_run_intent existing inp ci intent
            (if existing = None then None else get_latest_checkpoint db (bi_task_id inp)) (cd_mailbox db)) (\<lambda>_.
          lift_coord (commit_state (begin_commit env inp existing ci intent) db))))"

end
