(* ===== verification/TaskStages.thy ===== *)
theory TaskStages
  imports TaskProcessor
begin

text \<open>
  The operations of the task processor on a run that is under way: stages, waits, interruptions,
  recovery and the end of the run (\<open>src/coordination/task-processor.ts\<close>).
\<close>

abbreviation tick_task :: "timestamp \<Rightarrow> task_state \<Rightarrow> task_state" where
  "tick_task now t \<equiv> t\<lparr>tk_revision := tk_revision t + 1, tk_updated_at := now\<rparr>"

abbreviation tick_run :: "timestamp \<Rightarrow> run_state \<Rightarrow> run_state" where
  "tick_run now r \<equiv> r\<lparr>rn_revision := rn_revision r + 1, rn_updated_at := now\<rparr>"

definition task_commit ::
  "task_aggregate \<Rightarrow> task_state \<Rightarrow> run_state option \<Rightarrow> runtime_state \<Rightarrow> checkpoint option \<Rightarrow> coord_event list
    \<Rightarrow> coord_commit" where
  "task_commit ag task run rt cp events =
    \<lparr>cc_expected_task_revision = Some (tk_revision (ag_task ag)), cc_task = task, cc_run = run,
     cc_runtime_state = rt, cc_checkpoint = cp, cc_events = events\<rparr>"

definition with_run ::
  "coord_db \<Rightarrow> ident \<Rightarrow> (task_aggregate \<Rightarrow> run_state \<Rightarrow> processor_error + 'a) \<Rightarrow> processor_error + 'a" where
  "with_run db run f =
    bindR (require_aggregate_for_run db run) (\<lambda>ag. bindR (require_run ag run) (\<lambda>r. f ag r))"

lemma with_run_Inr:
  "with_run db run f = Inr x \<longleftrightarrow>
    (\<exists>ag r. require_aggregate_for_run db run = Inr ag \<and> require_run ag run = Inr r \<and> f ag r = Inr x)"
  by (auto simp: with_run_def bindR_eq_Inr_conv)

section \<open>Stages\<close>

definition start_stage ::
  "proc_env \<Rightarrow> stage_input \<Rightarrow> coord_db \<Rightarrow> processor_error + stored_event list \<times> coord_db" where
  "start_stage env inp db =
    with_run db (sg_run_id inp) (\<lambda>ag run.
    bindR (assert_active_stage_target ag run (sg_expected_cursor inp)) (\<lambda>_.
    bindR (read_active_stage (rt_diagnostics (ag_runtime ag))) (\<lambda>active.
      if active \<noteq> None then Inl (StageRefused (StageAlreadyActive (sg_run_id inp)))
      else
        let task = tk_task_id (ag_task ag);
            now = (case sg_event inp of Some e \<Rightarrow> ce_created_at e | None \<Rightarrow> pe_now env);
            event = or_default (sg_event inp)
              (create_event env 0 ''handler.started'' (sg_run_id inp) task (sg_run_id inp)
                [(''cursor'', JStr (cursor_name (sg_expected_cursor inp))),
                 (''invocation_id'', JStr (sg_invocation_id inp))]);
            stage = \<lparr>as_cursor = sg_expected_cursor inp, as_invocation_id = sg_invocation_id inp,
                     as_started_at = now, as_started_event_id = ce_event_id event\<rparr>
        in bindR (assert_stage_event event ''handler.started'' task (sg_run_id inp)) (\<lambda>_.
          lift_coord (commit_state
            (task_commit ag (tick_task now (ag_task ag)) (Some (tick_run now run))
              ((ag_runtime ag)\<lparr>rt_diagnostics := (rt_diagnostics (ag_runtime ag))\<lparr>dg_active_stage := Some stage\<rparr>,
                               rt_updated_at := now\<rparr>) None [event]) db)))))"

definition persist_safepoint ::
  "proc_env \<Rightarrow> nat \<Rightarrow> task_aggregate \<Rightarrow> ident \<Rightarrow> safepoint_trigger \<Rightarrow> coord_db \<Rightarrow> checkpoint option \<times> coord_db"
  where
  \<comment> \<open>a refused commit is swallowed; the run is one of the aggregate's\<close>
  "persist_safepoint env k ag run trigger db =
    (let task = ag_task ag; rt = ag_runtime ag; latest = get_latest_checkpoint db (tk_task_id task) in
     case (build_safepoint_checkpoint (pe_capture env) (registry_of env db (tk_task_id task)) (cd_mailbox db)
             \<lparr>sp_run_id = run, sp_trigger = trigger,
              sp_parent_checkpoint_id = map_option cp_checkpoint_id latest, sp_interrupt_state = None,
              sp_inherited = None, sp_now = pe_now env, sp_checkpoint_id = pe_checkpoint_id env\<rparr> ag,
           find (\<lambda>r. rn_run_id r = run) (ag_runs ag)) of
       (Some cp, Some r) \<Rightarrow>
         (let saved = create_event env k ''checkpoint.saved'' (cp_checkpoint_id cp) (tk_task_id task) run
                [(''checkpoint_id'', JStr (cp_checkpoint_id cp)),
                 (''resume_cursor'', JStr (cursor_name (cp_resume_cursor cp))),
                 (''trigger'', JStr (trigger_name trigger))]
          in case commit_state (task_commit ag (tick_task (pe_now env) task) (Some (tick_run (pe_now env) r))
               (rt\<lparr>rt_cursor_input := first_some [cp_cursor_input cp, rt_cursor_input rt],
                   rt_diagnostics := (rt_diagnostics rt)\<lparr>dg_last_safepoint := Some (cp_checkpoint_id cp, trigger)\<rparr>,
                   rt_updated_at := pe_now env\<rparr>) (Some cp) [saved]) db of
               Inl _ \<Rightarrow> (None, db)
             | Inr (_, db') \<Rightarrow> (Some cp, db'))
     | _ \<Rightarrow> (None, db))"

definition advance_task :: "task_aggregate \<Rightarrow> advance_input \<Rightarrow> cursor_input \<Rightarrow> timestamp \<Rightarrow> task_state" where
  "advance_task ag inp nxt now =
    (let t = ag_task ag;
         owned = (case non_empty (ai_owner_agent_id inp) of
           Some a \<Rightarrow> t\<lparr>tk_owner_agent_id := Some a\<rparr>
         | None \<Rightarrow> (case nxt of InExecute w _ _ \<Rightarrow> t\<lparr>tk_owner_agent_id := Some w\<rparr> | _ \<Rightarrow> t))
     in tick_task now
          (if cursor_of nxt = CursorDone
           then owned\<lparr>tk_status := TaskCompleted, tk_warnings := or_default (ai_warnings inp) [],
                      tk_final_output := ai_final_output inp\<rparr>
           else owned))"

definition advance_run :: "run_state \<Rightarrow> advance_input \<Rightarrow> cursor_input \<Rightarrow> timestamp \<Rightarrow> run_state" where
  "advance_run run inp nxt now =
    (let r = (case non_empty (ai_session_id inp) of Some s \<Rightarrow> run\<lparr>rn_session_id := Some s\<rparr> | None \<Rightarrow> run)
     in tick_run now
          (if cursor_of nxt = CursorDone
           then r\<lparr>rn_status := RunCompleted, rn_completed_at := Some now\<rparr> else r))"

definition advance_runtime :: "task_aggregate \<Rightarrow> advance_input \<Rightarrow> cursor_input \<Rightarrow> timestamp \<Rightarrow> runtime_state" where
  "advance_runtime ag inp nxt now =
    (let rt = ag_runtime ag; d = rt_diagnostics rt in
     rt\<lparr>rt_current_run_id := (if cursor_of nxt = CursorDone then None else Some (sg_run_id inp)),
        rt_resume_cursor := cursor_of nxt, rt_cursor_input := Some nxt, rt_waiting_on := [],
        rt_artifact_refs := append_unique (rt_artifact_refs rt)
          (er_uri (ai_evidence_ref inp) # or_default (ai_artifact_refs inp) []),
        rt_diagnostics := d\<lparr>dg_active_stage := None,
          dg_stage_evidence := AList.update (sg_expected_cursor inp) (ai_evidence_ref inp) (dg_stage_evidence d),
          dg_last_completed_stage := Some (sg_expected_cursor inp, sg_invocation_id inp)\<rparr>,
        rt_updated_at := now\<rparr>)"

definition advance_checks ::
  "task_aggregate \<Rightarrow> run_state \<Rightarrow> advance_input \<Rightarrow> processor_error + cursor_input" where
  \<comment> \<open>the checks of \<open>advanceStageOnce\<close> up to the event; the next input when they pass\<close>
  "advance_checks ag run inp =
    bindR (assert_active_stage_target ag run (sg_expected_cursor inp)) (\<lambda>_.
    bindR (assert_invocation ag (sg_expected_cursor inp) (sg_invocation_id inp)) (\<lambda>_.
    bindR (assert_evidence_reference (ai_evidence_ref inp)) (\<lambda>_.
    bindR (resolve_stage_next_input ag inp) (\<lambda>raw.
    bindR (lift_cursor (parse_cursor_input raw)) (\<lambda>nxt.
    bindR (assert_cursor_transition (sg_expected_cursor inp) (cursor_of nxt)) (\<lambda>_.
    bindR (assert_changeset_identity (rt_cursor_input (ag_runtime ag)) nxt (ai_final_output inp)) (\<lambda>_.
      if cursor_of nxt = CursorDone then
        (case ai_final_output inp of
           None \<Rightarrow> Inl (StageRefused FinalOutputMissing)
         | Some fo \<Rightarrow> bindR (assert_final_output_evidence fo) (\<lambda>_. Inr nxt))
      else Inr nxt)))))))"

definition advance_events ::
  "proc_env \<Rightarrow> task_aggregate \<Rightarrow> advance_input \<Rightarrow> cursor_input \<Rightarrow> coord_event \<times> coord_event list" where
  "advance_events env ag inp nxt =
    (let task = tk_task_id (ag_task ag); run = sg_run_id inp in
     (or_default (sg_event inp)
        (create_event env 0 ''handler.completed'' run task run
          [(''cursor'', JStr (cursor_name (sg_expected_cursor inp))),
           (''invocation_id'', JStr (sg_invocation_id inp)),
           (''next_cursor'', JStr (cursor_name (cursor_of nxt))),
           (''evidence_ref'', JStr (er_uri (ai_evidence_ref inp))),
           (''evidence_sha256'', JStr (er_sha256 (ai_evidence_ref inp)))]),
      if cursor_of nxt = CursorDone
      then [create_event env 1 ''run.completed'' run task run
        ((''status'', JStr ''completed'') #
         (case ai_final_output inp of None \<Rightarrow> []
          | Some fo \<Rightarrow> [(''final_artifact_ref'', JStr (fo_artifact_ref fo))]))]
      else []))"

definition advance_stage_once ::
  "proc_env \<Rightarrow> advance_input \<Rightarrow> coord_db \<Rightarrow> processor_error + stored_event list \<times> coord_db" where
  "advance_stage_once env inp db =
    with_run db (sg_run_id inp) (\<lambda>ag run.
    bindR (advance_checks ag run inp) (\<lambda>nxt.
      let task = tk_task_id (ag_task ag);
          now = (case sg_event inp of Some e \<Rightarrow> ce_created_at e | None \<Rightarrow> pe_now env);
          (event, terminal) = advance_events env ag inp nxt;
          completing = (cursor_of nxt = CursorDone)
      in bindR (assert_stage_event event ''handler.completed'' task (sg_run_id inp)) (\<lambda>_.
         if list_ex (\<lambda>x. ce_event_id (snd x) = ce_event_id event) (ag_events ag)
           then Inl (StageRefused (DuplicateStageEvent (ce_event_id event)))
         else bindR (if completing
             then lift_status (assert_task_status_transition (tk_status (ag_task ag)) TaskCompleted)
             else Inr ()) (\<lambda>_.
           case commit_state (task_commit ag (advance_task ag inp nxt now) (Some (advance_run run inp nxt now))
               (advance_runtime ag inp nxt now) None (event # terminal)) db of
             Inl e \<Rightarrow> Inl (StageCommitFailed e)
           | Inr (committed, db') \<Rightarrow>
              if completing then Inr (committed, db')
              else bindR (lift_coord (get_task_aggregate db' task)) (\<lambda>refreshed.
                case refreshed of
                  None \<Rightarrow> Inr (committed, db')
                | Some ag' \<Rightarrow>
                    Inr (committed, snd (persist_safepoint env 2 ag' (sg_run_id inp)
                      (if cursor_of nxt = MailboxWait then TrBlocked else TrPeriodic) db')))))))"

definition is_revision_conflict :: "processor_error \<Rightarrow> bool" where
  "is_revision_conflict e = (case e of StageCommitFailed (RevisionConflict _ _ _) \<Rightarrow> True | _ \<Rightarrow> False)"

fun advance_attempts ::
  "nat \<Rightarrow> proc_env \<Rightarrow> advance_input \<Rightarrow> coord_db \<Rightarrow> processor_error + stored_event list \<times> coord_db" where
  "advance_attempts 0 env inp db = advance_stage_once env inp db"
| "advance_attempts (Suc n) env inp db =
     (case advance_stage_once env inp db of
        Inl e \<Rightarrow> if is_revision_conflict e then advance_attempts n env inp db else Inl e
      | Inr x \<Rightarrow> Inr x)"

definition advance_stage ::
  "proc_env \<Rightarrow> advance_input \<Rightarrow> coord_db \<Rightarrow> processor_error + stored_event list \<times> coord_db" where
  \<comment> \<open>at most three attempts\<close>
  "advance_stage = advance_attempts 2"

definition fail_stage ::
  "proc_env \<Rightarrow> fail_stage_input \<Rightarrow> coord_db \<Rightarrow> processor_error + stored_event list \<times> coord_db" where
  "fail_stage env inp db =
    with_run db (sg_run_id inp) (\<lambda>ag run.
    bindR (assert_active_stage_target ag run (sg_expected_cursor inp)) (\<lambda>_.
    bindR (assert_invocation ag (sg_expected_cursor inp) (sg_invocation_id inp)) (\<lambda>_.
    bindR (case fa_evidence_ref inp of None \<Rightarrow> Inr () | Some r \<Rightarrow> assert_evidence_reference r) (\<lambda>_.
    bindR (lift_status (assert_task_status_transition (tk_status (ag_task ag)) TaskFailed)) (\<lambda>_.
      let task = tk_task_id (ag_task ag); rid = sg_run_id inp; rt = ag_runtime ag;
          now = (case sg_event inp of Some e \<Rightarrow> ce_created_at e | None \<Rightarrow> pe_now env);
          code = JStr (te_code (fa_error inp)); msg = JStr (te_message (fa_error inp));
          event = or_default (sg_event inp) (create_event env 0 ''handler.failed'' rid task rid
            [(''cursor'', JStr (cursor_name (sg_expected_cursor inp))),
             (''invocation_id'', JStr (sg_invocation_id inp)), (''code'', code), (''message'', msg)]);
          terminal = create_event env 1 ''run.failed'' rid task rid
            [(''status'', JStr ''failed''), (''code'', code), (''message'', msg)];
          task' = tick_task now ((case non_empty (fa_owner_agent_id inp) of
              Some a \<Rightarrow> (ag_task ag)\<lparr>tk_owner_agent_id := Some a\<rparr> | None \<Rightarrow> ag_task ag)
            \<lparr>tk_status := TaskFailed, tk_error := Some (fa_error inp)\<rparr>);
          run' = tick_run now ((case non_empty (fa_session_id inp) of
              Some s \<Rightarrow> run\<lparr>rn_session_id := Some s\<rparr> | None \<Rightarrow> run)
            \<lparr>rn_status := RunFailed, rn_error := Some (fa_error inp), rn_completed_at := Some now\<rparr>);
          rt' = rt\<lparr>rt_current_run_id := None, rt_resume_cursor := CursorDone,
            rt_cursor_input := Some InDone, rt_waiting_on := [],
            rt_artifact_refs := append_unique (rt_artifact_refs rt)
              ((case fa_evidence_ref inp of None \<Rightarrow> [] | Some r \<Rightarrow> [er_uri r]) @ or_default (fa_artifact_refs inp) []),
            rt_diagnostics := (rt_diagnostics rt)\<lparr>dg_active_stage := None,
              dg_failed_stage := Some (sg_expected_cursor inp, sg_invocation_id inp, fa_evidence_ref inp)\<rparr>,
            rt_updated_at := now\<rparr>
      in bindR (assert_stage_event event ''handler.failed'' task rid) (\<lambda>_.
         lift_coord (commit_state (task_commit ag task' (Some run') rt' None [event, terminal]) db)))))))"

section \<open>Waiting on the mailbox\<close>

definition complete_run_for_mailbox_wait ::
  "proc_env \<Rightarrow> ident \<Rightarrow> coord_db \<Rightarrow> processor_error + stored_event list \<times> coord_db" where
  "complete_run_for_mailbox_wait env rid db =
    with_run db rid (\<lambda>ag run.
    bindR (assert_active_run_ownership ag run) (\<lambda>_.
    (case rt_cursor_input (ag_runtime ag) of
       Some (InWait deliveries reason) \<Rightarrow>
         (if deliveries = [] then Inl (NotWaitingOnMailbox rid)
          else bindR (lift_status (assert_task_status_transition (tk_status (ag_task ag)) TaskWaitingHelp)) (\<lambda>_.
            let task = tk_task_id (ag_task ag); now = pe_now env; rt = ag_runtime ag;
                ids = JArr (map JStr deliveries)
            in lift_coord (commit_state
              (task_commit ag
                (tick_task now ((ag_task ag)\<lparr>tk_status := TaskWaitingHelp\<rparr>))
                (Some (tick_run now (run\<lparr>rn_status := RunCompleted, rn_completed_at := Some now\<rparr>)))
                (rt\<lparr>rt_current_run_id := None, rt_waiting_on := deliveries,
                    rt_interrupt_state := Some \<lparr>is_type = ItMailboxWait, is_reason = reason,
                      is_from_shutdown = False, is_delivery_ids = Some deliveries,
                      is_interrupted_run_id = Some rid\<rparr>,
                    rt_diagnostics := (rt_diagnostics rt)\<lparr>dg_mailbox_wait_run_id := Some rid\<rparr>,
                    rt_updated_at := now\<rparr>)
                None
                [create_event env 0 ''run.completed'' rid task rid
                   [(''status'', JStr ''completed''), (''outcome'', JStr ''mailbox_wait'')],
                 create_event env 1 ''task.waiting_help'' task task rid
                   [(''reason'', JStr reason), (''delivery_ids'', ids)]]) db)))
     | _ \<Rightarrow> Inl (NotWaitingOnMailbox rid))))"

definition waiting_run_id :: "task_aggregate \<Rightarrow> ident option" where
  "waiting_run_id ag =
    first_some [non_empty (dg_mailbox_wait_run_id (rt_diagnostics (ag_runtime ag))),
      (case rt_interrupt_state (ag_runtime ag) of None \<Rightarrow> None | Some i \<Rightarrow> non_empty (is_interrupted_run_id i)),
      map_option rn_run_id (last_opt (ag_runs ag))]"

definition waiting_deliveries :: "task_aggregate \<Rightarrow> ident list option" where
  "waiting_deliveries ag =
    (case rt_cursor_input (ag_runtime ag) of Some (InWait ds _) \<Rightarrow> Some ds | _ \<Rightarrow> None)"

definition block_mailbox_deadlock ::
  "proc_env \<Rightarrow> ident \<Rightarrow> string \<Rightarrow> coord_db \<Rightarrow> processor_error + stored_event list \<times> coord_db" where
  "block_mailbox_deadlock env task reason db =
    bindR (get_task_snapshot db task) (\<lambda>ag.
    let code = ''collaboration_deadlock'' in
    if tk_status (ag_task ag) = TaskBlocked \<and> map_option te_code (tk_error (ag_task ag)) = Some code
      then Inr ([], db)
    else bindR (lift_status (assert_task_status_transition (tk_status (ag_task ag)) TaskBlocked)) (\<lambda>_.
      (case waiting_run_id ag of
         None \<Rightarrow> Inl (NoAssociatedRun task)
       | Some rid \<Rightarrow>
          if \<not> list_ex (\<lambda>r. rn_run_id r = rid) (ag_runs ag) then Inl (NoAssociatedRun task)
          else let now = pe_now env; rt = ag_runtime ag in
            lift_coord (commit_state
              (task_commit ag
                (tick_task now ((ag_task ag)\<lparr>tk_status := TaskBlocked,
                   tk_error := Some \<lparr>te_code = code, te_message = reason, te_details = None\<rparr>\<rparr>))
                None
                (rt\<lparr>rt_interrupt_state := Some \<lparr>is_type = ItCollaborationDeadlock, is_reason = reason,
                      is_from_shutdown = False, is_delivery_ids = waiting_deliveries ag,
                      is_interrupted_run_id = None\<rparr>,
                    rt_diagnostics := (rt_diagnostics rt)\<lparr>dg_collaboration_deadlock := True\<rparr>,
                    rt_updated_at := now\<rparr>)
                None
                [create_event env 0 ''task.blocked'' task task rid
                   [(''code'', JStr code), (''reason'', JStr reason)]]) db))))"

definition expire_mailbox_wait ::
  "proc_env \<Rightarrow> ident \<Rightarrow> string \<Rightarrow> coord_db \<Rightarrow> processor_error + stored_event list \<times> coord_db" where
  "expire_mailbox_wait env task reason db =
    bindR (get_task_snapshot db task) (\<lambda>ag.
    let code = ''mailbox_timeout'' in
    if tk_status (ag_task ag) = TaskFailed \<and> map_option te_code (tk_error (ag_task ag)) = Some code
      then Inr ([], db)
    else bindR (lift_status (assert_task_status_transition (tk_status (ag_task ag)) TaskFailed)) (\<lambda>_.
      (case waiting_run_id ag of
         None \<Rightarrow> Inl (NoAssociatedRun task)
       | Some rid \<Rightarrow>
          if \<not> list_ex (\<lambda>r. rn_run_id r = rid) (ag_runs ag) then Inl (NoAssociatedRun task)
          else let now = pe_now env; rt = ag_runtime ag in
            lift_coord (commit_state
              (task_commit ag
                (tick_task now ((ag_task ag)\<lparr>tk_status := TaskFailed,
                   tk_error := Some \<lparr>te_code = code, te_message = reason, te_details = None\<rparr>\<rparr>))
                None
                (rt\<lparr>rt_current_run_id := None, rt_resume_cursor := CursorDone,
                    rt_cursor_input := Some InDone, rt_waiting_on := [],
                    rt_interrupt_state := Some \<lparr>is_type = ItMailboxTimeout, is_reason = reason,
                      is_from_shutdown = False, is_delivery_ids = waiting_deliveries ag,
                      is_interrupted_run_id = None\<rparr>,
                    rt_diagnostics := (rt_diagnostics rt)\<lparr>dg_mailbox_timeout := True\<rparr>,
                    rt_updated_at := now\<rparr>)
                None
                [create_event env 0 ''task.failed'' task task rid
                   [(''code'', JStr code), (''reason'', JStr reason)]]) db))))"

section \<open>Overrides and events of a run\<close>

definition set_council_override ::
  "proc_env \<Rightarrow> ident \<Rightarrow> coord_db \<Rightarrow> processor_error + stored_event list \<times> coord_db" where
  "set_council_override env rid db =
    with_run db rid (\<lambda>ag run.
    bindR (assert_active_run_ownership ag run) (\<lambda>_.
      let rt = ag_runtime ag; task = tk_task_id (ag_task ag); now = pe_now env;
          event = create_event env 0 ''task.council_override_set'' rid task rid
            [(''council_override'', JBool True)]
      in if rt_resume_cursor rt \<noteq> SelectAgent \<and> rt_resume_cursor rt \<noteq> ExecuteAgent
           then Inl (OverrideTooLate (rt_resume_cursor rt))
         else if dg_council_override (rt_diagnostics rt) \<noteq> None then Inr ([], db)
         else lift_coord (commit_state
           (task_commit ag (tick_task now (ag_task ag)) (Some (tick_run now run))
             (rt\<lparr>rt_diagnostics := (rt_diagnostics rt)\<lparr>dg_council_override := Some (ce_event_id event)\<rparr>,
                 rt_updated_at := now\<rparr>) None [event]) db)))"

definition cursor_after_event :: "string \<Rightarrow> (string \<times> json) list \<Rightarrow> run_mode \<Rightarrow> cursor \<Rightarrow> cursor" where
  "cursor_after_event t payload mode current =
    (if t = ''market.selected'' then ExecuteAgent
     else if t \<in> {''agent.execution_requested'', ''memory.context_pack_built'', ''driver.session_started''}
       then ExecuteAgent
     else if t \<in> {''agent.execution_completed'', ''driver.run_result''} then GateStage
     else if starts_with t ''council.'' \<and> t \<notin> {''council.completed'', ''council.decision''} then Council
     else if t \<in> {''council.completed'', ''council.decision''} then GateStage
     else if t = ''gate.result'' then
       (if mode = CouncilMode \<and> json_string (map_of payload ''phase'') = Some ''pre_council'' then Council
        else Deliver)
     else if t \<in> {''artifact.selected'', ''artifact.delivered'', ''worktree.materialized'', ''checkpoint.saved''}
       then Deliver
     else current)"

definition record_run_event ::
  "ident \<Rightarrow> coord_event \<Rightarrow> coord_db \<Rightarrow> processor_error + stored_event list \<times> coord_db" where
  \<comment> \<open>the time of the event is never empty, so the clock is not read\<close>
  "record_run_event rid event db =
    bindR (require_aggregate_for_run db rid) (\<lambda>ag.
    if list_ex (\<lambda>x. ce_event_id (snd x) = ce_event_id event) (ag_events ag) then Inr ([], db)
    else bindR (require_run ag rid) (\<lambda>run.
      if \<not> is_active_run run then Inl (RunAlready rid (rn_status run))
      else if ce_task_id event \<noteq> Some (tk_task_id (ag_task ag)) \<or> ce_run_id event \<noteq> Some rid
        then Inl (ForeignEvent (ce_event_id event))
      else
        let rt = ag_runtime ag; d = rt_diagnostics rt; now = ce_created_at event;
            owner = payload_text (ce_payload event) ''winner_agent_id'';
            session = first_some [rn_session_id run, payload_text (ce_payload event) ''session_id''];
            nxt = cursor_after_event (ce_event_type event) (ce_payload event) (rn_mode run) (rt_resume_cursor rt);
            moved = (nxt \<noteq> rt_resume_cursor rt)
        in bindR (read_active_stage d) (\<lambda>active.
          let project = (moved \<and> active = None);
              task' = (case owner of Some a \<Rightarrow> (ag_task ag)\<lparr>tk_owner_agent_id := Some a\<rparr> | None \<Rightarrow> ag_task ag);
              run' = (case session of Some s \<Rightarrow> run\<lparr>rn_session_id := Some s\<rparr> | None \<Rightarrow> run)
          in lift_coord (commit_state
            (task_commit ag (tick_task now task') (Some (tick_run now run'))
              (rt\<lparr>rt_resume_cursor := (if project then nxt else rt_resume_cursor rt),
                  rt_cursor_input := (if project then None else rt_cursor_input rt),
                  rt_artifact_refs := append_unique (rt_artifact_refs rt)
                    (payload_strings (ce_payload event) ''artifact_refs''),
                  rt_diagnostics := d\<lparr>
                    dg_legacy_cursor_projection := dg_legacy_cursor_projection d \<or> project,
                    dg_legacy_cursor_projection_suppressed :=
                      dg_legacy_cursor_projection_suppressed d \<or> (moved \<and> active \<noteq> None),
                    dg_last_event := Some (ce_event_id event, ce_event_type event)\<rparr>,
                  rt_updated_at := now\<rparr>) None [event]) db))))"

section \<open>Interruption and recovery\<close>

definition commit_interrupted_run ::
  "proc_env \<Rightarrow> task_aggregate \<Rightarrow> run_state \<Rightarrow> safepoint_trigger \<Rightarrow> interrupt_state \<Rightarrow> bool \<Rightarrow> coord_db
    \<Rightarrow> processor_error + stored_event list \<times> coord_db" where
  "commit_interrupted_run env ag run trigger why inherit db =
    bindR (lift_status (assert_task_status_transition (tk_status (ag_task ag)) TaskBlocked)) (\<lambda>_.
      let task = tk_task_id (ag_task ag); rid = rn_run_id run; now = pe_now env; rt = ag_runtime ag;
          latest = (if inherit then get_latest_checkpoint db task else None)
      in case build_safepoint_checkpoint (pe_capture env) (registry_of env db task) (cd_mailbox db)
            \<lparr>sp_run_id = rid, sp_trigger = trigger,
             sp_parent_checkpoint_id = map_option cp_checkpoint_id latest,
             sp_interrupt_state = Some why, sp_inherited = map_option cp_mechanical_snapshot latest,
             sp_now = now, sp_checkpoint_id = pe_checkpoint_id env\<rparr> ag of
          None \<Rightarrow> Inl (SafepointRunMissing rid)
        | Some cp \<Rightarrow>
            lift_coord (commit_state
              (task_commit ag
                (tick_task now ((ag_task ag)\<lparr>tk_status := TaskBlocked\<rparr>))
                (Some (tick_run now (run\<lparr>rn_status := RunInterrupted, rn_completed_at := Some now\<rparr>)))
                (rt\<lparr>rt_current_run_id := None,
                    rt_cursor_input := first_some [cp_cursor_input cp, rt_cursor_input rt],
                    rt_interrupt_state := Some why,
                    rt_diagnostics := (rt_diagnostics rt)\<lparr>dg_interrupted_run_id := Some rid,
                      dg_recovery_checkpoint_id := Some (cp_checkpoint_id cp)\<rparr>,
                    rt_updated_at := now\<rparr>)
                (Some cp)
                [create_event env 0 ''run.interrupted'' rid task rid
                   [(''reason'', JStr (is_reason why)),
                    (''resume_cursor'', JStr (cursor_name (rt_resume_cursor rt)))],
                 create_event env 1 ''task.blocked'' task task rid
                   [(''reason'', JStr (is_reason why)), (''interrupted_run_id'', JStr rid)],
                 create_event env 2 ''checkpoint.saved'' (cp_checkpoint_id cp) task rid
                   [(''checkpoint_id'', JStr (cp_checkpoint_id cp)),
                    (''resume_cursor'', JStr (cursor_name (rt_resume_cursor rt))),
                    (''trigger'', JStr (trigger_name trigger))]]) db))"

definition interrupt_run ::
  "proc_env \<Rightarrow> ident \<Rightarrow> string \<Rightarrow> bool \<Rightarrow> coord_db \<Rightarrow> processor_error + stored_event list \<times> coord_db" where
  "interrupt_run env rid reason from_shutdown db =
    with_run db rid (\<lambda>ag run.
      if \<not> is_active_run run then Inr ([], db)
      else commit_interrupted_run env ag run (if from_shutdown then TrShutdown else TrManual)
        \<lparr>is_type = ItUserInterrupted, is_reason = reason, is_from_shutdown = from_shutdown,
         is_delivery_ids = None, is_interrupted_run_id = Some (rn_run_id run)\<rparr> False db)"

definition crash_reason :: string where
  "crash_reason = ''The backend process ended before the active run reached a terminal state.''"

definition recover_interrupted_task ::
  "proc_env \<Rightarrow> task_aggregate \<Rightarrow> coord_db \<Rightarrow> processor_error + stored_event list \<times> coord_db" where
  "recover_interrupted_task env ag db =
    (case find is_active_run (ag_runs ag) of
       None \<Rightarrow> Inr ([], db)
     | Some run \<Rightarrow> commit_interrupted_run env ag run TrBlocked
         \<lparr>is_type = ItProcessInterrupted, is_reason = crash_reason, is_from_shutdown = False,
          is_delivery_ids = None, is_interrupted_run_id = Some (rn_run_id run)\<rparr> True db)"

fun recover_each ::
  "(nat \<Rightarrow> proc_env) \<Rightarrow> nat \<Rightarrow> task_aggregate list \<Rightarrow> coord_db \<Rightarrow> processor_error option \<times> coord_db" where
  \<comment> \<open>the first error ends the recovery; what was recovered before it stays\<close>
  "recover_each env n [] db = (None, db)"
| "recover_each env n (ag # ags) db =
     (case recover_interrupted_task (env n) ag db of
        Inl e \<Rightarrow> (Some e, db)
      | Inr (_, db') \<Rightarrow> recover_each env (n + 1) ags db')"

definition recover_interrupted_tasks :: "(nat \<Rightarrow> proc_env) \<Rightarrow> coord_db \<Rightarrow> processor_error option \<times> coord_db" where
  "recover_interrupted_tasks env db =
    (case list_task_aggregates db of
       Inl e \<Rightarrow> (Some (StoreFailed e), db)
     | Inr ags \<Rightarrow> recover_each env 0 (filter (\<lambda>ag. list_ex is_active_run (ag_runs ag)) ags) db)"

fun safepoint_each :: "(nat \<Rightarrow> proc_env) \<Rightarrow> nat \<Rightarrow> task_aggregate list \<Rightarrow> coord_db \<Rightarrow> checkpoint list \<times> coord_db" where
  "safepoint_each env n [] db = ([], db)"
| "safepoint_each env n (ag # ags) db =
     (case find is_active_run (ag_runs ag) of
        None \<Rightarrow> safepoint_each env (n + 1) ags db
      | Some run \<Rightarrow>
          (let (saved, db') = persist_safepoint (env n) 0 ag (rn_run_id run) TrShutdown db;
               (rest, db'') = safepoint_each env (n + 1) ags db'
           in ((case saved of None \<Rightarrow> rest | Some cp \<Rightarrow> cp # rest), db'')))"

definition save_shutdown_safepoints ::
  "(nat \<Rightarrow> proc_env) \<Rightarrow> coord_db \<Rightarrow> processor_error + checkpoint list \<times> coord_db" where
  "save_shutdown_safepoints env db =
    bindR (lift_coord (list_task_aggregates db)) (\<lambda>ags. Inr (safepoint_each env 0 ags db))"

definition record_workspace_restore ::
  "proc_env \<Rightarrow> ident \<Rightarrow> ident \<Rightarrow> ident \<Rightarrow> (string \<times> json) list \<Rightarrow> coord_db \<Rightarrow> processor_error + coord_db" where
  \<comment> \<open>a refused commit is swallowed\<close>
  "record_workspace_restore env task checkpoint_id rid outcome db =
    bindR (lift_coord (get_task_aggregate db task)) (\<lambda>existing.
      case existing of
        None \<Rightarrow> Inr db
      | Some ag \<Rightarrow>
          (case commit_state (task_commit ag (tick_task (pe_now env) (ag_task ag)) None
               ((ag_runtime ag)\<lparr>rt_updated_at := pe_now env\<rparr>) None
               [create_event env 0 ''checkpoint.workspace_restored'' checkpoint_id task rid
                  ((''checkpoint_id'', JStr checkpoint_id) # outcome)]) db of
             Inl _ \<Rightarrow> Inr db
           | Inr (_, db') \<Rightarrow> Inr db'))"

section \<open>The end of a run\<close>

definition council_warnings :: "run_snapshot option \<Rightarrow> string list" where
  "council_warnings s = (case s of None \<Rightarrow> [] | Some x \<Rightarrow> rs_council_warnings x)"

definition first_snapshot_error :: "run_snapshot option \<Rightarrow> task_error option" where
  "first_snapshot_error s =
    (case s of None \<Rightarrow> None | Some x \<Rightarrow> (case rs_errors x of [] \<Rightarrow> None | e # _ \<Rightarrow> Some e))"

definition run_status_name :: "run_status \<Rightarrow> string" where
  "run_status_name s = (case s of RunCreated \<Rightarrow> ''created'' | RunRunning \<Rightarrow> ''running''
     | RunInterrupted \<Rightarrow> ''interrupted'' | RunCompleted \<Rightarrow> ''completed'' | RunFailed \<Rightarrow> ''failed''
     | RunCancelled \<Rightarrow> ''cancelled'')"

definition task_status_of_run :: "run_status \<Rightarrow> task_status" where
  \<comment> \<open>the terminal statuses carry the same names for runs and tasks\<close>
  "task_status_of_run s = (if s = RunCompleted then TaskCompleted
     else if s = RunFailed then TaskFailed else TaskCancelled)"

definition finish_run ::
  "proc_env \<Rightarrow> finish_run_input \<Rightarrow> coord_db \<Rightarrow> processor_error + stored_event list \<times> coord_db" where
  "finish_run env inp db =
    with_run db (fr_run_id inp) (\<lambda>ag run.
    if \<not> is_active_run run then
      (if rn_status run = fr_status inp then Inr ([], db)
       else Inl (RunAlready (fr_run_id inp) (rn_status run)))
    else bindR (lift_status (assert_task_status_transition (tk_status (ag_task ag))
        (task_status_of_run (fr_status inp)))) (\<lambda>_.
      let task = tk_task_id (ag_task ag); rid = fr_run_id inp; rt = ag_runtime ag;
          now = (case fr_event inp of Some e \<Rightarrow> ce_created_at e | None \<Rightarrow> pe_now env);
          warnings = or_default (fr_warnings inp) (council_warnings (fr_snapshot inp));
          err = first_some [fr_error inp, first_snapshot_error (fr_snapshot inp)];
          terminal = or_default (fr_event inp)
            (create_event env 0 (if fr_status inp = RunCompleted then ''run.completed''
               else if fr_status inp = RunFailed then ''run.failed'' else ''run.cancelled'') rid task rid
              ((''status'', JStr (run_status_name (fr_status inp))) #
               (case err of None \<Rightarrow> []
                | Some e \<Rightarrow> [(''code'', JStr (te_code e)), (''message'', JStr (te_message e))])));
          session = (case fr_snapshot inp of None \<Rightarrow> None
            | Some s \<Rightarrow> non_empty (first_some [rs_run_session_id s, rs_output_session_id s]));
          run0 = (case session of Some s \<Rightarrow> run\<lparr>rn_session_id := Some s\<rparr> | None \<Rightarrow> run);
          run1 = (case fr_snapshot inp of Some s \<Rightarrow> run0\<lparr>rn_snapshot := Some s\<rparr> | None \<Rightarrow> run0)
      in lift_coord (commit_state
        (task_commit ag
          (tick_task now ((ag_task ag)\<lparr>tk_status := task_status_of_run (fr_status inp), tk_warnings := warnings,
             tk_final_output := (if fr_status inp = RunCompleted then fr_final_output inp else None),
             tk_error := err\<rparr>))
          (Some (tick_run now (run1\<lparr>rn_status := fr_status inp, rn_error := err, rn_completed_at := Some now\<rparr>)))
          (rt\<lparr>rt_current_run_id := None, rt_resume_cursor := CursorDone, rt_cursor_input := Some InDone,
              rt_waiting_on := [],
              rt_artifact_refs := append_unique (rt_artifact_refs rt)
                (case fr_snapshot inp of None \<Rightarrow> [] | Some s \<Rightarrow> rs_output_artifact_refs s),
              rt_diagnostics := (rt_diagnostics rt)\<lparr>dg_active_stage := None,
                dg_terminal := Some (fr_status inp, ce_event_id terminal)\<rparr>,
              rt_updated_at := now\<rparr>)
          None [terminal]) db)))"

definition delete_task_checked :: "ident \<Rightarrow> coord_db \<Rightarrow> processor_error + coord_db" where
  \<comment> \<open>\<open>TaskProcessor.deleteTask\<close>\<close>
  "delete_task_checked task db =
    bindR (get_task_snapshot db task) (\<lambda>_. lift_coord (delete_task task db))"

section \<open>Contexts\<close>

definition list_task_events :: "coord_db \<Rightarrow> ident \<Rightarrow> ident option \<Rightarrow> processor_error + stored_event list" where
  \<comment> \<open>the events after a cursor; the projection to the frontend's event type is left out\<close>
  "list_task_events db task after =
    bindR (get_task_snapshot db task) (\<lambda>ag.
      case non_empty after of
        None \<Rightarrow> Inr (ag_events ag)
      | Some i \<Rightarrow>
         (case dropWhile (\<lambda>x. ce_event_id (snd x) \<noteq> i) (ag_events ag) of
            [] \<Rightarrow> Inl (ForeignEvent i)
          | _ # rest \<Rightarrow> Inr rest))"

definition build_task_resume_package ::
  "proc_env \<Rightarrow> coord_db \<Rightarrow> ident \<Rightarrow> processor_error + resume_error + resume_package" where
  \<comment> \<open>\<open>TaskProcessor.buildResumePackage\<close>\<close>
  "build_task_resume_package env db task =
    bindR (get_task_snapshot db task) (\<lambda>ag.
      case get_latest_checkpoint db task of
        None \<Rightarrow> Inl (BeginRefused (ResumeNotLatest task))
      | Some cp \<Rightarrow> Inr (build_resume_package (registry_of env db task) (cd_mailbox db) ag cp))"

end
