(* ===== verification/CoordinationInvariant.thy ===== *)
theory CoordinationInvariant
  imports CoordinationStore
begin

text \<open>
  What a successful commit does to the tables, and the invariant of the coordination store that
  every commit and every deletion keeps.
\<close>

section \<open>Rows with a key\<close>

definition upsert :: "('a \<Rightarrow> 'k) \<Rightarrow> 'a \<Rightarrow> 'a list \<Rightarrow> 'a list" where
  "upsert key x xs =
    (if key x \<in> key ` set xs then map (\<lambda>y. if key y = key x then x else y) xs else xs @ [x])"

lemma find_key_None: "find (\<lambda>y. key y = k) xs = None \<longleftrightarrow> k \<notin> key ` set xs"
  by (auto simp: find_None_iff)

lemma upsert_keys:
  "map key (upsert key x xs) = (if key x \<in> key ` set xs then map key xs else map key xs @ [key x])"
  by (auto simp: upsert_def)

lemma distinct_upsert [simp]: "distinct (map key (upsert key x xs)) \<longleftrightarrow> distinct (map key xs)"
  unfolding upsert_keys by auto

lemma set_upsert:
  "set (upsert key x xs) = insert x {y \<in> set xs. key y \<noteq> key x}"
proof (cases "key x \<in> key ` set xs")
  case True
  then obtain y where "y \<in> set xs" "key y = key x" by (metis imageE)
  then have "x \<in> (\<lambda>y. if key y = key x then x else y) ` set xs" by (intro image_eqI[of _ _ y]) simp_all
  then show ?thesis using True by (auto simp: upsert_def)
next
  case False
  then have "key y \<noteq> key x" if "y \<in> set xs" for y using that by (metis image_eqI)
  then have "{y \<in> set xs. key y \<noteq> key x} = set xs" by blast
  with False show ?thesis by (simp add: upsert_def)
qed

lemma find_map_replace:
  "find (\<lambda>y. key y = k) (map (\<lambda>y. if key y = key x then x else y) xs) =
    (if k = key x \<and> k \<in> key ` set xs then Some x else find (\<lambda>y. key y = k) xs)"
  by (induction xs) auto

lemma find_upsert:
  "find (\<lambda>y. key y = k) (upsert key x xs) = (if key x = k then Some x else find (\<lambda>y. key y = k) xs)"
proof (cases "key x \<in> key ` set xs")
  case True
  then show ?thesis by (auto simp: upsert_def find_map_replace)
next
  case False
  then have none: "find (\<lambda>y. key y = key x) xs = None" unfolding find_key_None .
  have app: "find P (xs @ [x]) = (case find P xs of Some y \<Rightarrow> Some y | None \<Rightarrow> if P x then Some x else None)" for P
    by (induction xs) auto
  from False none show ?thesis by (auto simp: upsert_def app split: option.split)
qed

lemma find_unique_key:
  "distinct (map key xs) \<Longrightarrow> x \<in> set xs \<Longrightarrow> find (\<lambda>y. key y = key x) xs = Some x"
  by (induction xs) auto

lemma find_key_Some: "find (\<lambda>y. key y = k) xs = Some x \<Longrightarrow> x \<in> set xs \<and> key x = k"
  by (auto simp: find_Some_iff)

lemma find_key_mem: "find (\<lambda>y. key y = k) xs = Some x \<Longrightarrow> k \<in> key ` set xs"
  using find_key_Some by (metis image_eqI)

section \<open>The effect of a commit\<close>

lemma write_task_Inr:
  "write_task c db = Inr db' \<Longrightarrow>
     db' = db\<lparr>cd_tasks := upsert tk_task_id (cc_task c) (cd_tasks db)\<rparr> \<and>
     tk_revision (cc_task c) = (case find_task db (tk_task_id (cc_task c)) of
        None \<Rightarrow> 1 | Some t \<Rightarrow> tk_revision t + 1) \<and>
     cc_expected_task_revision c = map_option tk_revision (find_task db (tk_task_id (cc_task c)))"
proof (cases "find_task db (tk_task_id (cc_task c))")
  case None
  assume "write_task c db = Inr db'"
  moreover from None have "tk_task_id (cc_task c) \<notin> tk_task_id ` set (cd_tasks db)"
    unfolding find_task_def find_key_None .
  ultimately show ?thesis using None
    by (auto simp: write_task_def upsert_def Let_def split: if_splits)
next
  case (Some t)
  assume run: "write_task c db = Inr db'"
  have "tk_task_id (cc_task c) \<in> tk_task_id ` set (cd_tasks db)"
    by (rule find_key_mem[OF Some[unfolded find_task_def]])
  with run Some show ?thesis
    by (simp add: write_task_def upsert_def Let_def split: if_splits)
qed

definition run_fits :: "run_state \<Rightarrow> coord_db \<Rightarrow> bool" where
  "run_fits r db \<longleftrightarrow>
     (is_active_run r \<longrightarrow> other_active_run r db = None) \<and>
     (case find_run db (rn_run_id r) of
        None \<Rightarrow> rn_revision r = 1
      | Some x \<Rightarrow> rn_task_id x = rn_task_id r \<and> rn_revision r = rn_revision x + 1)"

lemma write_run_Inr:
  assumes "write_run r db = Inr db'"
  shows "db' = db\<lparr>cd_runs := upsert rn_run_id r (cd_runs db)\<rparr> \<and> run_fits r db \<and>
    find_task db (rn_task_id r) \<noteq> None"
proof (cases "find_run db (rn_run_id r)")
  case None
  then have "rn_run_id r \<notin> rn_run_id ` set (cd_runs db)"
    unfolding find_run_def find_key_None .
  with assms None show ?thesis
    by (auto simp: write_run_def run_fits_def upsert_def lineage_ok_def split: if_splits option.splits)
next
  case (Some x)
  have mem: "rn_run_id r \<in> rn_run_id ` set (cd_runs db)"
    by (rule find_key_mem[OF Some[unfolded find_run_def]])
  have none: "(if is_active_run r then other_active_run r db else None) = None"
    using assms by (cases "if is_active_run r then other_active_run r db else None")
      (simp_all add: write_run_def)
  from assms Some none have "rn_task_id x = rn_task_id r" "rn_revision r = rn_revision x + 1"
    "lineage_ok r db" "db' = db\<lparr>cd_runs := map (\<lambda>x. if rn_run_id x = rn_run_id r then r else x) (cd_runs db)\<rparr>"
    by (simp_all add: write_run_def split: if_splits)
  with mem none Some show ?thesis
    by (auto simp: run_fits_def upsert_def lineage_ok_def split: if_splits)
qed

lemma write_runtime_state_Inr:
  assumes "write_runtime_state s db = Inr db'"
  shows "db' = db\<lparr>cd_runtime_states := upsert rt_task_id s (cd_runtime_states db)\<rparr> \<and>
    (\<forall>i. rt_current_run_id s = Some i \<longrightarrow> find_run db i \<noteq> None)"
proof -
  have "find_runtime db (rt_task_id s) = None \<longleftrightarrow> rt_task_id s \<notin> rt_task_id ` set (cd_runtime_states db)"
    unfolding find_runtime_def find_key_None ..
  with assms show ?thesis
    by (auto simp: write_runtime_state_def upsert_def split: if_splits option.splits)
qed

lemma write_checkpoint_Inr:
  "write_checkpoint cp db = Inr db' \<Longrightarrow>
     db' = db\<lparr>cd_checkpoints := cd_checkpoints db @ [cp]\<rparr> \<and>
     cp_checkpoint_id cp \<notin> cp_checkpoint_id ` set (cd_checkpoints db)"
  by (auto simp: write_checkpoint_def Let_def split: if_splits option.splits)

abbreviation event_id_of :: "stored_event \<Rightarrow> ident" where
  "event_id_of x \<equiv> ce_event_id (snd x)"

definition events_fit :: "stored_event list \<Rightarrow> coord_db \<Rightarrow> bool" where
  \<comment> \<open>the new rows of the event table\<close>
  "events_fit new db \<longleftrightarrow>
     map fst new = [cd_next_sequence db ..< cd_next_sequence db + length new] \<and>
     distinct (map event_id_of new) \<and> event_id_of ` set new \<inter> event_id_of ` set (cd_events db) = {}"

lemma write_event_Inr:
  assumes "write_event e db = Inr (s, db')"
  shows "s = (cd_next_sequence db, e) \<and> ce_event_id e \<notin> event_id_of ` set (cd_events db) \<and>
    db' = db\<lparr>cd_events := cd_events db @ [s], cd_next_sequence := cd_next_sequence db + 1,
             cd_mailbox := log_event_id (ce_event_id e) (cd_mailbox db)\<rparr>"
proof -
  from assms obtain task where "non_empty (ce_task_id e) = Some task"
    by (cases "non_empty (ce_task_id e)") (simp_all add: write_event_def)
  with assms show ?thesis by (auto simp: write_event_def Let_def split: if_splits)
qed

lemma write_events_Inr:
  "write_events es db = Inr (new, db') \<Longrightarrow>
     map snd new = es \<and> events_fit new db \<and>
     db' = db\<lparr>cd_events := cd_events db @ new, cd_next_sequence := cd_next_sequence db + length new,
              cd_mailbox := fold log_event_id (map ce_event_id es) (cd_mailbox db)\<rparr>"
proof (induction es arbitrary: db new)
  case Nil
  then show ?case by (simp add: events_fit_def)
next
  case (Cons e es)
  from Cons.prems obtain s db1 ss where s: "write_event e db = Inr (s, db1)"
    and rest: "write_events es db1 = Inr (ss, db')" and new: "new = s # ss"
    by (auto simp: bindR_eq_Inr_conv)
  note s' = write_event_Inr[OF s]
  note IH = Cons.IH[OF rest]
  have "map fst new = [cd_next_sequence db ..< cd_next_sequence db + length new]"
    using IH s' new by (simp add: events_fit_def upt_conv_Cons[of "cd_next_sequence db"] del: upt_Suc)
  moreover have "distinct (map event_id_of new)"
    "event_id_of ` set new \<inter> event_id_of ` set (cd_events db) = {}"
    using IH s' new by (auto simp: events_fit_def)
  ultimately show ?case using IH s' new by (simp add: events_fit_def)
qed

definition committed :: "coord_commit \<Rightarrow> stored_event list \<Rightarrow> coord_db \<Rightarrow> coord_db" where
  \<comment> \<open>the database after a commit that stored the events \<open>new\<close>\<close>
  "committed c new db =
    db\<lparr>cd_tasks := upsert tk_task_id (cc_task c) (cd_tasks db),
       cd_runs := (case cc_run c of None \<Rightarrow> cd_runs db | Some r \<Rightarrow> upsert rn_run_id r (cd_runs db)),
       cd_runtime_states := upsert rt_task_id (cc_runtime_state c) (cd_runtime_states db),
       cd_events := cd_events db @ new,
       cd_next_sequence := cd_next_sequence db + length new,
       cd_checkpoints := cd_checkpoints db @ (case cc_checkpoint c of None \<Rightarrow> [] | Some cp \<Rightarrow> [cp]),
       cd_mailbox := fold log_event_id (map ce_event_id (cc_events c)) (cd_mailbox db)\<rparr>"

lemma committed_simps [simp]:
  "cd_tasks (committed c new db) = upsert tk_task_id (cc_task c) (cd_tasks db)"
  "cd_runs (committed c new db) =
    (case cc_run c of None \<Rightarrow> cd_runs db | Some r \<Rightarrow> upsert rn_run_id r (cd_runs db))"
  "cd_runtime_states (committed c new db) = upsert rt_task_id (cc_runtime_state c) (cd_runtime_states db)"
  "cd_events (committed c new db) = cd_events db @ new"
  "cd_next_sequence (committed c new db) = cd_next_sequence db + length new"
  "cd_checkpoints (committed c new db) =
    cd_checkpoints db @ (case cc_checkpoint c of None \<Rightarrow> [] | Some cp \<Rightarrow> [cp])"
  "cd_sessions (committed c new db) = cd_sessions db"
  by (simp_all add: committed_def)

definition commit_fits :: "coord_commit \<Rightarrow> stored_event list \<Rightarrow> coord_db \<Rightarrow> bool" where
  "commit_fits c new db \<longleftrightarrow>
     validate_commit c = Inr () \<and>
     tk_revision (cc_task c) = (case find_task db (tk_task_id (cc_task c)) of
        None \<Rightarrow> 1 | Some t \<Rightarrow> tk_revision t + 1) \<and>
     cc_expected_task_revision c = map_option tk_revision (find_task db (tk_task_id (cc_task c))) \<and>
     (\<forall>r. cc_run c = Some r \<longrightarrow> run_fits r db) \<and>
     (\<forall>cp. cc_checkpoint c = Some cp \<longrightarrow>
        cp_checkpoint_id cp \<notin> cp_checkpoint_id ` set (cd_checkpoints db)) \<and>
     map snd new = cc_events c \<and> events_fit new db"

lemma committed_run_step:
  assumes "(case ro of None \<Rightarrow> Inr (db\<lparr>cd_tasks := ts\<rparr>) | Some r \<Rightarrow> write_run r (db\<lparr>cd_tasks := ts\<rparr>)) = Inr db'"
  shows "db' = db\<lparr>cd_tasks := ts,
      cd_runs := (case ro of None \<Rightarrow> cd_runs db | Some r \<Rightarrow> upsert rn_run_id r (cd_runs db))\<rparr> \<and>
    (\<forall>r. ro = Some r \<longrightarrow> run_fits r db)"
proof (cases ro)
  case None
  with assms have "db' = db\<lparr>cd_tasks := ts\<rparr>" by simp
  with None show ?thesis by simp
next
  case (Some r)
  with assms have "write_run r (db\<lparr>cd_tasks := ts\<rparr>) = Inr db'" by simp
  from write_run_Inr[OF this] Some show ?thesis
    by (simp add: run_fits_def other_active_run_def find_run_def)
qed

lemma committed_checkpoint_step:
  assumes "(case co of None \<Rightarrow> Inr db | Some cp \<Rightarrow> write_checkpoint cp db) = Inr db'"
  shows "db' = db\<lparr>cd_checkpoints := cd_checkpoints db @ (case co of None \<Rightarrow> [] | Some cp \<Rightarrow> [cp])\<rparr> \<and>
    (\<forall>cp. co = Some cp \<longrightarrow> cp_checkpoint_id cp \<notin> cp_checkpoint_id ` set (cd_checkpoints db))"
proof (cases co)
  case None
  with assms have "db' = db" by simp
  with None show ?thesis by simp
next
  case (Some cp)
  with assms have "write_checkpoint cp db = Inr db'" by simp
  from write_checkpoint_Inr[OF this] Some show ?thesis by simp
qed

lemma commit_state_Inr:
  assumes "commit_state c db = Inr (new, db')"
  shows "db' = committed c new db \<and> commit_fits c new db"
proof -
  from assms obtain db1 db2 db3 db4 where v: "validate_commit c = Inr ()"
    and 1: "write_task c db = Inr db1"
    and 2: "(case cc_run c of None \<Rightarrow> Inr db1 | Some r \<Rightarrow> write_run r db1) = Inr db2"
    and 3: "write_runtime_state (cc_runtime_state c) db2 = Inr db3"
    and 4: "(case cc_checkpoint c of None \<Rightarrow> Inr db3 | Some cp \<Rightarrow> write_checkpoint cp db3) = Inr db4"
    and 5: "write_events (cc_events c) db4 = Inr (new, db')"
    by (auto simp: commit_state_def bindR_eq_Inr_conv)
  note t = write_task_Inr[OF 1]
  have r: "db2 = db1\<lparr>cd_runs := (case cc_run c of None \<Rightarrow> cd_runs db | Some r \<Rightarrow> upsert rn_run_id r (cd_runs db))\<rparr>"
    "\<forall>r. cc_run c = Some r \<longrightarrow> run_fits r db"
    using committed_run_step[OF 2[unfolded conjunct1[OF t]]] t by simp_all
  note s = write_runtime_state_Inr[OF 3]
  have cp: "db4 = db3\<lparr>cd_checkpoints := cd_checkpoints db @ (case cc_checkpoint c of None \<Rightarrow> [] | Some cp \<Rightarrow> [cp])\<rparr>"
    "\<forall>cp. cc_checkpoint c = Some cp \<longrightarrow> cp_checkpoint_id cp \<notin> cp_checkpoint_id ` set (cd_checkpoints db)"
    using committed_checkpoint_step[OF 4] t r(1) s by simp_all
  note ev = write_events_Inr[OF 5]
  have "db' = committed c new db"
    using t r(1) s cp(1) ev by (simp add: committed_def)
  moreover have "commit_fits c new db"
    using v t r cp ev s by (simp add: commit_fits_def events_fit_def)
  ultimately show ?thesis ..
qed

lemmas committed_finds =
  find_upsert[where key = tk_task_id] find_upsert[where key = rn_run_id] find_upsert[where key = rt_task_id]

lemma find_task_committed:
  "find_task (committed c new db) i =
    (if tk_task_id (cc_task c) = i then Some (cc_task c) else find_task db i)"
  by (simp add: find_task_def committed_finds)

lemma find_runtime_committed:
  "find_runtime (committed c new db) i =
    (if rt_task_id (cc_runtime_state c) = i then Some (cc_runtime_state c) else find_runtime db i)"
  by (simp add: find_runtime_def committed_finds)

lemma find_run_committed:
  "find_run (committed c new db) i =
    (case cc_run c of
       None \<Rightarrow> find_run db i | Some r \<Rightarrow> if rn_run_id r = i then Some r else find_run db i)"
  by (auto simp: find_run_def committed_finds split: option.split)

section \<open>The invariant of the tables\<close>

definition runtime_ok :: "runtime_state \<Rightarrow> bool" where
  "runtime_ok s = (case rt_cursor_input s of None \<Rightarrow> True
     | Some ci \<Rightarrow> cursor_input_ok ci \<and> cursor_of ci = rt_resume_cursor s)"

definition completed_ok :: "task_state \<Rightarrow> bool" where
  "completed_ok t \<longleftrightarrow> tk_status t \<noteq> TaskCompleted \<or>
     (case tk_final_output t of None \<Rightarrow> False | Some fo \<Rightarrow> final_output_ok fo)"

definition active_unique :: "run_state list \<Rightarrow> bool" where
  "active_unique rs \<longleftrightarrow> (\<forall>x \<in> set rs. \<forall>y \<in> set rs.
     is_active_run x \<and> is_active_run y \<and> rn_task_id x = rn_task_id y \<longrightarrow> rn_run_id x = rn_run_id y)"

definition keys_ok :: "coord_db \<Rightarrow> bool" where
  "keys_ok db \<longleftrightarrow> distinct (map tk_task_id (cd_tasks db)) \<and> distinct (map rn_run_id (cd_runs db)) \<and>
     map rt_task_id (cd_runtime_states db) = map tk_task_id (cd_tasks db) \<and>
     rn_task_id ` set (cd_runs db) \<subseteq> tk_task_id ` set (cd_tasks db) \<and>
     distinct (map cp_checkpoint_id (cd_checkpoints db))"

definition event_log_ok :: "coord_db \<Rightarrow> bool" where
  "event_log_ok db \<longleftrightarrow> sorted_wrt (<) (map fst (cd_events db)) \<and>
     (\<forall>n \<in> fst ` set (cd_events db). n < cd_next_sequence db) \<and>
     distinct (map event_id_of (cd_events db))"

definition store_inv :: "coord_db \<Rightarrow> bool" where
  "store_inv db \<longleftrightarrow> keys_ok db \<and> event_log_ok db \<and> active_unique (cd_runs db) \<and>
     list_all runtime_ok (cd_runtime_states db) \<and> list_all completed_ok (cd_tasks db)"

lemma store_inv_empty: "store_inv empty_coord_db"
  by (simp add: store_inv_def keys_ok_def event_log_ok_def active_unique_def empty_coord_db_def)

lemma validate_commit_Inr:
  assumes "validate_commit c = Inr ()"
  shows "cc_events c \<noteq> [] \<and> rt_task_id (cc_runtime_state c) = tk_task_id (cc_task c) \<and>
    (\<forall>r. cc_run c = Some r \<longrightarrow> rn_task_id r = tk_task_id (cc_task c)) \<and>
    runtime_ok (cc_runtime_state c) \<and> completed_ok (cc_task c)"
proof -
  have v: "validate_cursor_input (cc_runtime_state c) = Inr ()"
    and r: "\<not> (case cc_run c of None \<Rightarrow> False | Some r \<Rightarrow> rn_task_id r \<noteq> tk_task_id (cc_task c))"
    and f: "\<not> (tk_status (cc_task c) = TaskCompleted \<and>
            (case tk_final_output (cc_task c) of None \<Rightarrow> True | Some fo \<Rightarrow> \<not> final_output_ok fo))"
    and e: "cc_events c \<noteq> []" "rt_task_id (cc_runtime_state c) = tk_task_id (cc_task c)"
    using assms by (simp_all add: validate_commit_def bindR_eq_Inr_conv split: if_splits)
  have "runtime_ok (cc_runtime_state c)"
    using v by (auto simp: validate_cursor_input_def runtime_ok_def cursor_input_ok_def is_ok_iff
        dest: parse_cursor_input_same split: option.splits sum.splits)
  moreover have "completed_ok (cc_task c)"
    using f by (auto simp: completed_ok_def split: option.splits)
  ultimately show ?thesis using e r by (auto split: option.splits)
qed

lemma keys_ok_committed:
  assumes inv: "keys_ok db" and fits: "commit_fits c new db"
  shows "keys_ok (committed c new db)"
proof -
  note v = validate_commit_Inr[OF fits[unfolded commit_fits_def, THEN conjunct1]]
  have keys: "map rt_task_id (cd_runtime_states db) = map tk_task_id (cd_tasks db)"
    using inv by (simp add: keys_ok_def)
  then have sets: "rt_task_id ` set (cd_runtime_states db) = tk_task_id ` set (cd_tasks db)"
    by (metis list.set_map)
  have rt: "map rt_task_id (upsert rt_task_id (cc_runtime_state c) (cd_runtime_states db)) =
      map tk_task_id (upsert tk_task_id (cc_task c) (cd_tasks db))"
    using keys sets v by (simp add: upsert_keys)
  have runs: "rn_task_id ` set (cd_runs (committed c new db)) \<subseteq>
      tk_task_id ` set (upsert tk_task_id (cc_task c) (cd_tasks db))"
  proof -
    have "tk_task_id ` set (upsert tk_task_id (cc_task c) (cd_tasks db)) =
        insert (tk_task_id (cc_task c)) (tk_task_id ` set (cd_tasks db))"
      unfolding list.set_map[symmetric] upsert_keys by auto
    moreover have "rn_task_id ` set (cd_runs (committed c new db)) \<subseteq>
        insert (tk_task_id (cc_task c)) (rn_task_id ` set (cd_runs db))"
      using v by (cases "cc_run c") (simp_all add: set_upsert image_subset_iff subset_insertI)
    moreover have "rn_task_id ` set (cd_runs db) \<subseteq> tk_task_id ` set (cd_tasks db)"
      using inv by (simp add: keys_ok_def)
    ultimately show ?thesis by (simp only:) (meson insert_mono subset_trans)
  qed
  have "distinct (map rn_run_id (cd_runs (committed c new db)))"
    using inv by (simp add: keys_ok_def split: option.split)
  moreover have "distinct (map cp_checkpoint_id (cd_checkpoints (committed c new db)))"
    using inv fits by (auto simp: keys_ok_def commit_fits_def split: option.split)
  ultimately show ?thesis
    using inv rt runs by (simp add: keys_ok_def)
qed

lemma event_log_ok_committed:
  assumes inv: "event_log_ok db" and fits: "commit_fits c new db"
  shows "event_log_ok (committed c new db)"
proof -
  let ?n = "cd_next_sequence db"
  have new: "map fst new = [?n ..< ?n + length new]" "distinct (map event_id_of new)"
    "event_id_of ` set new \<inter> event_id_of ` set (cd_events db) = {}"
    using fits by (simp_all add: commit_fits_def events_fit_def)
  have fst_new: "fst ` set new = {?n ..< ?n + length new}"
    using arg_cong[OF new(1), of set] by simp
  have "sorted_wrt (<) (map fst (cd_events db) @ [?n ..< ?n + length new])"
    using inv by (auto simp: event_log_ok_def sorted_wrt_append image_iff)
  moreover have "\<forall>n \<in> fst ` (set (cd_events db) \<union> set new). n < ?n + length new"
    using inv by (simp add: event_log_ok_def image_Un fst_new ball_Un trans_less_add1)
  ultimately show ?thesis
    using inv new(2,3) by (simp add: event_log_ok_def new(1) image_Un Int_commute)
qed

lemma active_unique_committed:
  assumes inv: "active_unique (cd_runs db)" and fits: "commit_fits c new db"
  shows "active_unique (cd_runs (committed c new db))"
proof (cases "cc_run c")
  case None
  with inv show ?thesis by simp
next
  case (Some r)
  with fits have "is_active_run r \<longrightarrow> other_active_run r db = None"
    by (simp add: commit_fits_def run_fits_def)
  then have others: "rn_run_id x = rn_run_id r"
    if "x \<in> set (cd_runs db)" "is_active_run r" "is_active_run x" "rn_task_id x = rn_task_id r" for x
    using that by (auto simp: other_active_run_def find_None_iff)
  have old: "rn_run_id x = rn_run_id y" if "x \<in> set (cd_runs db)" "y \<in> set (cd_runs db)"
    "is_active_run x" "is_active_run y" "rn_task_id x = rn_task_id y" for x y
    using inv that unfolding active_unique_def by blast
  show ?thesis unfolding active_unique_def
  proof (intro ballI impI, elim conjE)
    fix x y
    assume "x \<in> set (cd_runs (committed c new db))" "y \<in> set (cd_runs (committed c new db))"
    then have "x = r \<or> x \<in> set (cd_runs db)" "y = r \<or> y \<in> set (cd_runs db)"
      using Some by (auto simp: set_upsert)
    moreover assume "is_active_run x" "is_active_run y" "rn_task_id x = rn_task_id y"
    ultimately show "rn_run_id x = rn_run_id y"
      using others[of x] others[of y] old[of x y] by metis
  qed
qed

lemma store_inv_committed:
  assumes inv: "store_inv db" and fits: "commit_fits c new db"
  shows "store_inv (committed c new db)"
proof -
  note v = validate_commit_Inr[OF fits[unfolded commit_fits_def, THEN conjunct1]]
  show ?thesis
    using inv fits v keys_ok_committed[of db c new] event_log_ok_committed[of db c new]
      active_unique_committed[of db c new]
    by (simp add: store_inv_def list_all_iff set_upsert)
qed

lemma store_inv_commit: "store_inv db \<Longrightarrow> commit_state c db = Inr (new, db') \<Longrightarrow> store_inv db'"
  using commit_state_Inr store_inv_committed by blast

lemma distinct_map_filter_key: "distinct (map f xs) \<Longrightarrow> distinct (map f (filter P xs))"
  by (simp add: distinct_map_filter)

lemma delete_task_Inr:
  "delete_task i db = Inr db' \<Longrightarrow>
     cd_tasks db' = filter (\<lambda>t. tk_task_id t \<noteq> i) (cd_tasks db) \<and>
     cd_runs db' = filter (\<lambda>r. rn_task_id r \<noteq> i) (cd_runs db) \<and>
     cd_runtime_states db' = filter (\<lambda>s. rt_task_id s \<noteq> i) (cd_runtime_states db) \<and>
     cd_events db' = filter (\<lambda>x. ce_task_id (snd x) \<noteq> Some i) (cd_events db) \<and>
     cd_next_sequence db' = cd_next_sequence db \<and>
     cd_checkpoints db' = filter (\<lambda>c. cp_task_id c \<noteq> i) (cd_checkpoints db)"
  by (auto simp: delete_task_def Let_def split: if_splits)

lemma filter_same_keys:
  "map f xs = map g ys \<Longrightarrow> map f (filter (\<lambda>x. f x \<noteq> i) xs) = map g (filter (\<lambda>y. g y \<noteq> i) ys)"
proof (induction xs arbitrary: ys)
  case (Cons x xs)
  then show ?case by (cases ys) auto
qed simp

lemma store_inv_delete:
  assumes inv: "store_inv db" and del: "delete_task i db = Inr db'"
  shows "store_inv db'"
proof -
  note d = delete_task_Inr[OF del]
  have "map rt_task_id (filter (\<lambda>s. rt_task_id s \<noteq> i) (cd_runtime_states db)) =
      map tk_task_id (filter (\<lambda>t. tk_task_id t \<noteq> i) (cd_tasks db))"
    using inv by (intro filter_same_keys) (simp add: store_inv_def keys_ok_def)
  moreover have "rn_task_id ` {r \<in> set (cd_runs db). rn_task_id r \<noteq> i} \<subseteq>
      tk_task_id ` {t \<in> set (cd_tasks db). tk_task_id t \<noteq> i}"
  proof
    fix k
    assume "k \<in> rn_task_id ` {r \<in> set (cd_runs db). rn_task_id r \<noteq> i}"
    then have "k \<in> rn_task_id ` set (cd_runs db)" "k \<noteq> i" by auto
    moreover have "rn_task_id ` set (cd_runs db) \<subseteq> tk_task_id ` set (cd_tasks db)"
      using inv by (simp add: store_inv_def keys_ok_def)
    ultimately show "k \<in> tk_task_id ` {t \<in> set (cd_tasks db). tk_task_id t \<noteq> i}" by auto
  qed
  ultimately have "keys_ok db'"
    using inv d by (simp add: store_inv_def keys_ok_def distinct_map_filter)
  moreover have "event_log_ok db'"
    using inv d by (simp add: store_inv_def event_log_ok_def distinct_map_filter sorted_wrt_map sorted_wrt_filter)
  moreover have "active_unique (cd_runs db')"
    using inv d by (simp add: store_inv_def active_unique_def)
  ultimately show ?thesis
    using inv d by (simp add: store_inv_def list_all_iff)
qed

end
