(* ===== verification/TaskInvariant.thy ===== *)
theory TaskInvariant
  imports TaskStages CoordinationInvariant
begin

text \<open>
  What the task processor keeps true of the store: a contract for versioned stores that the
  coordination store meets, what an aggregate says of the tables, and the invariant that a task is
  running exactly while it has an active run, its current one.
\<close>

section \<open>Versioned stores\<close>

definition attempt :: "('c \<Rightarrow> 'db \<Rightarrow> 'e + 'r \<times> 'db) \<Rightarrow> 'c \<Rightarrow> 'db \<Rightarrow> 'db" where
  "attempt commit c db = (case commit c db of Inl _ \<Rightarrow> db | Inr (_, db') \<Rightarrow> db')"

locale versioned_store =
  fixes revision :: "'db \<Rightarrow> 'k \<Rightarrow> nat option"
    and commit :: "'c \<Rightarrow> 'db \<Rightarrow> 'e + 'r \<times> 'db"
    and key :: "'c \<Rightarrow> 'k"
    and expected :: "'c \<Rightarrow> nat option"
  assumes commit_expected: "commit c db = Inr (r, db') \<Longrightarrow> expected c = revision db (key c)"
    and commit_bumps: "commit c db = Inr (r, db') \<Longrightarrow>
      revision db' (key c) = Some (Suc (or_default (revision db (key c)) 0))"
    and commit_frame: "commit c db = Inr (r, db') \<Longrightarrow> k \<noteq> key c \<Longrightarrow> revision db' k = revision db k"
begin

lemma attempt_keeps:
  assumes "revision db k = Some n"
  shows "\<exists>m \<ge> n. revision (attempt commit c db) k = Some m"
proof (cases "commit c db")
  case (Inr x)
  then obtain r db' where run: "commit c db = Inr (r, db')" by (cases x) simp
  show ?thesis
  proof (cases "k = key c")
    case True
    with commit_bumps[OF run] assms have "revision db' k = Some (Suc n)" by simp
    then show ?thesis using run by (simp add: attempt_def)
  next
    case False
    with commit_frame[OF run] assms run show ?thesis by (simp add: attempt_def)
  qed
qed (use assms in \<open>simp add: attempt_def\<close>)

lemma attempts_keep:
  "revision db k = Some n \<Longrightarrow> \<exists>m \<ge> n. revision (fold (attempt commit) cs db) k = Some m"
proof (induction cs arbitrary: db n)
  case (Cons c cs)
  from attempt_keeps[OF Cons.prems] obtain m where "m \<ge> n" "revision (attempt commit c db) k = Some m" by blast
  with Cons.IH[of "attempt commit c db" m] show ?case by fastforce
qed simp

lemma stale_refused: "expected c \<noteq> revision db (key c) \<Longrightarrow> \<not> is_ok (commit c db)"
  using commit_expected by (auto simp: is_ok_iff)

lemma no_lost_update:
  assumes run: "commit c db = Inr (r, db')" and same: "key d = key c" "expected d = expected c"
  shows "\<not> is_ok (commit d (fold (attempt commit) cs db'))"
proof (rule stale_refused)
  from attempts_keep[OF commit_bumps[OF run]] obtain m
    where m: "m \<ge> Suc (or_default (revision db (key c)) 0)"
      "revision (fold (attempt commit) cs db') (key d) = Some m"
    using same by metis
  from commit_expected[OF run] same m
  show "expected d \<noteq> revision (fold (attempt commit) cs db') (key d)"
    by (cases "revision db (key c)") auto
qed

end

definition task_revision :: "coord_db \<Rightarrow> ident \<Rightarrow> nat option" where
  "task_revision db i = map_option tk_revision (find_task db i)"

interpretation tasks: versioned_store task_revision commit_state
  "\<lambda>c. tk_task_id (cc_task c)" cc_expected_task_revision
proof
  fix c db r db' k
  assume run: "commit_state c db = Inr (r, db')"
  note fx = commit_state_Inr[OF run]
  show "cc_expected_task_revision c = task_revision db (tk_task_id (cc_task c))"
    using fx by (simp add: commit_fits_def task_revision_def)
  show "task_revision db' (tk_task_id (cc_task c)) =
      Some (Suc (or_default (task_revision db (tk_task_id (cc_task c))) 0))"
    using fx by (simp add: commit_fits_def task_revision_def find_task_committed split: option.splits)
  show "task_revision db' k = task_revision db k" if "k \<noteq> tk_task_id (cc_task c)"
    using fx that by (simp add: task_revision_def find_task_committed)
qed

section \<open>What an aggregate says of the tables\<close>

definition reads :: "coord_db \<Rightarrow> task_aggregate \<Rightarrow> bool" where
  "reads db ag \<longleftrightarrow> get_task_aggregate db (tk_task_id (ag_task ag)) = Inr (Some ag)"

lemma read_simps [simp]:
  "rn_run_id (read_run r) = rn_run_id r" "rn_task_id (read_run r) = rn_task_id r"
  "rn_status (read_run r) = rn_status r" "rn_mode (read_run r) = rn_mode r"
  "rn_revision (read_run r) = rn_revision r"
  "tk_task_id (read_task t) = tk_task_id t" "tk_status (read_task t) = tk_status t"
  "tk_revision (read_task t) = tk_revision t"
  by (simp_all add: read_run_def read_task_def)

lemma runs_of_mem: "r \<in> set (runs_of db i) \<longleftrightarrow> (\<exists>x \<in> set (cd_runs db). rn_task_id x = i \<and> r = read_run x)"
  by (auto simp: runs_of_def)

lemma find_task_Some: "find_task db i = Some t \<Longrightarrow> t \<in> set (cd_tasks db) \<and> tk_task_id t = i"
  unfolding find_task_def by (rule find_key_Some)

lemma find_runtime_Some: "find_runtime db i = Some s \<Longrightarrow> s \<in> set (cd_runtime_states db) \<and> rt_task_id s = i"
  unfolding find_runtime_def by (rule find_key_Some)

lemma find_run_Some: "find_run db i = Some r \<Longrightarrow> r \<in> set (cd_runs db) \<and> rn_run_id r = i"
  unfolding find_run_def by (rule find_key_Some)

lemma task_aggregate_Inr:
  assumes "get_task_aggregate db i = Inr (Some ag)"
  shows "\<exists>t s. find_task db i = Some t \<and> find_runtime db i = Some s \<and>
    ag_task ag = read_task t \<and> ag_runs ag = runs_of db i \<and>
    ag_runtime ag = s\<lparr>rt_current_run_id := non_empty (rt_current_run_id s)\<rparr> \<and>
    ag_events ag = list_events db i 0"
proof -
  from assms obtain t where t: "find_task db i = Some t"
    by (cases "find_task db i") (simp_all add: get_task_aggregate_def)
  with assms obtain s where s: "find_runtime db i = Some s"
    by (cases "find_runtime db i") (simp_all add: get_task_aggregate_def)
  with assms t obtain rt where rt: "read_runtime_state s = Inr rt"
    and ag: "ag = \<lparr>ag_task = read_task t, ag_runs = runs_of db i, ag_runtime = rt, ag_events = list_events db i 0\<rparr>"
    by (auto simp: get_task_aggregate_def bindR_eq_Inr_conv)
  have "rt = s\<lparr>rt_current_run_id := non_empty (rt_current_run_id s)\<rparr>"
  proof (cases "rt_cursor_input s")
    case None
    with rt show ?thesis by (simp add: read_runtime_state_def)
  next
    case (Some raw)
    with rt obtain ci where "parse_cursor_input raw = Inr ci"
      "rt = s\<lparr>rt_current_run_id := non_empty (rt_current_run_id s), rt_cursor_input := Some ci\<rparr>"
      by (cases "parse_cursor_input raw") (simp_all add: read_runtime_state_def)
    with Some parse_cursor_input_same show ?thesis by (cases s) fastforce
  qed
  with t s ag show ?thesis by simp
qed

lemma aggregate_reads: "get_task_aggregate db i = Inr (Some ag) \<Longrightarrow> reads db ag \<and> tk_task_id (ag_task ag) = i"
  using task_aggregate_Inr[of db i ag] by (auto simp: reads_def dest: find_task_Some)

lemma snapshot_reads: "get_task_snapshot db i = Inr ag \<Longrightarrow> reads db ag \<and> tk_task_id (ag_task ag) = i"
  by (auto simp: get_task_snapshot_def bindR_eq_Inr_conv dest: aggregate_reads split: option.splits)

lemma read_aggregates_reads:
  assumes "read_aggregates db ts = Inr ags" "\<forall>t \<in> set ts. find_task db (tk_task_id t) \<noteq> None"
  shows "list_all (reads db) ags \<and> map (\<lambda>a. tk_task_id (ag_task a)) ags = map tk_task_id ts"
  using assms
proof (induction ts arbitrary: ags)
  case (Cons t ts)
  from Cons.prems(1) obtain a as where a: "get_task_aggregate db (tk_task_id t) = Inr a"
    and as: "read_aggregates db ts = Inr as"
    and ags: "ags = (case a of None \<Rightarrow> as | Some x \<Rightarrow> x # as)"
    by (auto simp: bindR_eq_Inr_conv)
  from Cons.prems(2) a obtain x where "a = Some x"
    by (cases a) (auto simp: get_task_aggregate_def bindR_eq_Inr_conv split: option.splits)
  with a ags Cons.IH[OF as] Cons.prems(2) aggregate_reads show ?case by auto
qed simp

lemma find_task_row:
  assumes "t \<in> set (cd_tasks db)" shows "find_task db (tk_task_id t) \<noteq> None"
  using assms by (auto simp: find_task_def find_None_iff)

lemma list_task_aggregates_reads:
  assumes "list_task_aggregates db = Inr ags"
  shows "list_all (reads db) ags \<and>
    mset (map (\<lambda>a. tk_task_id (ag_task a)) ags) = mset (map tk_task_id (cd_tasks db))"
proof -
  let ?ts = "sort_le (\<lambda>a b. tk_updated_at b < tk_updated_at a \<or>
        tk_updated_at a = tk_updated_at b \<and> code_unit_compare (tk_task_id b) (tk_task_id a) \<le> 0)
      (cd_tasks db)"
  from assms have "read_aggregates db ?ts = Inr ags" by (simp add: list_task_aggregates_def)
  moreover have "\<forall>t \<in> set ?ts. find_task db (tk_task_id t) \<noteq> None"
    by (simp add: find_task_row)
  ultimately have "list_all (reads db) ags" "map (\<lambda>a. tk_task_id (ag_task a)) ags = map tk_task_id ?ts"
    using read_aggregates_reads by blast+
  then show ?thesis by (simp add: mset_map)
qed

lemma require_aggregate_reads:
  assumes "require_aggregate_for_run db run = Inr ag"
  shows "reads db ag \<and> (\<exists>r \<in> set (ag_runs ag). rn_run_id r = run)"
proof -
  from assms obtain ags where ags: "list_task_aggregates db = Inr ags"
    and f: "find (\<lambda>a. list_ex (\<lambda>r. rn_run_id r = run) (ag_runs a)) ags = Some ag"
    by (auto simp: require_aggregate_for_run_def bindR_eq_Inr_conv split: option.splits)
  from f have "ag \<in> set ags" "list_ex (\<lambda>r. rn_run_id r = run) (ag_runs ag)"
    by (auto simp: find_Some_iff)
  with list_task_aggregates_reads[OF ags] show ?thesis by (auto simp: list_all_iff list_ex_iff)
qed

lemma require_run_Inr:
  "require_run ag run = Inr r \<Longrightarrow> r \<in> set (ag_runs ag) \<and> rn_run_id r = run"
  by (auto simp: require_run_def find_Some_iff split: option.splits)

lemma with_run_reads:
  assumes "with_run db run f = Inr x"
  obtains ag r where "reads db ag" "r \<in> set (ag_runs ag)" "rn_run_id r = run" "f ag r = Inr x"
  using assms require_aggregate_reads require_run_Inr unfolding with_run_Inr by blast

lemma reads_tables:
  assumes "reads db ag"
  obtains t s where "find_task db (tk_task_id (ag_task ag)) = Some t" "ag_task ag = read_task t"
    "find_runtime db (tk_task_id (ag_task ag)) = Some s"
    "ag_runtime ag = s\<lparr>rt_current_run_id := non_empty (rt_current_run_id s)\<rparr>"
    "ag_runs ag = runs_of db (tk_task_id (ag_task ag))"
  using task_aggregate_Inr[OF assms[unfolded reads_def]] by blast

section \<open>Runs and the tasks that own them\<close>

definition named_runs :: "coord_db \<Rightarrow> bool" where
  "named_runs db \<longleftrightarrow> (\<forall>r \<in> set (cd_runs db). rn_run_id r \<noteq> [])"

definition current_run :: "coord_db \<Rightarrow> ident \<Rightarrow> ident option" where
  \<comment> \<open>the run a task is running, if it is running\<close>
  "current_run db i =
    (case (find_task db i, find_runtime db i) of
       (Some t, Some s) \<Rightarrow> if tk_status t = TaskRunning then rt_current_run_id s else None
     | _ \<Rightarrow> None)"

definition run_owned :: "coord_db \<Rightarrow> bool" where
  \<comment> \<open>a running task has a current run, and it is active\<close>
  "run_owned db \<longleftrightarrow> (\<forall>t \<in> set (cd_tasks db). tk_status t = TaskRunning \<longrightarrow>
     (\<exists>r \<in> set (cd_runs db). current_run db (tk_task_id t) = Some (rn_run_id r) \<and>
        rn_task_id r = tk_task_id t \<and> is_active_run r))"

definition active_owned :: "coord_db \<Rightarrow> bool" where
  \<comment> \<open>an active run is the current run of a running task\<close>
  "active_owned db \<longleftrightarrow> (\<forall>r \<in> set (cd_runs db). is_active_run r \<longrightarrow>
     current_run db (rn_task_id r) = Some (rn_run_id r))"

definition proc_inv :: "coord_db \<Rightarrow> bool" where
  "proc_inv db \<longleftrightarrow> store_inv db \<and> named_runs db \<and> run_owned db \<and> active_owned db"

definition idle_task :: "coord_db \<Rightarrow> ident \<Rightarrow> bool" where
  "idle_task db i \<longleftrightarrow> (\<forall>r \<in> set (cd_runs db). rn_task_id r = i \<longrightarrow> \<not> is_active_run r)"

definition commit_owned :: "coord_commit \<Rightarrow> coord_db \<Rightarrow> bool" where
  \<comment> \<open>what a commit has to say of run and task for the invariant to hold after it\<close>
  "commit_owned c db =
    (let i = tk_task_id (cc_task c); running = (tk_status (cc_task c) = TaskRunning) in
     case cc_run c of
       Some r \<Rightarrow> rn_run_id r \<noteq> [] \<and>
         (if is_active_run r
          then running \<and> rt_current_run_id (cc_runtime_state c) = Some (rn_run_id r)
          else \<not> running \<and> (\<forall>x \<in> set (cd_runs db). rn_task_id x = i \<and> is_active_run x \<longrightarrow>
                 rn_run_id x = rn_run_id r))
     | None \<Rightarrow>
         (if running then rt_current_run_id (cc_runtime_state c) \<noteq> None \<and>
            rt_current_run_id (cc_runtime_state c) = current_run db i
          else idle_task db i))"

lemma run_task_exists:
  "store_inv db \<Longrightarrow> r \<in> set (cd_runs db) \<Longrightarrow> \<exists>t. find_task db (rn_task_id r) = Some t"
proof -
  assume "store_inv db" "r \<in> set (cd_runs db)"
  then have "rn_task_id r \<in> tk_task_id ` set (cd_tasks db)"
    by (auto simp: store_inv_def keys_ok_def)
  then show ?thesis
    using find_key_None[of tk_task_id "rn_task_id r" "cd_tasks db"] by (auto simp: find_task_def)
qed

lemma current_run_committed:
  assumes "commit_fits c new db"
  shows "current_run (committed c new db) i =
    (if i = tk_task_id (cc_task c)
     then if tk_status (cc_task c) = TaskRunning then rt_current_run_id (cc_runtime_state c) else None
     else current_run db i)"
  using validate_commit_Inr[OF assms[unfolded commit_fits_def, THEN conjunct1]]
  by (auto simp: current_run_def find_task_committed find_runtime_committed split: option.split)

lemma set_runs_committed:
  "set (cd_runs (committed c new db)) =
    (case cc_run c of None \<Rightarrow> set (cd_runs db)
     | Some r \<Rightarrow> insert r {x \<in> set (cd_runs db). rn_run_id x \<noteq> rn_run_id r})"
  by (simp add: set_upsert split: option.split)

declare set_upsert [simp]

lemma runs_of_other_task:
  assumes inv: "store_inv db" and fits: "commit_fits c new db"
    and x: "x \<in> set (cd_runs db)" "rn_task_id x \<noteq> tk_task_id (cc_task c)"
  shows "x \<in> set (cd_runs (committed c new db))"
proof (cases "cc_run c")
  case (Some r)
  have "rn_task_id r = tk_task_id (cc_task c)" "run_fits r db"
    using fits validate_commit_Inr Some by (auto simp: commit_fits_def)
  then have "rn_run_id x \<noteq> rn_run_id r"
    using x inv find_unique_key[of rn_run_id "cd_runs db" x]
    by (auto simp: run_fits_def find_run_def store_inv_def keys_ok_def split: option.splits)
  with x Some show ?thesis by (simp add: set_upsert)
qed (use x in simp)

lemma active_owned_committed:
  assumes inv: "proc_inv db" and fits: "commit_fits c new db" and own: "commit_owned c db"
  shows "active_owned (committed c new db)"
  unfolding active_owned_def
proof (intro ballI impI)
  fix x
  assume x: "x \<in> set (cd_runs (committed c new db))" and act: "is_active_run x"
  let ?i = "tk_task_id (cc_task c)"
  have old: "current_run db (rn_task_id x) = Some (rn_run_id x)" if "x \<in> set (cd_runs db)"
    using inv act that by (simp add: proc_inv_def active_owned_def)
  show "current_run (committed c new db) (rn_task_id x) = Some (rn_run_id x)"
  proof (cases "rn_task_id x = ?i")
    case False
    then have "x \<in> set (cd_runs db)"
      using x fits validate_commit_Inr by (auto simp: set_runs_committed commit_fits_def split: option.splits)
    with old False fits show ?thesis by (simp add: current_run_committed)
  next
    case True
    show ?thesis
    proof (cases "cc_run c")
      case None
      with x True act own old show ?thesis
        by (auto simp: set_runs_committed commit_owned_def idle_task_def Let_def
            current_run_committed[OF fits] split: if_splits)
    next
      case (Some r)
      show ?thesis
      proof (cases "x = r")
        case True
        with Some act own \<open>rn_task_id x = ?i\<close> show ?thesis
          by (simp add: commit_owned_def current_run_committed[OF fits] Let_def)
      next
        case False
        with x Some have mem: "x \<in> set (cd_runs db)" and ne: "rn_run_id x \<noteq> rn_run_id r"
          by (auto simp: set_runs_committed)
        show ?thesis
        proof (cases "is_active_run r")
          case True
          then have "other_active_run r db = None" using fits Some
            by (simp add: commit_fits_def run_fits_def)
          moreover have "rn_task_id r = ?i"
            using fits validate_commit_Inr Some by (auto simp: commit_fits_def)
          ultimately show ?thesis
            using mem ne act \<open>rn_task_id x = ?i\<close> by (auto simp: other_active_run_def find_None_iff)
        next
          case False
          with own Some mem ne act \<open>rn_task_id x = ?i\<close> show ?thesis
            by (simp add: commit_owned_def Let_def)
        qed
      qed
    qed
  qed
qed

lemma run_owned_committed:
  assumes inv: "proc_inv db" and fits: "commit_fits c new db" and own: "commit_owned c db"
  shows "run_owned (committed c new db)"
  unfolding run_owned_def
proof (intro ballI impI)
  fix t
  assume t: "t \<in> set (cd_tasks (committed c new db))" and running: "tk_status t = TaskRunning"
  let ?i = "tk_task_id (cc_task c)"
  have old: "\<exists>r \<in> set (cd_runs db). current_run db (tk_task_id u) = Some (rn_run_id r) \<and>
        rn_task_id r = tk_task_id u \<and> is_active_run r"
    if "u \<in> set (cd_tasks db)" "tk_status u = TaskRunning" for u
    using inv that by (simp add: proc_inv_def run_owned_def)
  show "\<exists>r \<in> set (cd_runs (committed c new db)).
      current_run (committed c new db) (tk_task_id t) = Some (rn_run_id r) \<and>
      rn_task_id r = tk_task_id t \<and> is_active_run r"
  proof (cases "t = cc_task c")
    case False
    with t have mem: "t \<in> set (cd_tasks db)" and ne: "tk_task_id t \<noteq> ?i" by (auto simp: set_upsert)
    from old[OF mem running] obtain r where r: "r \<in> set (cd_runs db)"
      "current_run db (tk_task_id t) = Some (rn_run_id r)" "rn_task_id r = tk_task_id t" "is_active_run r"
      by blast
    with runs_of_other_task[OF _ fits r(1)] inv ne show ?thesis
      by (auto simp: proc_inv_def current_run_committed[OF fits] intro!: bexI[of _ r])
  next
    case True
    show ?thesis
    proof (cases "cc_run c")
      case (Some r)
      have "rn_task_id r = ?i"
        using fits validate_commit_Inr Some by (auto simp: commit_fits_def)
      with own Some True running show ?thesis
        by (auto simp: commit_owned_def Let_def current_run_committed[OF fits] set_runs_committed
            split: if_splits)
    next
      case None
      from own None running True have cur: "current_run db ?i \<noteq> None"
        "rt_current_run_id (cc_runtime_state c) = current_run db ?i"
        by (simp_all only: commit_owned_def Let_def option.case simp_thms if_True) metis+
      then obtain u where u: "u \<in> set (cd_tasks db)" "tk_task_id u = ?i" "tk_status u = TaskRunning"
        by (auto simp: current_run_def split: option.splits if_splits dest!: find_task_Some)
      from old[OF u(1,3)] u cur None running True show ?thesis
        by (auto simp: current_run_committed[OF fits])
    qed
  qed
qed

lemma proc_inv_commit:
  assumes inv: "proc_inv db" and run: "commit_state c db = Inr (new, db')" and own: "commit_owned c db"
  shows "proc_inv db'"
proof -
  have db': "db' = committed c new db" and fits: "commit_fits c new db"
    using commit_state_Inr[OF run] by simp_all
  have "named_runs db'"
    using inv own unfolding db' named_runs_def proc_inv_def set_runs_committed
    by (auto simp: commit_owned_def Let_def split: option.splits)
  then show ?thesis
    using inv active_owned_committed[OF inv fits own] run_owned_committed[OF inv fits own]
      store_inv_commit[OF _ run] by (simp add: proc_inv_def db')
qed

section \<open>Operations on the active run of an aggregate\<close>

lemma active_run_of:
  assumes inv: "proc_inv db" and ag: "reads db ag" and r: "r \<in> set (ag_runs ag)" and act: "is_active_run r"
  shows "tk_status (ag_task ag) = TaskRunning \<and>
    rt_current_run_id (ag_runtime ag) = Some (rn_run_id r) \<and> rn_run_id r \<noteq> [] \<and>
    (\<forall>x \<in> set (cd_runs db). rn_task_id x = tk_task_id (ag_task ag) \<and> is_active_run x \<longrightarrow>
       rn_run_id x = rn_run_id r)"
proof -
  let ?i = "tk_task_id (ag_task ag)"
  obtain t s where ts: "find_task db ?i = Some t" "ag_task ag = read_task t" "find_runtime db ?i = Some s"
    "ag_runtime ag = s\<lparr>rt_current_run_id := non_empty (rt_current_run_id s)\<rparr>" "ag_runs ag = runs_of db ?i"
    using reads_tables[OF ag] .
  from r ts(5) obtain x where x: "x \<in> set (cd_runs db)" "rn_task_id x = ?i" "r = read_run x"
    by (auto simp: runs_of_mem)
  have cur: "current_run db ?i = Some (rn_run_id y)"
    if "y \<in> set (cd_runs db)" "rn_task_id y = ?i" "is_active_run y" for y
    using inv that by (auto simp: proc_inv_def active_owned_def)
  from cur[OF x(1,2)] x act have cx: "current_run db ?i = Some (rn_run_id r)" by simp
  have "rn_run_id r \<noteq> []" using inv x by (auto simp: proc_inv_def named_runs_def)
  with cx ts show ?thesis
    using cur by (auto simp: current_run_def non_empty_def split: if_splits)
qed

lemma idle_task_of:
  assumes "reads db ag" "find is_active_run (ag_runs ag) = None"
  shows "idle_task db (tk_task_id (ag_task ag))"
proof -
  obtain t s where runs: "ag_runs ag = runs_of db (tk_task_id (ag_task ag))"
    using reads_tables[OF assms(1)] .
  have "\<not> is_active_run x" if x: "x \<in> set (cd_runs db)" "rn_task_id x = tk_task_id (ag_task ag)" for x
  proof -
    have "read_run x \<in> set (ag_runs ag)" using x unfolding runs runs_of_mem by blast
    then show ?thesis using assms(2) by (auto simp: find_None_iff)
  qed
  then show ?thesis by (simp add: idle_task_def)
qed

lemma task_commit_simps [simp]:
  "cc_task (task_commit ag t r s cp es) = t" "cc_run (task_commit ag t r s cp es) = r"
  "cc_runtime_state (task_commit ag t r s cp es) = s" "cc_events (task_commit ag t r s cp es) = es"
  "cc_checkpoint (task_commit ag t r s cp es) = cp"
  "cc_expected_task_revision (task_commit ag t r s cp es) = Some (tk_revision (ag_task ag))"
  by (simp_all add: task_commit_def)

definition continues :: "task_aggregate \<Rightarrow> run_state \<Rightarrow> task_state \<Rightarrow> run_state \<Rightarrow> runtime_state \<Rightarrow> bool" where
  \<comment> \<open>the next state of a task and its active run\<close>
  "continues ag r task run rt \<longleftrightarrow>
     tk_task_id task = tk_task_id (ag_task ag) \<and> rn_run_id run = rn_run_id r \<and>
     (if is_active_run run
      then tk_status task = tk_status (ag_task ag) \<and> rt_current_run_id rt \<in>
        {rt_current_run_id (ag_runtime ag), Some (rn_run_id r)}
      else tk_status task \<noteq> TaskRunning)"

lemma task_commit_keeps:
  assumes inv: "proc_inv db" and ag: "reads db ag" and r: "r \<in> set (ag_runs ag)" "is_active_run r"
    and run: "commit_state (task_commit ag task (Some run) rt cp evs) db = Inr (new, db')"
    and nxt: "continues ag r task run rt"
  shows "proc_inv db'"
proof (rule proc_inv_commit[OF inv run])
  note a = active_run_of[OF inv ag r]
  show "commit_owned (task_commit ag task (Some run) rt cp evs) db"
    using a nxt by (auto simp: commit_owned_def continues_def Let_def split: if_splits)
qed

lemma active_status_simps [simp]:
  "is_active_status RunCreated" "is_active_status RunRunning" "\<not> is_active_status RunInterrupted"
  "\<not> is_active_status RunCompleted" "\<not> is_active_status RunFailed" "\<not> is_active_status RunCancelled"
  by (simp_all add: is_active_status_def)

lemma ownership_Inr [simp]:
  "assert_active_run_ownership ag r = Inr u \<longleftrightarrow> is_active_run r \<and>
     tk_status (ag_task ag) = TaskRunning \<and> rt_current_run_id (ag_runtime ag) = Some (rn_run_id r)"
  by (simp add: assert_active_run_ownership_def)

lemma stage_target_Inr:
  "assert_active_stage_target ag r c = Inr u \<longleftrightarrow> is_active_run r \<and>
     tk_status (ag_task ag) = TaskRunning \<and> rt_current_run_id (ag_runtime ag) = Some (rn_run_id r) \<and>
     rt_resume_cursor (ag_runtime ag) = c \<and> map_option cursor_of (rt_cursor_input (ag_runtime ag)) = Some c"
  by (auto simp: assert_active_stage_target_def bindR_eq_Inr_conv)

lemma begin_run_keeps:
  assumes inv: "proc_inv db" and name: "bi_run_id inp \<noteq> []"
    and run: "begin_run env inp db = Inr (new, db')"
  shows "proc_inv db'"
proof -
  obtain existing ci intent where c: "commit_state (begin_commit env inp existing ci intent) db = Inr (new, db')"
    and e: "get_task_aggregate db (bi_task_id inp) = Inr existing"
    using run by (auto simp: begin_run_def bindR_eq_Inr_conv Let_def split: option.splits)
  show ?thesis
  proof (rule proc_inv_commit[OF inv c])
    show "commit_owned (begin_commit env inp existing ci intent) db"
      using name by (auto simp: commit_owned_def begin_commit_def begin_run_record_def begin_task_def
          begin_runtime_state_def Let_def split: option.split)
  qed
qed

lemma start_stage_keeps:
  assumes inv: "proc_inv db" and run: "start_stage env inp db = Inr (new, db')"
  shows "proc_inv db'"
  using run unfolding start_stage_def
  by (auto elim!: with_run_reads simp: bindR_eq_Inr_conv stage_target_Inr Let_def continues_def
      split: if_splits intro: task_commit_keeps[OF inv])

lemma fail_stage_keeps:
  assumes inv: "proc_inv db" and run: "fail_stage env inp db = Inr (new, db')"
  shows "proc_inv db'"
  using run unfolding fail_stage_def
  by (auto elim!: with_run_reads simp: bindR_eq_Inr_conv stage_target_Inr Let_def continues_def
      split: if_splits option.split intro: task_commit_keeps[OF inv])

lemma mailbox_wait_keeps:
  assumes inv: "proc_inv db" and run: "complete_run_for_mailbox_wait env rid db = Inr (new, db')"
  shows "proc_inv db'"
  using run unfolding complete_run_for_mailbox_wait_def
  by (auto elim!: with_run_reads simp: bindR_eq_Inr_conv Let_def continues_def
      split: if_splits option.splits cursor_input.splits)
    (erule (3) task_commit_keeps[OF inv], simp_all add: continues_def)

lemma council_override_keeps:
  assumes inv: "proc_inv db" and run: "set_council_override env rid db = Inr (new, db')"
  shows "proc_inv db'"
  using run inv unfolding set_council_override_def
  by (auto elim!: with_run_reads simp: bindR_eq_Inr_conv Let_def split: if_splits)
    (erule (4) task_commit_keeps, simp add: continues_def)+

lemma record_event_keeps:
  assumes inv: "proc_inv db" and run: "record_run_event rid event db = Inr (new, db')"
  shows "proc_inv db'"
proof -
  obtain ag where a: "require_aggregate_for_run db rid = Inr ag"
    using run by (auto simp: record_run_event_def bindR_eq_Inr_conv)
  note ag = require_aggregate_reads[OF a, THEN conjunct1]
  show ?thesis
  proof (cases "list_ex (\<lambda>x. ce_event_id (snd x) = ce_event_id event) (ag_events ag)")
    case True
    with run a inv show ?thesis by (simp add: record_run_event_def)
  next
    case False
    with run a obtain r active where r: "require_run ag rid = Inr r" "is_active_run r"
      and act: "read_active_stage (rt_diagnostics (ag_runtime ag)) = Inr active"
      by (auto simp: record_run_event_def bindR_eq_Inr_conv Let_def split: if_splits)
    note mem = require_run_Inr[OF r(1), THEN conjunct1]
    from r act run a False show ?thesis
      by (simp add: record_run_event_def Let_def split: if_splits)
        (erule task_commit_keeps[OF inv ag mem r(2)], simp add: continues_def split: option.split)+
  qed
qed

lemma finish_run_keeps:
  assumes inv: "proc_inv db" and fin: "fr_status inp \<in> {RunCompleted, RunFailed, RunCancelled}"
    and run: "finish_run env inp db = Inr (new, db')"
  shows "proc_inv db'"
proof -
  have fin': "\<not> is_active_status (fr_status inp)" "task_status_of_run (fr_status inp) \<noteq> TaskRunning"
    using fin by (auto simp: task_status_of_run_def)
  from run obtain ag r where body: "require_aggregate_for_run db (fr_run_id inp) = Inr ag"
      "require_run ag (fr_run_id inp) = Inr r"
    unfolding finish_run_def with_run_Inr by blast
  have ag: "reads db ag" "r \<in> set (ag_runs ag)"
    using require_aggregate_reads[OF body(1)] require_run_Inr[OF body(2)] by simp_all
  show ?thesis
  proof (cases "is_active_run r")
    case False
    with run body inv show ?thesis
      by (simp add: finish_run_def with_run_def split: if_splits)
  next
    case True
    with run body have "\<exists>task run rt evs.
        commit_state (task_commit ag task (Some run) rt None evs) db = Inr (new, db') \<and>
        continues ag r task run rt"
      by (simp add: finish_run_def with_run_def bindR_eq_Inr_conv Let_def)
        (intro exI conjI, rule conjunct2, assumption, simp add: continues_def fin' split: option.split)
    with task_commit_keeps[OF inv ag True] show ?thesis by blast
  qed
qed

lemma commit_interrupted_Inr:
  assumes "commit_interrupted_run env ag r trigger why inherit db = Inr (new, db')"
  shows "\<exists>task run rt cp evs. commit_state (task_commit ag task (Some run) rt (Some cp) evs) db = Inr (new, db') \<and>
    task = tick_task (pe_now env) ((ag_task ag)\<lparr>tk_status := TaskBlocked\<rparr>) \<and>
    run = tick_run (pe_now env) (r\<lparr>rn_status := RunInterrupted, rn_completed_at := Some (pe_now env)\<rparr>) \<and>
    rt_current_run_id rt = None \<and> rt_resume_cursor rt = rt_resume_cursor (ag_runtime ag) \<and>
    rt_cursor_input rt = first_some [cp_cursor_input cp, rt_cursor_input (ag_runtime ag)]"
  using assms unfolding commit_interrupted_run_def
  by (auto simp: bindR_eq_Inr_conv Let_def split: option.splits)
    (intro exI conjI, assumption, simp_all)

lemma interrupted_keeps:
  assumes inv: "proc_inv db" and ag: "reads db ag" "r \<in> set (ag_runs ag)" "is_active_run r"
    and run: "commit_interrupted_run env ag r trigger why inherit db = Inr (new, db')"
  shows "proc_inv db'"
proof -
  from commit_interrupted_Inr[OF run] obtain task run rt cp evs
    where c: "commit_state (task_commit ag task (Some run) rt (Some cp) evs) db = Inr (new, db')"
      and eq: "task = tick_task (pe_now env) ((ag_task ag)\<lparr>tk_status := TaskBlocked\<rparr>)"
        "run = tick_run (pe_now env) (r\<lparr>rn_status := RunInterrupted, rn_completed_at := Some (pe_now env)\<rparr>)"
    by blast
  show ?thesis by (rule task_commit_keeps[OF inv ag c]) (simp add: eq continues_def)
qed

lemma interrupt_run_keeps:
  assumes inv: "proc_inv db" and run: "interrupt_run env rid reason sh db = Inr (new, db')"
  shows "proc_inv db'"
  using run inv unfolding interrupt_run_def
  by (auto elim!: with_run_reads split: if_splits) (erule (4) interrupted_keeps)+

lemma first_some_simps [simp]:
  "first_some [] = None" "first_some (Some x # xs) = Some x" "first_some (None # xs) = first_some xs"
  by (simp_all add: first_some_def List.map_filter_simps)

lemma safepoint_cursor:
  assumes "build_safepoint_checkpoint capture registry mb inp ag = Some cp"
  shows "cp_cursor_input cp = first_some [matching_cursor_input (ag_runtime ag),
      synthesize_cursor_input (rt_resume_cursor (ag_runtime ag)) ag (sp_run_id inp)] \<and>
    cp_resume_cursor cp = rt_resume_cursor (ag_runtime ag) \<and> cp_task_id cp = tk_task_id (ag_task ag) \<and>
    cp_run_id cp = sp_run_id inp \<and> cp_created_at cp = sp_now inp \<and> cp_checkpoint_id cp = sp_checkpoint_id inp \<and>
    cp_validity_status cp = CpValid"
  using assms by (auto simp: build_safepoint_checkpoint_def Let_def split: option.splits prod.splits)

lemma persist_safepoint_commit:
  "persist_safepoint env k ag run trigger db = (None, db) \<or>
   (\<exists>r rt cp evs.
      persist_safepoint env k ag run trigger db =
        (case commit_state (task_commit ag (tick_task (pe_now env) (ag_task ag))
                (Some (tick_run (pe_now env) r)) rt (Some cp) evs) db of
           Inl _ \<Rightarrow> (None, db) | Inr (_, db') \<Rightarrow> (Some cp, db')) \<and>
      r \<in> set (ag_runs ag) \<and> rn_run_id r = run \<and>
      rt_current_run_id rt = rt_current_run_id (ag_runtime ag) \<and>
      rt_task_id rt = rt_task_id (ag_runtime ag) \<and>
      rt_resume_cursor rt = rt_resume_cursor (ag_runtime ag) \<and>
      dg_active_stage (rt_diagnostics rt) = dg_active_stage (rt_diagnostics (ag_runtime ag)) \<and>
      (\<forall>ci. matching_cursor_input (ag_runtime ag) = Some ci \<longrightarrow> rt_cursor_input rt = Some ci))"
  (is "?none \<or> ?commit")
proof (cases "find (\<lambda>r. rn_run_id r = run) (ag_runs ag)")
  case None
  then show ?thesis by (simp add: persist_safepoint_def Let_def split: option.split)
next
  case (Some r)
  then have mem: "r \<in> set (ag_runs ag) \<and> rn_run_id r = run" by (auto simp: find_Some_iff)
  let ?cp = "build_safepoint_checkpoint (pe_capture env) (registry_of env db (tk_task_id (ag_task ag))) (cd_mailbox db)
             \<lparr>sp_run_id = run, sp_trigger = trigger,
              sp_parent_checkpoint_id = map_option cp_checkpoint_id (get_latest_checkpoint db (tk_task_id (ag_task ag))),
              sp_interrupt_state = None, sp_inherited = None, sp_now = pe_now env,
              sp_checkpoint_id = pe_checkpoint_id env\<rparr> ag"
  show ?thesis
  proof (cases ?cp)
    case None
    then show ?thesis by (simp add: persist_safepoint_def Let_def)
  next
    case (Some cp)
    note eq = persist_safepoint_def[of env k ag run trigger db, unfolded Let_def Some \<open>find _ _ = _\<close> prod.case option.case]
    have same: "cp_cursor_input cp = Some ci" if "matching_cursor_input (ag_runtime ag) = Some ci" for ci
      using safepoint_cursor[OF Some] that by simp
    have ?commit by (intro exI conjI, rule eq) (simp_all add: mem same)
    then show ?thesis ..
  qed
qed

lemma persist_safepoint_keeps:
  assumes inv: "proc_inv db" and ag: "reads db ag"
    and act: "\<And>r. r \<in> set (ag_runs ag) \<Longrightarrow> rn_run_id r = run \<Longrightarrow> is_active_run r"
  shows "proc_inv (snd (persist_safepoint env k ag run trigger db))"
proof (cases "persist_safepoint env k ag run trigger db = (None, db)")
  case False
  then obtain r rt cp evs where r: "r \<in> set (ag_runs ag)" "rn_run_id r = run"
    and cur: "rt_current_run_id rt = rt_current_run_id (ag_runtime ag)"
    and eq: "persist_safepoint env k ag run trigger db =
        (case commit_state (task_commit ag (tick_task (pe_now env) (ag_task ag))
                (Some (tick_run (pe_now env) r)) rt (Some cp) evs) db of
           Inl _ \<Rightarrow> (None, db) | Inr (_, db') \<Rightarrow> (Some cp, db'))"
    using persist_safepoint_commit[of env k ag run trigger db] by blast
  show ?thesis
  proof (cases "commit_state (task_commit ag (tick_task (pe_now env) (ag_task ag))
                (Some (tick_run (pe_now env) r)) rt (Some cp) evs) db")
    case (Inr x)
    then obtain new db' where c: "commit_state (task_commit ag (tick_task (pe_now env) (ag_task ag))
                (Some (tick_run (pe_now env) r)) rt (Some cp) evs) db = Inr (new, db')" by (cases x) simp
    have "proc_inv db'"
      using act[OF r] by (intro task_commit_keeps[OF inv ag r(1) act[OF r] c]) (simp add: continues_def cur)
    with c eq show ?thesis by simp
  qed (use inv eq in simp)
qed (use inv in simp)

lemma advance_once_Inr:
  assumes "advance_stage_once env inp db = Inr (new, db')"
  shows "\<exists>ag r nxt now evs db1.
    require_aggregate_for_run db (sg_run_id inp) = Inr ag \<and> require_run ag (sg_run_id inp) = Inr r \<and>
    advance_checks ag r inp = Inr nxt \<and>
    commit_state (task_commit ag (advance_task ag inp nxt now) (Some (advance_run r inp nxt now))
      (advance_runtime ag inp nxt now) None evs) db = Inr (new, db1) \<and>
    (db' = db1 \<or> cursor_of nxt \<noteq> CursorDone \<and>
      (\<exists>ag' trigger. reads db1 ag' \<and> tk_task_id (ag_task ag') = tk_task_id (ag_task ag) \<and>
         db' = snd (persist_safepoint env 2 ag' (sg_run_id inp) trigger db1)))"
proof -
  let ?now = "case sg_event inp of Some e \<Rightarrow> ce_created_at e | None \<Rightarrow> pe_now env"
  from assms obtain ag r nxt where ag: "require_aggregate_for_run db (sg_run_id inp) = Inr ag"
      "require_run ag (sg_run_id inp) = Inr r" "advance_checks ag r inp = Inr nxt"
    by (auto simp: advance_stage_once_def with_run_Inr bindR_eq_Inr_conv)
  obtain event terminal where ev: "advance_events env ag inp nxt = (event, terminal)"
    by (cases "advance_events env ag inp nxt")
  let ?c = "task_commit ag (advance_task ag inp nxt ?now) (Some (advance_run r inp nxt ?now))
      (advance_runtime ag inp nxt ?now) None (event # terminal)"
  from assms obtain db1 where c: "commit_state ?c db = Inr (new, db1)"
    by (cases "commit_state ?c db")
      (auto simp: advance_stage_once_def with_run_def ag ev bindR_eq_Inr_conv Let_def split: if_splits option.splits)
  have "db' = db1 \<or> cursor_of nxt \<noteq> CursorDone \<and>
      (\<exists>ag' trigger. reads db1 ag' \<and> tk_task_id (ag_task ag') = tk_task_id (ag_task ag) \<and>
         db' = snd (persist_safepoint env 2 ag' (sg_run_id inp) trigger db1))"
  proof (cases "cursor_of nxt = CursorDone")
    case True
    with assms c show ?thesis
      by (auto simp: advance_stage_once_def with_run_def ag ev bindR_eq_Inr_conv Let_def split: if_splits)
  next
    case False
    with assms c obtain x where x: "get_task_aggregate db1 (tk_task_id (ag_task ag)) = Inr x"
      "db' = (case x of None \<Rightarrow> db1 | Some ag' \<Rightarrow> snd (persist_safepoint env 2 ag' (sg_run_id inp)
                      (if cursor_of nxt = MailboxWait then TrBlocked else TrPeriodic) db1))"
      by (auto simp: advance_stage_once_def with_run_def ag ev bindR_eq_Inr_conv Let_def
          split: if_splits option.splits)
    show ?thesis
    proof (cases x)
      case (Some ag')
      with x aggregate_reads[of db1 "tk_task_id (ag_task ag)" ag'] False show ?thesis by auto
    qed (use x in simp)
  qed
  with ag c show ?thesis by blast
qed

lemma advance_stage_is_once: "advance_stage env inp db = advance_stage_once env inp db"
proof -
  have "advance_attempts n env inp db = advance_stage_once env inp db" for n
    by (induction n) (auto split: sum.split)
  then show ?thesis by (simp add: advance_stage_def)
qed

lemma advance_checks_Inr:
  assumes "advance_checks ag r inp = Inr nxt"
  shows "assert_active_stage_target ag r (sg_expected_cursor inp) = Inr () \<and>
    assert_invocation ag (sg_expected_cursor inp) (sg_invocation_id inp) = Inr () \<and>
    cursor_input_ok nxt \<and> cursor_of nxt \<in> set (cursor_transitions (sg_expected_cursor inp)) \<and>
    assert_changeset_identity (rt_cursor_input (ag_runtime ag)) nxt (ai_final_output inp) = Inr () \<and>
    (cursor_of nxt = CursorDone \<longrightarrow> (\<exists>fo. ai_final_output inp = Some fo \<and> final_output_ok fo)) \<and>
    resolve_stage_next_input ag inp = Inr nxt"
proof -
  from assms obtain raw where "assert_active_stage_target ag r (sg_expected_cursor inp) = Inr ()"
    "assert_invocation ag (sg_expected_cursor inp) (sg_invocation_id inp) = Inr ()"
    "resolve_stage_next_input ag inp = Inr raw" and p: "parse_cursor_input raw = Inr nxt"
    "assert_cursor_transition (sg_expected_cursor inp) (cursor_of nxt) = Inr ()"
    "assert_changeset_identity (rt_cursor_input (ag_runtime ag)) nxt (ai_final_output inp) = Inr ()"
    "cursor_of nxt = CursorDone \<longrightarrow> (\<exists>fo. ai_final_output inp = Some fo \<and> final_output_ok fo)"
    by (auto simp: advance_checks_def bindR_eq_Inr_conv assert_final_output_evidence_def
        split: if_splits option.splits)
  moreover from p have "raw = nxt" using parse_cursor_input_same by blast
  ultimately show ?thesis
    by (auto simp: assert_cursor_transition_def parse_ok)
qed

lemma advance_task_simps [simp]:
  "tk_task_id (advance_task ag inp nxt now) = tk_task_id (ag_task ag)"
  "tk_status (advance_task ag inp nxt now) =
    (if cursor_of nxt = CursorDone then TaskCompleted else tk_status (ag_task ag))"
  by (simp_all add: advance_task_def Let_def split: option.split cursor_input.split)

lemma advance_run_simps [simp]:
  "rn_run_id (advance_run r inp nxt now) = rn_run_id r"
  "rn_status (advance_run r inp nxt now) = (if cursor_of nxt = CursorDone then RunCompleted else rn_status r)"
  by (simp_all add: advance_run_def Let_def split: option.split)

lemma reads_run_row:
  assumes "reads db ag" "r \<in> set (ag_runs ag)"
  obtains x where "x \<in> set (cd_runs db)" "rn_task_id x = tk_task_id (ag_task ag)" "r = read_run x"
  using assms by (auto elim!: reads_tables simp: runs_of_mem)

lemma advance_stage_keeps:
  assumes inv: "proc_inv db" and run: "advance_stage env inp db = Inr (new, db')"
  shows "proc_inv db'"
proof -
  from advance_once_Inr[OF run[unfolded advance_stage_is_once]] obtain ag r nxt now evs db1
    where req: "require_aggregate_for_run db (sg_run_id inp) = Inr ag" "require_run ag (sg_run_id inp) = Inr r"
      and checks: "advance_checks ag r inp = Inr nxt"
      and c: "commit_state (task_commit ag (advance_task ag inp nxt now) (Some (advance_run r inp nxt now))
          (advance_runtime ag inp nxt now) None evs) db = Inr (new, db1)"
      and rest: "db' = db1 \<or> cursor_of nxt \<noteq> CursorDone \<and>
        (\<exists>ag' trigger. reads db1 ag' \<and> tk_task_id (ag_task ag') = tk_task_id (ag_task ag) \<and>
           db' = snd (persist_safepoint env 2 ag' (sg_run_id inp) trigger db1))" by blast
  have ag: "reads db ag" "r \<in> set (ag_runs ag)" and rid: "rn_run_id r = sg_run_id inp"
    using require_aggregate_reads[OF req(1)] require_run_Inr[OF req(2)] by simp_all
  have act: "is_active_run r"
    using advance_checks_Inr[OF checks] by (simp add: stage_target_Inr)
  have "continues ag r (advance_task ag inp nxt now) (advance_run r inp nxt now) (advance_runtime ag inp nxt now)"
    using rid act by (simp add: continues_def advance_runtime_def Let_def)
  from task_commit_keeps[OF inv ag act c this] have inv1: "proc_inv db1" .
  from rest show ?thesis
  proof (elim disjE conjE exE)
    fix ag' trigger
    assume nd: "cursor_of nxt \<noteq> CursorDone" and ag': "reads db1 ag'"
      and db': "db' = snd (persist_safepoint env 2 ag' (sg_run_id inp) trigger db1)"
    have "is_active_run y" if y: "y \<in> set (ag_runs ag')" "rn_run_id y = sg_run_id inp" for y
    proof -
      obtain x where "x \<in> set (cd_runs db1)" "y = read_run x" using reads_run_row[OF ag' y(1)] .
      with y rid commit_state_Inr[OF c] act nd show ?thesis by auto
    qed
    then show ?thesis unfolding db' by (rule persist_safepoint_keeps[OF inv1 ag'])
  qed (use inv1 in simp)
qed

section \<open>Operations on several tasks\<close>

lemma idle_commit_keeps:
  assumes inv: "proc_inv db" and idle: "idle_task db (tk_task_id (ag_task ag))"
    and run: "commit_state (task_commit ag task None rt cp evs) db = Inr (new, db')"
    and nxt: "tk_task_id task = tk_task_id (ag_task ag)" "tk_status task \<noteq> TaskRunning"
  shows "proc_inv db'"
  by (rule proc_inv_commit[OF inv run]) (use idle nxt in \<open>simp add: commit_owned_def Let_def\<close>)

lemma block_deadlock_keeps:
  assumes inv: "proc_inv db" and idle: "idle_task db i"
    and run: "block_mailbox_deadlock env i reason db = Inr (new, db')"
  shows "proc_inv db'"
proof -
  obtain ag where ag: "get_task_snapshot db i = Inr ag"
    using run by (auto simp: block_mailbox_deadlock_def bindR_eq_Inr_conv)
  then have i: "tk_task_id (ag_task ag) = i" using snapshot_reads by blast
  show ?thesis
    using run inv idle ag i
    by (auto simp: block_mailbox_deadlock_def bindR_eq_Inr_conv Let_def split: if_splits option.splits)
      (erule (2) idle_commit_keeps, simp_all)+
qed

lemma expire_wait_keeps:
  assumes inv: "proc_inv db" and idle: "idle_task db i"
    and run: "expire_mailbox_wait env i reason db = Inr (new, db')"
  shows "proc_inv db'"
proof -
  obtain ag where ag: "get_task_snapshot db i = Inr ag"
    using run by (auto simp: expire_mailbox_wait_def bindR_eq_Inr_conv)
  then have i: "tk_task_id (ag_task ag) = i" using snapshot_reads by blast
  show ?thesis
    using run inv idle ag i
    by (auto simp: expire_mailbox_wait_def bindR_eq_Inr_conv Let_def split: if_splits option.splits)
      (erule (2) idle_commit_keeps, simp_all)+
qed

lemma restore_keeps:
  assumes inv: "proc_inv db" and run: "record_workspace_restore env i cpid rid outcome db = Inr db'"
  shows "proc_inv db'"
proof -
  obtain x where x: "get_task_aggregate db i = Inr x"
    using run by (auto simp: record_workspace_restore_def bindR_eq_Inr_conv)
  show ?thesis
  proof (cases x)
    case None
    with run x inv show ?thesis by (simp add: record_workspace_restore_def lift_coord_def)
  next
    case (Some ag)
    have ag: "reads db ag" using x Some aggregate_reads by simp
    let ?c = "task_commit ag (tick_task (pe_now env) (ag_task ag)) None
               ((ag_runtime ag)\<lparr>rt_updated_at := pe_now env\<rparr>) None
               [create_event env 0 ''checkpoint.workspace_restored'' cpid i rid
                  ((''checkpoint_id'', JStr cpid) # outcome)]"
    show ?thesis
    proof (cases "commit_state ?c db")
      case (Inl e)
      with run x Some inv show ?thesis by (simp add: record_workspace_restore_def lift_coord_def)
    next
      case (Inr y)
      then obtain new where c: "commit_state ?c db = Inr (new, db')"
        using run x Some by (cases y) (simp add: record_workspace_restore_def lift_coord_def)
      have "commit_owned ?c db"
      proof (cases "tk_status (ag_task ag) = TaskRunning")
        case False
        have "idle_task db (tk_task_id (ag_task ag))"
        proof (rule ccontr)
          assume "\<not> idle_task db (tk_task_id (ag_task ag))"
          then obtain y where "y \<in> set (cd_runs db)" "rn_task_id y = tk_task_id (ag_task ag)" "is_active_run y"
            by (auto simp: idle_task_def)
          moreover from this have "read_run y \<in> set (ag_runs ag)"
            using ag by (auto elim!: reads_tables simp: runs_of_mem)
          ultimately show False using active_run_of[OF inv ag, of "read_run y"] False by simp
        qed
        with False show ?thesis by (simp add: commit_owned_def Let_def)
      next
        case True
        obtain t s where ts: "find_task db (tk_task_id (ag_task ag)) = Some t" "ag_task ag = read_task t"
          "find_runtime db (tk_task_id (ag_task ag)) = Some s"
          "ag_runtime ag = s\<lparr>rt_current_run_id := non_empty (rt_current_run_id s)\<rparr>" using reads_tables[OF ag] .
        have "t \<in> set (cd_tasks db)" "tk_status t = TaskRunning" "tk_task_id t = tk_task_id (ag_task ag)"
          using ts True by (auto dest: find_task_Some)
        then obtain r where "r \<in> set (cd_runs db)" "current_run db (tk_task_id (ag_task ag)) = Some (rn_run_id r)"
          using inv unfolding proc_inv_def run_owned_def by metis
        moreover from this have "rn_run_id r \<noteq> []" using inv by (simp add: proc_inv_def named_runs_def)
        ultimately show ?thesis using ts True
          by (auto simp: commit_owned_def Let_def current_run_def non_empty_def)
      qed
      from proc_inv_commit[OF inv c this] show ?thesis .
    qed
  qed
qed

lemma find_filter_key:
  "find (\<lambda>x. key x = k) (filter (\<lambda>x. key x \<noteq> i) xs) = (if k = i then None else find (\<lambda>x. key x = k) xs)"
  by (induction xs) auto

lemma delete_task_keeps:
  assumes inv: "proc_inv db" and run: "delete_task_checked i db = Inr db'"
  shows "proc_inv db'"
proof -
  have del: "delete_task i db = Inr db'"
    using run by (auto simp: delete_task_checked_def bindR_eq_Inr_conv)
  note d = delete_task_Inr[OF del]
  have cur: "current_run db' j = (if j = i then None else current_run db j)" for j
    using d by (simp add: current_run_def find_task_def find_runtime_def find_filter_key)
  have "run_owned db'" unfolding run_owned_def
  proof (intro ballI impI)
    fix t assume "t \<in> set (cd_tasks db')" "tk_status t = TaskRunning"
    then have t: "t \<in> set (cd_tasks db)" "tk_task_id t \<noteq> i" "tk_status t = TaskRunning" using d by simp_all
    then obtain r where "r \<in> set (cd_runs db)" "current_run db (tk_task_id t) = Some (rn_run_id r)"
      "rn_task_id r = tk_task_id t" "is_active_run r"
      using inv unfolding proc_inv_def run_owned_def by blast
    with t d show "\<exists>r \<in> set (cd_runs db'). current_run db' (tk_task_id t) = Some (rn_run_id r) \<and>
        rn_task_id r = tk_task_id t \<and> is_active_run r"
      by (intro bexI[of _ r]) (simp_all add: cur)
  qed
  moreover have "active_owned db'"
    using inv d cur by (simp add: proc_inv_def active_owned_def)
  moreover have "named_runs db'" using inv d by (simp add: proc_inv_def named_runs_def)
  ultimately show ?thesis
    using inv store_inv_delete[OF _ del] by (simp add: proc_inv_def)
qed

lemma filter_upsert_other:
  assumes "\<not> P x" "\<forall>y \<in> set xs. key y = key x \<longrightarrow> \<not> P y"
  shows "filter P (upsert key x xs) = filter P xs"
proof -
  have "filter P (map (\<lambda>y. if key y = key x then x else y) xs) = filter P xs"
    using assms(2) by (induction xs) (auto simp: assms(1))
  with assms(1) show ?thesis by (simp add: upsert_def)
qed

lemma validate_events_task: "validate_events i r es = Inr () \<Longrightarrow> \<forall>e \<in> set es. ce_task_id e = Some i"
  by (induction es) (auto split: if_splits)

lemma aggregate_frame:
  assumes inv: "store_inv db" and fits: "commit_fits c new db" and ne: "j \<noteq> tk_task_id (cc_task c)"
  shows "get_task_aggregate (committed c new db) j = get_task_aggregate db j"
proof -
  have v: "validate_commit c = Inr ()" and new: "map snd new = cc_events c"
    using fits by (simp_all add: commit_fits_def)
  note vc = validate_commit_Inr[OF v]
  have "runs_of (committed c new db) j = runs_of db j"
  proof (cases "cc_run c")
    case (Some r)
    have "rn_task_id r \<noteq> j" "run_fits r db" using vc Some ne fits by (auto simp: commit_fits_def)
    moreover have "\<forall>y \<in> set (cd_runs db). rn_run_id y = rn_run_id r \<longrightarrow> rn_task_id y \<noteq> j"
    proof (intro ballI impI)
      fix y assume "y \<in> set (cd_runs db)" "rn_run_id y = rn_run_id r"
      then have "find_run db (rn_run_id r) = Some y"
        using inv find_unique_key[of rn_run_id "cd_runs db" y]
        by (simp add: find_run_def store_inv_def keys_ok_def)
      with \<open>run_fits r db\<close> \<open>rn_task_id r \<noteq> j\<close> show "rn_task_id y \<noteq> j" by (simp add: run_fits_def)
    qed
    ultimately have "filter (\<lambda>x. rn_task_id x = j) (upsert rn_run_id r (cd_runs db)) =
        filter (\<lambda>x. rn_task_id x = j) (cd_runs db)"
      by (intro filter_upsert_other) auto
    with Some show ?thesis by (simp add: runs_of_def)
  qed (simp add: runs_of_def)
  moreover have "list_events (committed c new db) j 0 = list_events db j 0"
  proof -
    have "validate_events (tk_task_id (cc_task c)) (cc_run c) (cc_events c) = Inr ()"
      using v by (auto simp: validate_commit_def bindR_eq_Inr_conv split: if_splits)
    from validate_events_task[OF this] ne have "\<forall>x \<in> set new. ce_task_id (snd x) \<noteq> Some j"
      unfolding new[symmetric] by auto
    then have "filter (\<lambda>(n, e). ce_task_id e = Some j \<and> 0 < n) new = []" by (auto simp: filter_empty_conv)
    then show ?thesis by (simp add: list_events_def)
  qed
  moreover have "find_task (committed c new db) j = find_task db j"
    "find_runtime (committed c new db) j = find_runtime db j"
    using ne vc by (simp_all add: find_task_committed find_runtime_committed)
  ultimately show ?thesis by (simp only: get_task_aggregate_def)
qed

lemma reads_frame:
  assumes inv: "proc_inv db" and run: "commit_state c db = Inr (new, db')"
    and ag: "reads db ag" and ne: "tk_task_id (ag_task ag) \<noteq> tk_task_id (cc_task c)"
  shows "reads db' ag"
  using aggregate_frame[of db c new "tk_task_id (ag_task ag)"] commit_state_Inr[OF run] inv ag ne
  by (simp add: reads_def proc_inv_def)

lemma recover_task_keeps:
  assumes inv: "proc_inv db" and ag: "reads db ag"
    and run: "recover_interrupted_task env ag db = Inr (new, db')"
  shows "proc_inv db' \<and> idle_task db' (tk_task_id (ag_task ag)) \<and>
    (\<forall>b. reads db b \<longrightarrow> tk_task_id (ag_task b) \<noteq> tk_task_id (ag_task ag) \<longrightarrow> reads db' b) \<and>
    (\<forall>i. idle_task db i \<longrightarrow> idle_task db' i)"
proof (cases "find is_active_run (ag_runs ag)")
  case None
  with run inv idle_task_of[OF ag] show ?thesis by (simp add: recover_interrupted_task_def)
next
  case (Some r)
  then have r: "r \<in> set (ag_runs ag)" "is_active_run r" by (auto simp: find_Some_iff)
  from run Some obtain why where
    c: "commit_interrupted_run env ag r TrBlocked why True db = Inr (new, db')"
    by (auto simp: recover_interrupted_task_def)
  from commit_interrupted_Inr[OF c] obtain task run rt cp evs
    where cs: "commit_state (task_commit ag task (Some run) rt (Some cp) evs) db = Inr (new, db')"
      and eq: "task = tick_task (pe_now env) ((ag_task ag)\<lparr>tk_status := TaskBlocked\<rparr>)"
        "run = tick_run (pe_now env) (r\<lparr>rn_status := RunInterrupted, rn_completed_at := Some (pe_now env)\<rparr>)"
    by blast
  have inv': "proc_inv db'" by (rule interrupted_keeps[OF inv ag r c])
  have db': "db' = committed (task_commit ag task (Some run) rt (Some cp) evs) new db"
    using commit_state_Inr[OF cs] by simp
  have "idle_task db' (tk_task_id (ag_task ag))"
    using active_run_of[OF inv ag r] by (auto simp: idle_task_def db' eq)
  moreover have "idle_task db' i" if "idle_task db i" for i
    using that by (auto simp: idle_task_def db' eq)
  moreover have "reads db' b" if "reads db b" "tk_task_id (ag_task b) \<noteq> tk_task_id (ag_task ag)" for b
    using reads_frame[OF inv cs that(1)] that(2) by (simp add: eq)
  ultimately show ?thesis using inv' by blast
qed

lemma recover_each_keeps:
  assumes "proc_inv db" "list_all (reads db) ags" "distinct (map (\<lambda>a. tk_task_id (ag_task a)) ags)"
    "recover_each env n ags db = (e, db')"
  shows "proc_inv db' \<and> (\<forall>i. idle_task db i \<longrightarrow> idle_task db' i) \<and>
    (e = None \<longrightarrow> (\<forall>a \<in> set ags. idle_task db' (tk_task_id (ag_task a))))"
  using assms
proof (induction ags arbitrary: db n)
  case (Cons ag ags)
  show ?case
  proof (cases "recover_interrupted_task (env n) ag db")
    case (Inl x)
    with Cons.prems show ?thesis by auto
  next
    case (Inr y)
    then obtain new db1 where run: "recover_interrupted_task (env n) ag db = Inr (new, db1)" by (cases y) simp
    have ag: "reads db ag" using Cons.prems(2) by simp
    note k = recover_task_keeps[OF Cons.prems(1) ag run]
    have "tk_task_id (ag_task b) \<noteq> tk_task_id (ag_task ag)" if "b \<in> set ags" for b
      using that Cons.prems(3) by (metis (no_types, lifting) distinct.simps(2) imageI list.set_map list.simps(9))
    then have "list_all (reads db1) ags"
      using k Cons.prems(2) unfolding list_all_iff by simp
    moreover have "recover_each env (n + 1) ags db1 = (e, db')" using run Cons.prems(4) by simp
    ultimately have "proc_inv db' \<and> (\<forall>i. idle_task db1 i \<longrightarrow> idle_task db' i) \<and>
        (e = None \<longrightarrow> (\<forall>a \<in> set ags. idle_task db' (tk_task_id (ag_task a))))"
      using Cons.IH[of db1 "n + 1"] k Cons.prems(3) by simp
    with k show ?thesis by auto
  qed
qed simp

lemma aggregates_distinct:
  assumes inv: "proc_inv db" and ags: "list_task_aggregates db = Inr ags"
  shows "list_all (reads db) ags \<and> distinct (map (\<lambda>a. tk_task_id (ag_task a)) ags) \<and>
    tk_task_id ` set (cd_tasks db) = (\<lambda>a. tk_task_id (ag_task a)) ` set ags"
proof -
  have "distinct (map tk_task_id (cd_tasks db))"
    using inv by (simp add: proc_inv_def store_inv_def keys_ok_def)
  moreover note list_task_aggregates_reads[OF ags]
  ultimately show ?thesis
    by (metis list.set_map mset_eq_imp_distinct_iff mset_eq_setD)
qed

lemma active_task_listed:
  assumes inv: "proc_inv db" and ags: "list_task_aggregates db = Inr ags" and not: "\<not> idle_task db i"
  shows "\<exists>a \<in> set ags. tk_task_id (ag_task a) = i \<and> list_ex is_active_run (ag_runs a)"
proof -
  obtain r where r: "r \<in> set (cd_runs db)" "rn_task_id r = i" "is_active_run r"
    using not by (auto simp: idle_task_def)
  then have "i \<in> tk_task_id ` set (cd_tasks db)"
    using inv by (auto simp: proc_inv_def store_inv_def keys_ok_def)
  with aggregates_distinct[OF inv ags] obtain a where a: "a \<in> set ags" "tk_task_id (ag_task a) = i" "reads db a"
    by (auto simp: list_all_iff)
  with r have "read_run r \<in> set (ag_runs a)" by (auto elim!: reads_tables simp: runs_of_mem)
  with a r show ?thesis by (intro bexI[of _ a]) (auto simp: list_ex_iff intro: bexI[of _ "read_run r"])
qed

lemma recovery_keeps:
  assumes inv: "proc_inv db" and run: "recover_interrupted_tasks env db = (e, db')"
  shows "proc_inv db' \<and> (e = None \<longrightarrow> (\<forall>r \<in> set (cd_runs db'). \<not> is_active_run r))"
proof (cases "list_task_aggregates db")
  case (Inl x)
  with run inv show ?thesis by (auto simp: recover_interrupted_tasks_def)
next
  case (Inr ags)
  let ?live = "filter (\<lambda>ag. list_ex is_active_run (ag_runs ag)) ags"
  note d = aggregates_distinct[OF inv Inr]
  have "list_all (reads db) ?live" "distinct (map (\<lambda>a. tk_task_id (ag_task a)) ?live)"
    using d by (auto simp: list_all_iff distinct_map_filter)
  from recover_each_keeps[OF inv this, of env 0 e db'] run Inr
  have k: "proc_inv db'" "\<forall>i. idle_task db i \<longrightarrow> idle_task db' i"
    "e = None \<longrightarrow> (\<forall>a \<in> set ?live. idle_task db' (tk_task_id (ag_task a)))"
    by (simp_all add: recover_interrupted_tasks_def)
  have "idle_task db' i" if "e = None" for i
  proof (cases "idle_task db i")
    case False
    from active_task_listed[OF inv Inr this] obtain a where "a \<in> set ?live" "tk_task_id (ag_task a) = i"
      by auto
    with k(3) that show ?thesis by blast
  qed (use k in blast)
  with k(1) show ?thesis unfolding idle_task_def by blast
qed

lemma safepoint_frame:
  assumes inv: "proc_inv db" and b: "reads db b" "tk_task_id (ag_task b) \<noteq> tk_task_id (ag_task ag)"
  shows "reads (snd (persist_safepoint env k ag run trigger db)) b"
proof (cases "persist_safepoint env k ag run trigger db = (None, db)")
  case False
  with persist_safepoint_commit[of env k ag run trigger db] obtain r rt cp evs where
    eq: "persist_safepoint env k ag run trigger db =
        (case commit_state (task_commit ag (tick_task (pe_now env) (ag_task ag))
                (Some (tick_run (pe_now env) r)) rt (Some cp) evs) db of
           Inl _ \<Rightarrow> (None, db) | Inr (_, db') \<Rightarrow> (Some cp, db'))" by blast
  show ?thesis
  proof (cases "commit_state (task_commit ag (tick_task (pe_now env) (ag_task ag))
                (Some (tick_run (pe_now env) r)) rt (Some cp) evs) db")
    case (Inr x)
    then show ?thesis
      using reads_frame[OF inv _ b(1), of _ "fst x" "snd x"] b(2) eq by (cases x) simp
  qed (use eq b in simp)
qed (use b in simp)

lemma safepoint_each_keeps:
  assumes "proc_inv db" "list_all (reads db) ags" "distinct (map (\<lambda>a. tk_task_id (ag_task a)) ags)"
  shows "proc_inv (snd (safepoint_each env n ags db))"
  using assms
proof (induction ags arbitrary: db n)
  case (Cons ag ags)
  show ?case
  proof (cases "find is_active_run (ag_runs ag)")
    case None
    with Cons show ?thesis by simp
  next
    case (Some r)
    let ?db1 = "snd (persist_safepoint (env n) 0 ag (rn_run_id r) TrShutdown db)"
    have r: "r \<in> set (ag_runs ag)" "is_active_run r" using Some by (auto simp: find_Some_iff)
    have ag: "reads db ag" using Cons.prems(2) by simp
    have act: "is_active_run y" if y: "y \<in> set (ag_runs ag)" "rn_run_id y = rn_run_id r" for y
    proof -
      obtain x where x: "x \<in> set (cd_runs db)" "y = read_run x" using reads_run_row[OF ag y(1)] .
      obtain z where z: "z \<in> set (cd_runs db)" "r = read_run z" using reads_run_row[OF ag r(1)] .
      have "distinct (map rn_run_id (cd_runs db))"
        using Cons.prems(1) by (simp add: proc_inv_def store_inv_def keys_ok_def)
      with x z y(2) have "x = z" by (auto simp: distinct_map inj_on_def)
      with x z r show ?thesis by simp
    qed
    have "tk_task_id (ag_task b) \<noteq> tk_task_id (ag_task ag)" if "b \<in> set ags" for b
      using that Cons.prems(3) by (metis (no_types, lifting) distinct.simps(2) imageI list.set_map list.simps(9))
    then have "list_all (reads ?db1) ags"
      using safepoint_frame[OF Cons.prems(1)] Cons.prems(2) by (simp add: list_all_iff)
    moreover have "proc_inv ?db1"
      by (rule persist_safepoint_keeps[OF Cons.prems(1) ag act])
    ultimately show ?thesis
      using Cons.IH[of ?db1 "n + 1"] Cons.prems(3) Some by (simp add: case_prod_beta Let_def)
  qed
qed simp

lemma shutdown_keeps:
  assumes inv: "proc_inv db" and run: "save_shutdown_safepoints env db = Inr (cps, db')"
  shows "proc_inv db'"
proof -
  from run obtain ags where ags: "list_task_aggregates db = Inr ags" "safepoint_each env 0 ags db = (cps, db')"
    by (auto simp: save_shutdown_safepoints_def bindR_eq_Inr_conv)
  with aggregates_distinct[OF inv ags(1)] safepoint_each_keeps[OF inv, of ags env 0] show ?thesis by simp
qed

section \<open>Reachable states\<close>

inductive proc_step :: "coord_db \<Rightarrow> coord_db \<Rightarrow> bool" where
  Begin: "bi_run_id bi \<noteq> [] \<Longrightarrow> begin_run env bi db = Inr (new, db') \<Longrightarrow> proc_step db db'"
| Start: "start_stage env sg db = Inr (new, db') \<Longrightarrow> proc_step db db'"
| Advance: "advance_stage env ai db = Inr (new, db') \<Longrightarrow> proc_step db db'"
| Fail: "fail_stage env fa db = Inr (new, db') \<Longrightarrow> proc_step db db'"
| Wait: "complete_run_for_mailbox_wait env rid db = Inr (new, db') \<Longrightarrow> proc_step db db'"
| Deadlock: "idle_task db i \<Longrightarrow> block_mailbox_deadlock env i reason db = Inr (new, db') \<Longrightarrow> proc_step db db'"
| Expire: "idle_task db i \<Longrightarrow> expire_mailbox_wait env i reason db = Inr (new, db') \<Longrightarrow> proc_step db db'"
| Override: "set_council_override env rid db = Inr (new, db') \<Longrightarrow> proc_step db db'"
| Event: "record_run_event rid ev db = Inr (new, db') \<Longrightarrow> proc_step db db'"
| Interrupt: "interrupt_run env rid reason sh db = Inr (new, db') \<Longrightarrow> proc_step db db'"
| Recover: "recover_interrupted_tasks envs db = (e, db') \<Longrightarrow> proc_step db db'"
| Shutdown: "save_shutdown_safepoints envs db = Inr (cps, db') \<Longrightarrow> proc_step db db'"
| Restore: "record_workspace_restore env i cpid rid outcome db = Inr db' \<Longrightarrow> proc_step db db'"
| Finish: "fr_status fr \<in> {RunCompleted, RunFailed, RunCancelled} \<Longrightarrow>
    finish_run env fr db = Inr (new, db') \<Longrightarrow> proc_step db db'"
| Delete: "delete_task_checked i db = Inr db' \<Longrightarrow> proc_step db db'"
  \<comment> \<open>the operations of the task processor; a mailbox wait ends on a task without an active run\<close>

inductive proc_reachable :: "coord_db \<Rightarrow> bool" where
  Empty: "proc_reachable empty_coord_db"
| Step: "proc_reachable db \<Longrightarrow> proc_step db db' \<Longrightarrow> proc_reachable db'"

lemma proc_inv_step: "proc_step db db' \<Longrightarrow> proc_inv db \<Longrightarrow> proc_inv db'"
proof (induction rule: proc_step.induct)
  case Begin then show ?case by (blast dest: begin_run_keeps)
next
  case Start then show ?case by (blast dest: start_stage_keeps)
next
  case Advance then show ?case by (blast dest: advance_stage_keeps)
next
  case Fail then show ?case by (blast dest: fail_stage_keeps)
next
  case Wait then show ?case by (blast dest: mailbox_wait_keeps)
next
  case Deadlock then show ?case by (blast dest: block_deadlock_keeps)
next
  case Expire then show ?case by (blast dest: expire_wait_keeps)
next
  case Override then show ?case by (blast dest: council_override_keeps)
next
  case Event then show ?case by (blast dest: record_event_keeps)
next
  case Interrupt then show ?case by (blast dest: interrupt_run_keeps)
next
  case Recover then show ?case by (blast dest: recovery_keeps)
next
  case Shutdown then show ?case by (blast dest: shutdown_keeps)
next
  case Restore then show ?case by (blast dest: restore_keeps)
next
  case Finish then show ?case by (blast dest: finish_run_keeps)
next
  case Delete then show ?case by (blast dest: delete_task_keeps)
qed

lemma proc_inv_empty: "proc_inv empty_coord_db"
  by (simp add: proc_inv_def store_inv_empty named_runs_def run_owned_def active_owned_def)
    (simp add: empty_coord_db_def)

lemma proc_inv_reachable: "proc_reachable db \<Longrightarrow> proc_inv db"
  by (induction rule: proc_reachable.induct) (simp_all add: proc_inv_empty proc_inv_step)

end
