(* ===== verification/TaskProperties.thy ===== *)
theory TaskProperties
  imports TaskInvariant
begin

text \<open>
  What the task processor promises: optimistic concurrency, ownership of runs, fencing of stages,
  the identity of the gated change, and recovery.
\<close>

section \<open>A task and its runs\<close>

definition sample_request :: task_request where
  "sample_request = \<lparr>tr_spec = ''fix'', tr_role_id = Some ''dev'', tr_parent_task_id = None, tr_risk_level = None,
     tr_affected_paths = None, tr_completion_criteria = [], tr_budget = None, tr_allow_agent_council = False\<rparr>"

definition sample_env :: "nat \<Rightarrow> proc_env" where
  "sample_env n = \<lparr>pe_now = int n, pe_event_id = (\<lambda>k. replicate (n + 1) CHR ''e'' @ replicate k CHR ''x''),
     pe_checkpoint_id = replicate (n + 1) CHR ''c'',
     pe_capture = (\<lambda>ws label. (\<lparr>fa_base_commit = ''base'', fa_snapshot_commit = Some ''snap'',
       fa_worktree_path = ws, fa_branch = ''main'', fa_modified_files = []\<rparr>, True)),
     pe_with_sessions = True\<rparr>"

definition sample_begin :: begin_run_input where
  "sample_begin = \<lparr>bi_task_id = ''t'', bi_run_id = ''r'', bi_task_request = sample_request,
     bi_workspace_path = ''/w'', bi_mode = SingleAgentMode, bi_memory_ablation = None, bi_session_id = None,
     bi_restarted_from_run_id = None, bi_resume_checkpoint_id = None, bi_requested_resume_cursor = None,
     bi_cursor_input = None, bi_run_intent = None, bi_task_created_event = None,
     bi_run_created_event = None, bi_run_started_event = None\<rparr>"

definition sample_result :: "processor_error + stored_event list \<times> coord_db \<Rightarrow> coord_db" where
  "sample_result r = (case r of Inl _ \<Rightarrow> empty_coord_db | Inr (_, db) \<Rightarrow> db)"

definition sample_begun :: coord_db where
  "sample_begun = sample_result (begin_run (sample_env 1) sample_begin empty_coord_db)"

lemma sample_begun_ok: "is_ok (begin_run (sample_env 1) sample_begin empty_coord_db)"
  by code_simp

lemma sample_result_step: "is_ok r \<Longrightarrow> r = Inr (fst (projr r), sample_result r)"
  by (cases r) (auto simp: sample_result_def split: prod.split)

lemma sample_begun_run:
  "begin_run (sample_env 1) sample_begin empty_coord_db =
     Inr (fst (projr (begin_run (sample_env 1) sample_begin empty_coord_db)), sample_begun)"
  unfolding sample_begun_def by (rule sample_result_step[OF sample_begun_ok])

lemma sample_begun_reachable: "proc_reachable sample_begun"
  by (rule proc_reachable.Step[OF proc_reachable.Empty], rule proc_step.Begin[OF _ sample_begun_run])
    (simp add: sample_begin_def)

text \<open>
  C4. Optimistic concurrency: when one of two commits that read the same revision of a task has
  succeeded, the other is refused, whatever other commits succeed or fail in between.
\<close>

theorem second_writer_is_refused:
  assumes "commit_state c db = Inr (new, db')"
    and "tk_task_id (cc_task d) = tk_task_id (cc_task c)"
    and "cc_expected_task_revision d = cc_expected_task_revision c"
  shows "\<not> is_ok (commit_state d (fold (attempt commit_state) cs db'))"
  by (rule tasks.no_lost_update[OF assms])

definition sample_commit :: coord_commit where
  "sample_commit = begin_commit (sample_env 1) sample_begin None (default_cursor_input ''r'') CreateRun"

lemma sample_commit_ok: "is_ok (commit_state sample_commit empty_coord_db)"
  by code_simp

theorem second_writer_is_refused_witness:
  "\<not> is_ok (commit_state (sample_commit\<lparr>cc_events := []\<rparr>)
     (fold (attempt commit_state) [sample_commit] (snd (projr (commit_state sample_commit empty_coord_db)))))"
proof -
  obtain new db' where run: "commit_state sample_commit empty_coord_db = Inr (new, db')"
    using sample_commit_ok by (auto simp: is_ok_iff)
  from second_writer_is_refused[OF run, of "sample_commit\<lparr>cc_events := []\<rparr>" "[sample_commit]"] run
  show ?thesis by simp
qed





section \<open>Stages\<close>

lemma stage_tables:
  assumes inv: "store_inv db" and run: "commit_state c db = Inr (new, db')"
  shows "find_task db' (tk_task_id (cc_task c)) = Some (cc_task c) \<and>
    find_runtime db' (tk_task_id (cc_task c)) = Some (cc_runtime_state c) \<and>
    (\<forall>r. cc_run c = Some r \<longrightarrow> find_run db' (rn_run_id r) = Some r \<and> rn_task_id r = tk_task_id (cc_task c))"
proof -
  have db': "db' = committed c new db" and fits: "commit_fits c new db" using commit_state_Inr[OF run] by simp_all
  show ?thesis
    using validate_commit_Inr[OF fits[unfolded commit_fits_def, THEN conjunct1]]
    by (simp add: db' find_task_committed find_runtime_committed find_run_committed)
qed

definition stage_left :: "coord_db \<Rightarrow> ident \<Rightarrow> ident \<Rightarrow> cursor_input \<Rightarrow> bool" where
  \<comment> \<open>the run has no stage under way and its task stands at the input\<close>
  "stage_left db i run ci \<longleftrightarrow>
     (\<exists>t s r. find_task db i = Some t \<and> find_runtime db i = Some s \<and> find_run db run = Some r \<and>
        rn_task_id r = i \<and> rt_cursor_input s = Some ci \<and> rt_resume_cursor s = cursor_of ci \<and>
        dg_active_stage (rt_diagnostics s) = None)"

lemma stage_left_safepoint:
  assumes inv: "proc_inv db" and ag: "reads db ag" and left: "stage_left db (tk_task_id (ag_task ag)) run ci"
    and act: "\<And>r. r \<in> set (ag_runs ag) \<Longrightarrow> rn_run_id r = run \<Longrightarrow> is_active_run r"
  shows "stage_left (snd (persist_safepoint env k ag run trigger db)) (tk_task_id (ag_task ag)) run ci"
proof (cases "persist_safepoint env k ag run trigger db = (None, db)")
  case False
  then obtain r rt cp evs where r: "r \<in> set (ag_runs ag)" "rn_run_id r = run"
    and same: "rt_task_id rt = rt_task_id (ag_runtime ag)"
      "rt_resume_cursor rt = rt_resume_cursor (ag_runtime ag)"
      "dg_active_stage (rt_diagnostics rt) = dg_active_stage (rt_diagnostics (ag_runtime ag))"
      "\<forall>ci. matching_cursor_input (ag_runtime ag) = Some ci \<longrightarrow> rt_cursor_input rt = Some ci"
    and eq: "persist_safepoint env k ag run trigger db =
        (case commit_state (task_commit ag (tick_task (pe_now env) (ag_task ag))
                (Some (tick_run (pe_now env) r)) rt (Some cp) evs) db of
           Inl _ \<Rightarrow> (None, db) | Inr (_, db') \<Rightarrow> (Some cp, db'))"
    using persist_safepoint_commit[of env k ag run trigger db] by blast
  let ?c = "task_commit ag (tick_task (pe_now env) (ag_task ag))
                (Some (tick_run (pe_now env) r)) rt (Some cp) evs"
  from left obtain s where s: "find_runtime db (tk_task_id (ag_task ag)) = Some s"
    "rt_cursor_input s = Some ci" "rt_resume_cursor s = cursor_of ci" "dg_active_stage (rt_diagnostics s) = None"
    by (auto simp: stage_left_def)
  have rt: "rt_cursor_input (ag_runtime ag) = Some ci" "rt_resume_cursor (ag_runtime ag) = cursor_of ci"
    "dg_active_stage (rt_diagnostics (ag_runtime ag)) = None"
  proof -
    obtain s' where "find_runtime db (tk_task_id (ag_task ag)) = Some s'"
      "ag_runtime ag = s'\<lparr>rt_current_run_id := non_empty (rt_current_run_id s')\<rparr>"
      using reads_tables[OF ag] by blast
    with s show "rt_cursor_input (ag_runtime ag) = Some ci" "rt_resume_cursor (ag_runtime ag) = cursor_of ci"
      "dg_active_stage (rt_diagnostics (ag_runtime ag)) = None" by simp_all
  qed
  show ?thesis
  proof (cases "commit_state ?c db")
    case (Inr x)
    then obtain new db' where run: "commit_state ?c db = Inr (new, db')" by (cases x) simp
    from stage_tables[OF _ run] inv have t: "find_task db' (tk_task_id (ag_task ag)) = Some (tick_task (pe_now env) (ag_task ag))"
      "find_runtime db' (tk_task_id (ag_task ag)) = Some rt" "find_run db' (rn_run_id r) = Some (tick_run (pe_now env) r)"
      "rn_task_id r = tk_task_id (ag_task ag)"
      by (simp_all add: proc_inv_def)
    have "rt_cursor_input rt = Some ci" using same(4) rt by (simp add: matching_cursor_input_def)
    with t same(2,3) rt r have "stage_left db' (tk_task_id (ag_task ag)) run ci"
      by (simp add: stage_left_def)
    then show ?thesis using eq run by simp
  qed (use eq left in simp)
qed (use left in simp)

lemma advance_effect:
  assumes inv: "proc_inv db" and run: "advance_stage env inp db = Inr (new, db')"
  shows "\<exists>ag r nxt. require_aggregate_for_run db (sg_run_id inp) = Inr ag \<and>
    require_run ag (sg_run_id inp) = Inr r \<and> advance_checks ag r inp = Inr nxt \<and>
    stage_left db' (tk_task_id (ag_task ag)) (sg_run_id inp) nxt \<and>
    (cursor_of nxt = CursorDone \<longrightarrow> (\<exists>t. find_task db' (tk_task_id (ag_task ag)) = Some t \<and>
       tk_status t = TaskCompleted \<and> tk_final_output t = ai_final_output inp))"
proof -
  from advance_once_Inr[OF run[unfolded advance_stage_is_once]] obtain ag r nxt now evs db1
    where req: "require_aggregate_for_run db (sg_run_id inp) = Inr ag" "require_run ag (sg_run_id inp) = Inr r"
      and checks: "advance_checks ag r inp = Inr nxt"
      and c: "commit_state (task_commit ag (advance_task ag inp nxt now) (Some (advance_run r inp nxt now))
          (advance_runtime ag inp nxt now) None evs) db = Inr (new, db1)"
      and rest: "db' = db1 \<or> cursor_of nxt \<noteq> CursorDone \<and>
        (\<exists>ag' trigger. reads db1 ag' \<and> tk_task_id (ag_task ag') = tk_task_id (ag_task ag) \<and>
           db' = snd (persist_safepoint env 2 ag' (sg_run_id inp) trigger db1))" by blast
  let ?i = "tk_task_id (ag_task ag)"
  have ag: "reads db ag" "r \<in> set (ag_runs ag)" and rid: "rn_run_id r = sg_run_id inp"
    using require_aggregate_reads[OF req(1)] require_run_Inr[OF req(2)] by simp_all
  have act: "is_active_run r" using advance_checks_Inr[OF checks] by (simp add: stage_target_Inr)
  have "continues ag r (advance_task ag inp nxt now) (advance_run r inp nxt now) (advance_runtime ag inp nxt now)"
    using rid act by (simp add: continues_def advance_runtime_def Let_def)
  from task_commit_keeps[OF inv ag act c this] have inv1: "proc_inv db1" .
  from stage_tables[OF _ c] inv have t1: "find_task db1 ?i = Some (advance_task ag inp nxt now)"
    "find_runtime db1 ?i = Some (advance_runtime ag inp nxt now)"
    "find_run db1 (sg_run_id inp) = Some (advance_run r inp nxt now)"
    "rn_task_id (advance_run r inp nxt now) = ?i"
    using rid by (auto simp: proc_inv_def)
  have left1: "stage_left db1 ?i (sg_run_id inp) nxt"
    using t1 by (simp add: stage_left_def advance_runtime_def Let_def)
  have out: "tk_final_output (advance_task ag inp nxt now) = ai_final_output inp" if "cursor_of nxt = CursorDone"
    using that by (simp add: advance_task_def Let_def)
  from rest show ?thesis
  proof (elim disjE conjE exE)
    assume "db' = db1"
    with req checks left1 t1(1) out show ?thesis by (intro exI[of _ ag] exI[of _ r] exI[of _ nxt]) auto
  next
    fix ag' trigger
    assume nd: "cursor_of nxt \<noteq> CursorDone" and ag': "reads db1 ag'" "tk_task_id (ag_task ag') = ?i"
      and db': "db' = snd (persist_safepoint env 2 ag' (sg_run_id inp) trigger db1)"
    have actv: "is_active_run y" if y: "y \<in> set (ag_runs ag')" "rn_run_id y = sg_run_id inp" for y
    proof -
      obtain x where "x \<in> set (cd_runs db1)" "y = read_run x" using reads_run_row[OF ag'(1) y(1)] .
      with y rid commit_state_Inr[OF c] act nd show ?thesis by auto
    qed
    have "stage_left db' ?i (sg_run_id inp) nxt"
      using stage_left_safepoint[OF inv1 ag'(1) _ actv] left1 ag'(2) unfolding db' by simp
    with req checks nd show ?thesis by (intro exI[of _ ag] exI[of _ r] exI[of _ nxt]) simp
  qed
qed

lemma stage_left_run:
  assumes inv: "proc_inv db" and left: "stage_left db i run ci"
    and req: "require_aggregate_for_run db run = Inr ag" "require_run ag run = Inr r"
  shows "tk_task_id (ag_task ag) = i \<and> rt_cursor_input (ag_runtime ag) = Some ci \<and>
    rt_resume_cursor (ag_runtime ag) = cursor_of ci \<and> dg_active_stage (rt_diagnostics (ag_runtime ag)) = None"
proof -
  have ag: "reads db ag" "r \<in> set (ag_runs ag)" "rn_run_id r = run"
    using require_aggregate_reads[OF req(1)] require_run_Inr[OF req(2)] by simp_all
  from left obtain s x where s: "find_runtime db i = Some s" "rt_cursor_input s = Some ci"
    "rt_resume_cursor s = cursor_of ci" "dg_active_stage (rt_diagnostics s) = None"
    and x: "find_run db run = Some x" "rn_task_id x = i" by (auto simp: stage_left_def)
  obtain y where y: "y \<in> set (cd_runs db)" "rn_task_id y = tk_task_id (ag_task ag)" "r = read_run y"
    using reads_run_row[OF ag(1,2)] .
  have "distinct (map rn_run_id (cd_runs db))" using inv by (simp add: proc_inv_def store_inv_def keys_ok_def)
  then have "find_run db (rn_run_id y) = Some y" unfolding find_run_def using y(1) by (rule find_unique_key)
  with x y ag(3) have i: "tk_task_id (ag_task ag) = i" by simp
  obtain s' where "find_runtime db i = Some s'"
    "ag_runtime ag = s'\<lparr>rt_current_run_id := non_empty (rt_current_run_id s')\<rparr>"
    using reads_tables[OF ag(1)] unfolding i by blast
  with i s show ?thesis by simp
qed

text \<open>
  Fencing: once a stage of a run has been advanced, neither an advance nor a failure of that run
  is accepted before a new stage is started, under whichever invocation it is reported.
\<close>

theorem stage_completes_once:
  assumes reach: "proc_reachable db" and run: "advance_stage env inp db = Inr (new, db')"
    and again: "sg_run_id inp2 = sg_run_id inp" and failing: "sg_run_id fa = sg_run_id inp"
  shows "\<not> is_ok (advance_stage env2 inp2 db') \<and> \<not> is_ok (fail_stage env3 fa db')"
proof -
  note inv = proc_inv_reachable[OF reach]
  have inv': "proc_inv db'" by (rule advance_stage_keeps[OF inv run])
  from advance_effect[OF inv run] obtain i nxt where left: "stage_left db' i (sg_run_id inp) nxt" by blast
  have none: "assert_invocation ag c v \<noteq> Inr ()"
    if "require_aggregate_for_run db' (sg_run_id inp) = Inr ag" "require_run ag (sg_run_id inp) = Inr r" for ag r c v
    using stage_left_run[OF inv' left that] by (simp add: assert_invocation_def read_active_stage_def)
  have "\<not> is_ok (advance_stage env2 inp2 db')"
  proof
    assume "is_ok (advance_stage env2 inp2 db')"
    then obtain x where "advance_stage_once env2 inp2 db' = Inr x" by (auto simp: is_ok_iff advance_stage_is_once)
    with advance_once_Inr[of env2 inp2 db' "fst x" "snd x"] obtain ag r nxt where
      "require_aggregate_for_run db' (sg_run_id inp2) = Inr ag" "require_run ag (sg_run_id inp2) = Inr r"
      "advance_checks ag r inp2 = Inr nxt" by auto
    with advance_checks_Inr none again show False by metis
  qed
  moreover have "\<not> is_ok (fail_stage env3 fa db')"
  proof
    assume "is_ok (fail_stage env3 fa db')"
    then obtain ag r where "require_aggregate_for_run db' (sg_run_id fa) = Inr ag" "require_run ag (sg_run_id fa) = Inr r"
      "assert_invocation ag (sg_expected_cursor fa) (sg_invocation_id fa) = Inr ()"
      by (auto simp: is_ok_iff fail_stage_def with_run_Inr bindR_eq_Inr_conv)
    with none failing show False by metis
  qed
  ultimately show ?thesis ..
qed

definition sample_stage :: "cursor \<Rightarrow> stage_input" where
  "sample_stage c = \<lparr>sg_run_id = ''r'', sg_expected_cursor = c, sg_invocation_id = ''i'', sg_event = None\<rparr>"

definition sample_sha :: string where
  "sample_sha = replicate 64 CHR ''a''"

definition sample_output :: final_output where
  "sample_output = \<lparr>fo_artifact_ref = ''cs'', fo_sha256 = sample_sha, fo_workspace_path = ''/w''\<rparr>"

definition sample_advance :: "cursor \<Rightarrow> cursor_input \<Rightarrow> advance_input" where
  "sample_advance c nxt = \<lparr>sg_run_id = ''r'', sg_expected_cursor = c, sg_invocation_id = ''i'', sg_event = None,
     ai_evidence_ref = \<lparr>er_uri = ''u'', er_sha256 = sample_sha\<rparr>, ai_next_input = nxt,
     ai_council_override_input = None, ai_artifact_refs = None, ai_owner_agent_id = None,
     ai_session_id = None, ai_final_output = (if nxt = InDone then Some sample_output else None), ai_warnings = None\<rparr>"

definition sample_fail :: fail_stage_input where
  "sample_fail = \<lparr>sg_run_id = ''r'', sg_expected_cursor = ExecuteAgent, sg_invocation_id = ''i'', sg_event = None,
     fa_error = \<lparr>te_code = ''E'', te_message = ''m'', te_details = None\<rparr>, fa_evidence_ref = None,
     fa_artifact_refs = None, fa_owner_agent_id = None, fa_session_id = None\<rparr>"

datatype sample_op = DoStart nat cursor | DoAdvance nat cursor cursor_input

fun do_op :: "sample_op \<Rightarrow> coord_db \<Rightarrow> processor_error + stored_event list \<times> coord_db" where
  "do_op (DoStart n c) db = start_stage (sample_env n) (sample_stage c) db"
| "do_op (DoAdvance n c nxt) db = advance_stage (sample_env n) (sample_advance c nxt) db"

fun run_script :: "sample_op list \<Rightarrow> coord_db \<Rightarrow> coord_db option" where
  "run_script [] db = Some db"
| "run_script (x # xs) db = (case do_op x db of Inl _ \<Rightarrow> None | Inr (_, db') \<Rightarrow> run_script xs db')"

lemma run_script_append:
  "run_script (xs @ ys) db = (case run_script xs db of None \<Rightarrow> None | Some db' \<Rightarrow> run_script ys db')"
  by (induction xs arbitrary: db) (auto split: sum.split)

lemma run_script_reachable: "proc_reachable db \<Longrightarrow> run_script xs db = Some db' \<Longrightarrow> proc_reachable db'"
proof (induction xs arbitrary: db)
  case (Cons x xs)
  then obtain new db1 where x: "do_op x db = Inr (new, db1)" and rest: "run_script xs db1 = Some db'"
    by (auto split: sum.splits)
  have "proc_step db db1" using x by (cases x) (auto intro: proc_step.Start proc_step.Advance)
  with Cons rest show ?case by (blast intro: proc_reachable.Step)
qed simp

definition gate_script :: "sample_op list" where
  "gate_script = [DoStart 2 SelectAgent, DoAdvance 3 SelectAgent (InExecute ''dev'' None None),
     DoStart 4 ExecuteAgent, DoAdvance 5 ExecuteAgent (InGate ''cs'' ''post'' ''cs'' sample_sha), DoStart 6 GateStage]"

definition deliver_script :: "sample_op list" where
  "deliver_script = [DoAdvance 7 GateStage (InDeliver ''cs'' sample_sha), DoStart 8 Deliver, DoAdvance 9 Deliver InDone]"

definition sample_gating :: coord_db where
  "sample_gating = or_default (run_script gate_script sample_begun) empty_coord_db"

lemma full_script_ok: "run_script (gate_script @ deliver_script) sample_begun \<noteq> None"
  by code_simp

lemma gate_script_run: "run_script gate_script sample_begun = Some sample_gating"
  using full_script_ok by (auto simp: run_script_append sample_gating_def split: option.splits)

lemma sample_gating_reachable: "proc_reachable sample_gating"
  by (rule run_script_reachable[OF sample_begun_reachable gate_script_run])

theorem stage_completes_once_witness:
  "case run_script (take 2 gate_script) sample_begun of
     None \<Rightarrow> False
   | Some db' \<Rightarrow> \<not> is_ok (do_op (DoAdvance 5 ExecuteAgent (InGate ''cs'' ''post'' ''cs'' sample_sha)) db')"
proof -
  let ?sel = "sample_advance SelectAgent (InExecute ''dev'' None None)"
  let ?exe = "sample_advance ExecuteAgent (InGate ''cs'' ''post'' ''cs'' sample_sha)"
  have "run_script (DoStart 2 SelectAgent # DoAdvance 3 SelectAgent (InExecute ''dev'' None None) # drop 2 gate_script)
      sample_begun \<noteq> None"
    using gate_script_run by (simp add: gate_script_def)
  then obtain n1 db1 n2 db2 where 1: "start_stage (sample_env 2) (sample_stage SelectAgent) sample_begun = Inr (n1, db1)"
    and 2: "advance_stage (sample_env 3) ?sel db1 = Inr (n2, db2)"
    by (auto split: sum.splits)
  have ids: "sg_run_id ?exe = sg_run_id ?sel" "sg_run_id sample_fail = sg_run_id ?sel"
    by (simp_all add: sample_advance_def sample_fail_def)
  have "proc_reachable db1" by (rule proc_reachable.Step[OF sample_begun_reachable proc_step.Start[OF 1]])
  from stage_completes_once[OF this 2 ids, of "sample_env 5" "sample_env 5"] 1 2
  show ?thesis by (simp add: gate_script_def)
qed

section \<open>The gated change\<close>

lemma aggregate_of_run:
  assumes inv: "proc_inv db" and req: "require_aggregate_for_run db run = Inr ag" "require_run ag run = Inr r"
  shows "\<exists>x s. find_run db run = Some x \<and> rn_task_id x = tk_task_id (ag_task ag) \<and> r = read_run x \<and>
    find_runtime db (tk_task_id (ag_task ag)) = Some s \<and>
    ag_runtime ag = s\<lparr>rt_current_run_id := non_empty (rt_current_run_id s)\<rparr>"
proof -
  have ag: "reads db ag" "r \<in> set (ag_runs ag)" "rn_run_id r = run"
    using require_aggregate_reads[OF req(1)] require_run_Inr[OF req(2)] by simp_all
  obtain y where y: "y \<in> set (cd_runs db)" "rn_task_id y = tk_task_id (ag_task ag)" "r = read_run y"
    using reads_run_row[OF ag(1,2)] .
  have "distinct (map rn_run_id (cd_runs db))" using inv by (simp add: proc_inv_def store_inv_def keys_ok_def)
  then have "find_run db (rn_run_id y) = Some y" unfolding find_run_def using y(1) by (rule find_unique_key)
  moreover obtain s where "find_runtime db (tk_task_id (ag_task ag)) = Some s"
    "ag_runtime ag = s\<lparr>rt_current_run_id := non_empty (rt_current_run_id s)\<rparr>" using reads_tables[OF ag(1)] by blast
  ultimately show ?thesis using y ag(3) by simp
qed

definition stands_at :: "coord_db \<Rightarrow> ident \<Rightarrow> ident \<Rightarrow> cursor_input \<Rightarrow> bool" where
  \<comment> \<open>the run belongs to the task, whose next stage has the input\<close>
  "stands_at db i run ci \<longleftrightarrow> (\<exists>x s. find_run db run = Some x \<and> rn_task_id x = i \<and>
     find_runtime db i = Some s \<and> rt_cursor_input s = Some ci)"

lemma stage_left_stands: "stage_left db i run ci \<Longrightarrow> stands_at db i run ci"
  by (auto simp: stage_left_def stands_at_def)

lemma stands_at_aggregate:
  assumes "proc_inv db" "stands_at db i run ci" "require_aggregate_for_run db run = Inr ag" "require_run ag run = Inr r"
  shows "tk_task_id (ag_task ag) = i \<and> rt_cursor_input (ag_runtime ag) = Some ci"
  using aggregate_of_run[OF assms(1,3,4)] assms(2) by (auto simp: stands_at_def)

lemma start_stage_stands:
  assumes inv: "proc_inv db" and run: "start_stage env inp db = Inr (new, db')"
    and at: "stands_at db i (sg_run_id inp) ci"
  shows "stands_at db' i (sg_run_id inp) ci"
proof -
  from run obtain ag r where req: "require_aggregate_for_run db (sg_run_id inp) = Inr ag"
      "require_run ag (sg_run_id inp) = Inr r"
    by (auto simp: start_stage_def with_run_Inr)
  have rid: "rn_run_id r = sg_run_id inp" using require_run_Inr[OF req(2)] by simp
  note ag = stands_at_aggregate[OF inv at req]
  from run req obtain now stage ev where "commit_state (task_commit ag (tick_task now (ag_task ag)) (Some (tick_run now r))
      ((ag_runtime ag)\<lparr>rt_diagnostics := (rt_diagnostics (ag_runtime ag))\<lparr>dg_active_stage := Some stage\<rparr>,
                       rt_updated_at := now\<rparr>) None [ev]) db = Inr (new, db')"
    by (auto simp: start_stage_def with_run_def bindR_eq_Inr_conv Let_def split: if_splits)
  from stage_tables[OF _ this] inv ag rid show ?thesis
    by (simp add: stands_at_def proc_inv_def)
qed

lemma advance_stands:
  assumes inv: "proc_inv db" and run: "advance_stage env inp db = Inr (new, db')"
    and at: "stands_at db i (sg_run_id inp) ci"
  shows "\<exists>nxt. stands_at db' i (sg_run_id inp) nxt \<and> cursor_of nxt \<in> set (cursor_transitions (cursor_of ci)) \<and>
    assert_changeset_identity (Some ci) nxt (ai_final_output inp) = Inr () \<and>
    (cursor_of nxt = CursorDone \<longrightarrow> (\<exists>t. find_task db' i = Some t \<and>
       tk_status t = TaskCompleted \<and> tk_final_output t = ai_final_output inp))"
proof -
  from advance_effect[OF inv run] obtain ag r nxt where
    req: "require_aggregate_for_run db (sg_run_id inp) = Inr ag" "require_run ag (sg_run_id inp) = Inr r"
    and checks: "advance_checks ag r inp = Inr nxt"
    and left: "stage_left db' (tk_task_id (ag_task ag)) (sg_run_id inp) nxt"
    and fin: "cursor_of nxt = CursorDone \<longrightarrow> (\<exists>t. find_task db' (tk_task_id (ag_task ag)) = Some t \<and>
       tk_status t = TaskCompleted \<and> tk_final_output t = ai_final_output inp)" by blast
  note ag = stands_at_aggregate[OF inv at req]
  have "cursor_of ci = sg_expected_cursor inp"
    using advance_checks_Inr[OF checks] ag by (simp add: stage_target_Inr)
  with advance_checks_Inr[OF checks] ag fin stage_left_stands[OF left] show ?thesis
    by (intro exI[of _ nxt]) simp
qed

text \<open>
  C1. What is delivered is what was gated: when a run advances from the gate over a delivery stage
  to its end, the task is completed with exactly the change set and hash that the gate stage had
  been given, whatever the requests in between say.
\<close>

theorem gated_change_is_delivered:
  assumes reach: "proc_reachable db" and at: "stands_at db i (sg_run_id gate) (InGate subject phase cs sha)"
    and gate: "advance_stage e1 gate db = Inr (n1, db1)"
    and start: "start_stage e2 st db1 = Inr (n2, db2)" "sg_run_id st = sg_run_id gate"
    and dl: "advance_stage e3 dl db2 = Inr (n3, db3)" "sg_run_id dl = sg_run_id gate"
  shows "\<exists>t fo. find_task db3 i = Some t \<and> tk_status t = TaskCompleted \<and> tk_final_output t = Some fo \<and>
    fo_artifact_ref fo = cs \<and> fo_sha256 fo = sha"
proof -
  note inv = proc_inv_reachable[OF reach]
  note inv1 = advance_stage_keeps[OF inv gate]
  note inv2 = start_stage_keeps[OF inv1 start(1)]
  from advance_stands[OF inv gate at] obtain nxt where n: "stands_at db1 i (sg_run_id gate) nxt"
    "cursor_of nxt = Deliver" "assert_changeset_identity (Some (InGate subject phase cs sha)) nxt (ai_final_output gate) = Inr ()"
    by (auto simp: cursor_transitions_def)
  then have "nxt = InDeliver cs sha" by (cases nxt) (auto simp: assert_changeset_identity_def)
  with n start_stage_stands[OF inv1 start(1)] start(2) dl(2)
  have at2: "stands_at db2 i (sg_run_id dl) (InDeliver cs sha)" by simp
  from advance_stands[OF inv2 dl(1) at2] obtain fin where f: "cursor_of fin = CursorDone"
    "assert_changeset_identity (Some (InDeliver cs sha)) fin (ai_final_output dl) = Inr ()"
    "\<exists>t. find_task db3 i = Some t \<and> tk_status t = TaskCompleted \<and> tk_final_output t = ai_final_output dl"
    by (auto simp: cursor_transitions_def)
  then have "fin = InDone" by (cases fin) simp_all
  with f show ?thesis by (auto simp: assert_changeset_identity_def split: option.splits)
qed

theorem gated_change_is_delivered_witness:
  "case run_script deliver_script sample_gating of
     None \<Rightarrow> False
   | Some db \<Rightarrow> \<exists>t fo. find_task db ''t'' = Some t \<and> tk_status t = TaskCompleted \<and>
       tk_final_output t = Some fo \<and> fo_artifact_ref fo = ''cs'' \<and> fo_sha256 fo = sample_sha"
proof -
  let ?gate = "sample_advance GateStage (InDeliver ''cs'' sample_sha)"
  have ids: "sg_run_id ?gate = ''r''" "sg_run_id (sample_stage Deliver) = sg_run_id ?gate"
    "sg_run_id (sample_advance Deliver InDone) = sg_run_id ?gate"
    by (simp_all add: sample_advance_def sample_stage_def)
  have "run_script deliver_script sample_gating \<noteq> None"
    using full_script_ok gate_script_run by (simp add: run_script_append)
  then obtain n1 db1 n2 db2 n3 db3 where g: "advance_stage (sample_env 7) ?gate sample_gating = Inr (n1, db1)"
    and s: "start_stage (sample_env 8) (sample_stage Deliver) db1 = Inr (n2, db2)"
    and d: "advance_stage (sample_env 9) (sample_advance Deliver InDone) db2 = Inr (n3, db3)"
    by (auto simp: deliver_script_def split: sum.splits)
  have "(case (find_run sample_gating ''r'', find_runtime sample_gating ''t'') of
      (Some x, Some y) \<Rightarrow> rn_task_id x = ''t'' \<and> rt_cursor_input y = Some (InGate ''cs'' ''post'' ''cs'' sample_sha) | _ \<Rightarrow> False)"
    by code_simp
  then have "stands_at sample_gating ''t'' (sg_run_id ?gate) (InGate ''cs'' ''post'' ''cs'' sample_sha)"
    unfolding ids(1) stands_at_def by (auto split: option.splits)
  from gated_change_is_delivered[OF sample_gating_reachable this g s ids(2) d ids(3)] g s d
  show ?thesis by (simp add: deliver_script_def)
qed

end
