(* ===== verification/ResumeProperties.thy ===== *)
theory ResumeProperties
  imports TaskProperties
begin

text \<open>
  Interruption and resumption: what an interrupted run leaves behind is enough for the next run to
  start where it stopped, and what a task blocked under a running run leaves behind is not.
\<close>

section \<open>The latest checkpoint\<close>

lemma insort_le_head: "\<not> le x c \<Longrightarrow> insort_le le x (c # xs) = c # insort_le le x xs"
  by simp











section \<open>A task blocked under its run\<close>

lemma block_deadlock_leaves:
  assumes inv: "proc_inv db" and t: "find_task db i = Some t" "tk_status t = TaskRunning"
    and run: "block_mailbox_deadlock env i reason db = Inr (new, db')"
  shows "\<exists>task. find_task db' i = Some task \<and> tk_status task = TaskBlocked \<and> cd_runs db' = cd_runs db"
proof -
  obtain ag where ag: "get_task_snapshot db i = Inr ag"
    using run by (auto simp: block_mailbox_deadlock_def bindR_eq_Inr_conv)
  note rd = snapshot_reads[OF ag]
  have st: "tk_status (ag_task ag) = TaskRunning"
    using reads_tables[OF conjunct1[OF rd]] t conjunct2[OF rd] by (metis option.inject read_simps(7))
  have "\<exists>task rt evs. commit_state (task_commit ag task None rt None evs) db = Inr (new, db') \<and>
      tk_task_id task = tk_task_id (ag_task ag) \<and> tk_status task = TaskBlocked"
    using run ag st by (simp add: block_mailbox_deadlock_def bindR_eq_Inr_conv Let_def split: option.splits if_splits)
      (intro exI conjI, erule conjunct2, simp_all)
  then obtain task rt evs where c: "commit_state (task_commit ag task None rt None evs) db = Inr (new, db')"
    and task: "tk_task_id task = i" "tk_status task = TaskBlocked" using rd by auto
  have "find_task db' i = Some task" using stage_tables[OF _ c] inv task by (auto simp: proc_inv_def)
  with task(2) commit_state_Inr[OF c] show ?thesis by simp
qed

lemma blocked_stage_target:
  assumes distinct: "distinct (map rn_run_id (cd_runs db))" and r: "r \<in> set (cd_runs db)"
    and blocked: "find_task db (rn_task_id r) = Some t" "tk_status t = TaskBlocked"
    and req: "require_aggregate_for_run db (rn_run_id r) = Inr ag" "require_run ag (rn_run_id r) = Inr x"
  shows "assert_active_stage_target ag x c \<noteq> Inr ()"
proof -
  have ag: "reads db ag" using require_aggregate_reads[OF req(1)] by simp
  have m: "x \<in> set (ag_runs ag)" "rn_run_id x = rn_run_id r" using require_run_Inr[OF req(2)] by simp_all
  obtain y where y: "y \<in> set (cd_runs db)" "rn_task_id y = tk_task_id (ag_task ag)" "x = read_run y"
    using reads_run_row[OF ag m(1)] .
  have "y = r" using y m r distinct by (auto simp: distinct_map inj_on_def)
  with y reads_tables[OF ag] blocked have "tk_status (ag_task ag) = TaskBlocked"
    by (metis option.inject read_simps(7))
  then show ?thesis by (auto simp: stage_target_Inr)
qed

lemma active_run_bars_begin:
  assumes r: "r \<in> set (cd_runs db)" "rn_task_id r = i" "is_active_run r"
    and t: "find_task db i = Some t" and bi: "bi_task_id bi = i"
  shows "\<not> is_ok (begin_run env bi db)"
proof
  assume "is_ok (begin_run env bi db)"
  then obtain x where "begin_run env bi db = Inr x" by (auto simp: is_ok_iff)
  then obtain ex where "get_task_aggregate db (bi_task_id bi) = Inr ex"
    "(case ex of None \<Rightarrow> None | Some ag \<Rightarrow> find is_active_run (ag_runs ag)) = None"
    by (auto simp: begin_run_def bindR_eq_Inr_conv Let_def split: option.splits)
  with bi have ex: "get_task_aggregate db i = Inr ex"
    "(case ex of None \<Rightarrow> None | Some ag \<Rightarrow> find is_active_run (ag_runs ag)) = None" by simp_all
  then obtain b where b: "ex = Some b"
    using t by (cases ex) (auto simp: get_task_aggregate_def bindR_eq_Inr_conv split: option.splits)
  with ex have "reads db b" "tk_task_id (ag_task b) = i" using aggregate_reads by auto
  with idle_task_of[of db b] ex(2) b have "idle_task db i" by simp
  with r show False by (simp add: idle_task_def)
qed

lemma refused_target_bars_stages:
  assumes target: "\<And>ag x c. require_aggregate_for_run db rid = Inr ag \<Longrightarrow> require_run ag rid = Inr x \<Longrightarrow>
      assert_active_stage_target ag x c \<noteq> Inr ()"
  shows "(sg_run_id sg = rid \<longrightarrow> \<not> is_ok (start_stage e1 sg db)) \<and>
    (sg_run_id ai = rid \<longrightarrow> \<not> is_ok (advance_stage e2 ai db)) \<and>
    (sg_run_id fa = rid \<longrightarrow> \<not> is_ok (fail_stage e3 fa db))"
proof (intro conjI impI notI)
  assume "sg_run_id sg = rid" "is_ok (start_stage e1 sg db)"
  with target show False unfolding is_ok_iff start_stage_def with_run_Inr bindR_eq_Inr_conv by fastforce
next
  assume ai: "sg_run_id ai = rid" "is_ok (advance_stage e2 ai db)"
  then obtain x where "advance_stage_once e2 ai db = Inr x" by (auto simp: is_ok_iff advance_stage_is_once)
  with advance_once_Inr[of e2 ai db "fst x" "snd x"] obtain ag y nxt where
    "require_aggregate_for_run db (sg_run_id ai) = Inr ag" "require_run ag (sg_run_id ai) = Inr y"
    "advance_checks ag y ai = Inr nxt" by auto
  with advance_checks_Inr target ai show False by metis
next
  assume fa: "sg_run_id fa = rid" "is_ok (fail_stage e3 fa db)"
  then obtain ag y where "require_aggregate_for_run db (sg_run_id fa) = Inr ag"
    "require_run ag (sg_run_id fa) = Inr y" "assert_active_stage_target ag y (sg_expected_cursor fa) = Inr ()"
    by (auto simp: is_ok_iff fail_stage_def with_run_Inr bindR_eq_Inr_conv)
  with target fa show False by metis
qed

text \<open>
  C33. Blocking a task on a collaboration deadlock while its run is under way strands the run: the run
  stays active, so no new run of the task can begin, and no stage of it can be started, advanced or
  failed, since the task is not running.
\<close>

theorem blocked_task_strands_its_run:
  assumes reach: "proc_reachable db" and t: "find_task db i = Some t" "tk_status t = TaskRunning"
    and run: "block_mailbox_deadlock env i reason db = Inr (new, db')"
  shows "\<exists>r. r \<in> set (cd_runs db') \<and> rn_task_id r = i \<and> is_active_run r \<and>
    (bi_task_id bi = i \<longrightarrow> \<not> is_ok (begin_run e1 bi db')) \<and>
    (sg_run_id sg = rn_run_id r \<longrightarrow> \<not> is_ok (start_stage e2 sg db')) \<and>
    (sg_run_id ai = rn_run_id r \<longrightarrow> \<not> is_ok (advance_stage e3 ai db')) \<and>
    (sg_run_id fa = rn_run_id r \<longrightarrow> \<not> is_ok (fail_stage e4 fa db'))"
proof -
  note inv = proc_inv_reachable[OF reach]
  from t inv obtain r where r: "r \<in> set (cd_runs db)" "rn_task_id r = i" "is_active_run r"
    using find_task_Some[OF t(1)] by (auto simp: proc_inv_def run_owned_def)
  from block_deadlock_leaves[OF inv t run] obtain task where task: "find_task db' i = Some task"
    "tk_status task = TaskBlocked" and runs: "cd_runs db' = cd_runs db" by blast
  have "distinct (map rn_run_id (cd_runs db'))"
    using inv runs by (simp add: proc_inv_def store_inv_def keys_ok_def)
  have "assert_active_stage_target ag x c \<noteq> Inr ()" if "require_aggregate_for_run db' (rn_run_id r) = Inr ag"
      "require_run ag (rn_run_id r) = Inr x" for ag x c
    using blocked_stage_target[OF \<open>distinct _\<close> _ _ task(2) that] r task(1) runs by simp
  note stages = refused_target_bars_stages[OF this, where sg = sg and ai = ai and fa = fa]
  have "bi_task_id bi = i \<longrightarrow> \<not> is_ok (begin_run e1 bi db')"
    using active_run_bars_begin[of r db' i task bi e1] r task runs by simp
  with stages r runs show ?thesis by (intro exI[of _ r]) simp
qed

theorem blocked_task_strands_its_run_witness:
  "case block_mailbox_deadlock (sample_env 20) ''t'' ''no reply'' sample_begun of
     Inl _ \<Rightarrow> False
   | Inr (_, db') \<Rightarrow> list_ex is_active_run (cd_runs db') \<and>
       \<not> is_ok (begin_run (sample_env 30) (sample_begin\<lparr>bi_run_id := ''r2''\<rparr>) db')"
proof -
  have "is_ok (block_mailbox_deadlock (sample_env 20) ''t'' ''no reply'' sample_begun)" by code_simp
  then obtain new db' where run: "block_mailbox_deadlock (sample_env 20) ''t'' ''no reply'' sample_begun = Inr (new, db')"
    by (auto simp: is_ok_iff)
  have "map_option tk_status (find_task sample_begun ''t'') = Some TaskRunning" by code_simp
  then obtain t where t: "find_task sample_begun ''t'' = Some t" "tk_status t = TaskRunning" by auto
  have "bi_task_id (sample_begin\<lparr>bi_run_id := ''r2''\<rparr>) = ''t''" by (simp add: sample_begin_def)
  with blocked_task_strands_its_run[OF sample_begun_reachable t run] obtain r where
    "r \<in> set (cd_runs db')" "is_active_run r"
    "\<not> is_ok (begin_run (sample_env 30) (sample_begin\<lparr>bi_run_id := ''r2''\<rparr>) db')" by blast
  with run show ?thesis by (auto simp: list_ex_iff)
qed

end
