(* ===== verification/ExecutionLoop.thy ===== *)
theory ExecutionLoop
  imports TaskStages
begin

text \<open>
  The execution loop (\<open>src/coordination/task-execution-loop.ts\<close>): it reads the state of a run, starts
  the stage of its cursor, calls the executor of the stage, writes the evidence and advances, until
  the task stops running or waits on its mailbox. The stage executors, the evidence store, the abort
  signal and what other callers do to the store while an executor works are arguments, indexed by
  the number of the stage. Telemetry and the notification of listeners have no effect on the state.
  The composition is the one without the SAP bridge.
\<close>

section \<open>Contexts of tasks and runs\<close>

definition task_request_of :: "task_aggregate \<Rightarrow> task_request" where
  "task_request_of ag =
    (let t = ag_task ag in
     \<lparr>tr_spec = tk_spec t, tr_role_id = non_empty (tk_role_id t), tr_parent_task_id = non_empty (tk_parent_id t),
      tr_risk_level = Some (tk_risk_level t), tr_affected_paths = Some (tk_affected_paths t),
      tr_completion_criteria = tk_completion_criteria t, tr_budget = tk_budget t,
      tr_allow_agent_council = dg_allow_agent_council (rt_diagnostics (ag_runtime ag))\<rparr>)"

definition parent_run :: "run_state list \<Rightarrow> run_state \<Rightarrow> run_state option" where
  "parent_run runs r =
    (case non_empty (rn_restarted_from_run_id r) of
       None \<Rightarrow> None | Some p \<Rightarrow> find (\<lambda>x. rn_run_id x = p) runs)"

lemma parent_run_mem: "parent_run runs r = Some p \<Longrightarrow> p \<in> set runs"
  by (auto simp: parent_run_def find_Some_iff split: option.splits)

function lineage_of :: "run_state list \<Rightarrow> ident list \<Rightarrow> run_state \<Rightarrow> ident list" where
  "lineage_of runs seen r =
    (if rn_run_id r \<in> set seen then seen
     else case parent_run runs r of
       None \<Rightarrow> rn_run_id r # seen
     | Some p \<Rightarrow> lineage_of runs (rn_run_id r # seen) p)"
  by pat_completeness auto

termination
proof (relation "measure (\<lambda>(runs, seen, r). card (insert (rn_run_id r) (rn_run_id ` set runs) - set seen))")
  fix runs seen r p
  assume fresh: "rn_run_id r \<notin> set seen" and "parent_run runs r = Some p"
  then have "rn_run_id p \<in> rn_run_id ` set runs" using parent_run_mem by blast
  then have "insert (rn_run_id p) (rn_run_id ` set runs) - set (rn_run_id r # seen) \<subset>
      insert (rn_run_id r) (rn_run_id ` set runs) - set seen"
    using fresh by auto
  then show "((runs, rn_run_id r # seen, p), runs, seen, r) \<in>
      measure (\<lambda>(runs, seen, r). card (insert (rn_run_id r) (rn_run_id ` set runs) - set seen))"
    by (simp add: psubset_card_mono)
qed simp

declare lineage_of.simps [simp del]

definition native_prompt_dispatched :: "task_aggregate \<Rightarrow> run_state \<Rightarrow> bool option" where
  "native_prompt_dispatched ag run =
    (let lineage = lineage_of (ag_runs ag) [] run;
         role = (case rt_cursor_input (ag_runtime ag) of
            Some (InExecute w _ _) \<Rightarrow> Some w
          | _ \<Rightarrow> first_some [tk_owner_agent_id (ag_task ag), tk_role_id (ag_task ag)]);
         native = filter (\<lambda>(_, e).
            (case non_empty (ce_run_id e) of None \<Rightarrow> False | Some i \<Rightarrow> i \<in> set lineage) \<and>
            (non_empty role = None \<or> json_string (map_of (ce_payload e) ''role_id'') = role)) (ag_events ag);
         prompted = list_ex (\<lambda>(_, e). ce_event_type e = ''driver.prompt_dispatching'') native;
         initializing = list_ex (\<lambda>(_, e). ce_event_type e = ''driver.session_initializing'') native
     in if prompted \<or> initializing then Some prompted else None)"

record run_execution_state =
  xs_task_id :: ident
  xs_run_id :: ident
  xs_mode :: run_mode
  xs_memory_ablation :: "memory_ablation option"
  xs_task_request :: task_request
  xs_workspace_path :: string
  xs_resume_cursor :: cursor
  xs_cursor_input :: "cursor_input option"
  xs_council_override :: bool
  xs_restarted_from_run_id :: "ident option"
  xs_native_task_prompt_dispatched :: "bool option"

definition get_run_execution_state :: "coord_db \<Rightarrow> ident \<Rightarrow> processor_error + run_execution_state" where
  "get_run_execution_state db run_id =
    with_run db run_id (\<lambda>ag run. Inr
      \<lparr>xs_task_id = tk_task_id (ag_task ag), xs_run_id = run_id, xs_mode = rn_mode run,
       xs_memory_ablation = dg_memory_ablation (rt_diagnostics (ag_runtime ag)),
       xs_task_request = task_request_of ag, xs_workspace_path = rn_workspace_path run,
       xs_resume_cursor = rt_resume_cursor (ag_runtime ag), xs_cursor_input = rt_cursor_input (ag_runtime ag),
       xs_council_override = (dg_council_override (rt_diagnostics (ag_runtime ag)) \<noteq> None),
       xs_restarted_from_run_id = non_empty (rn_restarted_from_run_id run),
       xs_native_task_prompt_dispatched = native_prompt_dispatched ag run\<rparr>)"

record task_launch_context =
  lc_task_request :: task_request
  lc_workspace_path :: string
  lc_session_id :: "ident option"
  lc_memory_ablation :: "memory_ablation option"

definition get_task_launch_context :: "coord_db \<Rightarrow> ident \<Rightarrow> processor_error + task_launch_context" where
  "get_task_launch_context db task =
    bindR (get_task_snapshot db task) (\<lambda>ag. Inr
      \<lparr>lc_task_request = task_request_of ag, lc_workspace_path = tk_workspace_path (ag_task ag),
       lc_session_id = (case find (\<lambda>r. non_empty (rn_session_id r) \<noteq> None) (ag_runs ag) of
          None \<Rightarrow> None | Some r \<Rightarrow> rn_session_id r),
       lc_memory_ablation = dg_memory_ablation (rt_diagnostics (ag_runtime ag))\<rparr>)"

record task_resume_context = task_launch_context +
  rc_checkpoint_id :: ident
  rc_resume_cursor :: cursor
  rc_cursor_input :: cursor_input
  rc_mode :: run_mode
  rc_interrupted_run_id :: ident

definition get_task_resume_context ::
  "proc_env \<Rightarrow> coord_db \<Rightarrow> ident \<Rightarrow> processor_error + resume_error + task_resume_context" where
  "get_task_resume_context env db task =
    bindR (build_task_resume_package env db task) (\<lambda>package.
      case package of
        Inl e \<Rightarrow> Inr (Inl e)
      | Inr p \<Rightarrow>
          bindR (get_task_snapshot db task) (\<lambda>ag. Inr (Inr
            \<lparr>lc_task_request = \<lparr>tr_spec = rp_spec p, tr_role_id = rp_role_id p,
               tr_parent_task_id = rp_parent_task_id p, tr_risk_level = Some (rp_risk_level p),
               tr_affected_paths = Some (rp_affected_paths p),
               tr_completion_criteria = rp_completion_criteria p, tr_budget = rp_budget p,
               tr_allow_agent_council = dg_allow_agent_council (rt_diagnostics (ag_runtime ag))\<rparr>,
             lc_workspace_path = rp_workspace_path p, lc_session_id = non_empty (rp_session_id p),
             lc_memory_ablation = dg_memory_ablation (rt_diagnostics (ag_runtime ag)),
             rc_checkpoint_id = rp_checkpoint_id p, rc_resume_cursor = rp_resume_cursor p,
             rc_cursor_input = rp_cursor_input p, rc_mode = rp_mode p,
             rc_interrupted_run_id = rp_interrupted_run_id p\<rparr>)))"

record mailbox_wait_context =
  mw_task_id :: ident
  mw_run_id :: ident
  mw_mode :: run_mode
  mw_session_id :: "ident option"
  mw_workspace_path :: string
  mw_task_request :: task_request
  mw_memory_ablation :: "memory_ablation option"
  mw_sender_role_id :: ident
  mw_delivery_ids :: "ident list"
  mw_waiting_reason :: string

definition mailbox_wait_context_of :: "task_aggregate \<Rightarrow> mailbox_wait_context option" where
  "mailbox_wait_context_of ag =
    (let task = ag_task ag; rt = ag_runtime ag;
         rid = first_some [(case rt_interrupt_state rt of None \<Rightarrow> None
            | Some i \<Rightarrow> non_empty (is_interrupted_run_id i)), rt_current_run_id rt];
         run = (case non_empty rid of None \<Rightarrow> None | Some i \<Rightarrow> find (\<lambda>r. rn_run_id r = i) (ag_runs ag))
     in case (rt_cursor_input rt, run, non_empty (tk_owner_agent_id task)) of
          (Some (InWait deliveries reason), Some r, Some owner) \<Rightarrow>
            (if deliveries = [] \<or> tk_status task \<notin> {TaskRunning, TaskWaitingHelp, TaskBlocked} then None
             else Some \<lparr>mw_task_id = tk_task_id task, mw_run_id = rn_run_id r, mw_mode = rn_mode r,
               mw_session_id = non_empty (rn_session_id r), mw_workspace_path = tk_workspace_path task,
               mw_task_request = task_request_of ag, mw_memory_ablation = dg_memory_ablation (rt_diagnostics rt),
               mw_sender_role_id = owner, mw_delivery_ids = deliveries, mw_waiting_reason = reason\<rparr>)
        | _ \<Rightarrow> None)"

definition list_mailbox_wait_contexts :: "coord_db \<Rightarrow> processor_error + mailbox_wait_context list" where
  "list_mailbox_wait_contexts db =
    bindR (lift_coord (list_task_aggregates db)) (\<lambda>ags. Inr (List.map_filter mailbox_wait_context_of ags))"

section \<open>Executors\<close>

type_synonym evidence = "(string \<times> json) list"

record stage_context =
  cx_state :: run_execution_state
  cx_cursor_input :: cursor_input
  cx_memory_ablation :: "memory_ablation option"
  cx_session_id :: "ident option"

record stage_result =
  sr_evidence :: evidence
  sr_artifact_refs :: "string list option"

record select_result = stage_result +
  sr_winner_agent_id :: ident

datatype execute_outcome =
    Produced string string bool \<comment> \<open>changeset, sha256, and whether a council is requested\<close>
  | Waiting "ident list" string

record execute_result = stage_result +
  sr_outcome :: execute_outcome
  sr_agent_id :: "ident option"
  sr_session_id :: "ident option"

record council_result = stage_result +
  sr_changeset_ref :: string
  sr_expected_sha256 :: string

datatype gate_status = GateAllowed | GateDenied | GateBlocked

record gate_stage_result = stage_result +
  sr_status :: "gate_status option"
  sr_error :: "task_error option"
  sr_returned_ref :: "string option"
  sr_returned_sha :: "string option"

record deliver_result = stage_result +
  sr_final_output :: final_output
  sr_warnings :: "string list option"

datatype abort_signal = Live | InterruptedBy bool string \<comment> \<open>from a shutdown, reason\<close> | Cancelled

record loop_env =
  le_env :: "nat \<Rightarrow> nat \<Rightarrow> proc_env" \<comment> \<open>by stage, and call within the stage\<close>
  le_invocation :: "nat \<Rightarrow> cursor \<Rightarrow> ident"
  le_during :: "nat \<Rightarrow> coord_db \<Rightarrow> coord_db"
  le_start_signal :: "nat \<Rightarrow> abort_signal"
  le_end_signal :: "nat \<Rightarrow> abort_signal"
  le_memory_ablation :: "memory_ablation option"
  le_session_id :: "ident option"
  le_write :: "nat \<Rightarrow> ident \<Rightarrow> cursor \<Rightarrow> evidence \<Rightarrow> string + evidence_ref"
  le_write_failure :: "nat \<Rightarrow> ident \<Rightarrow> cursor \<Rightarrow> task_error \<Rightarrow> evidence_ref option \<Rightarrow> evidence_ref option"
  le_message :: "processor_error \<Rightarrow> string"
  le_select :: "nat \<Rightarrow> stage_context \<Rightarrow> string + select_result"
  le_execute :: "nat \<Rightarrow> stage_context \<Rightarrow> string + execute_result"
  le_council :: "nat \<Rightarrow> stage_context \<Rightarrow> string + council_result"
  le_gate :: "nat \<Rightarrow> stage_context \<Rightarrow> string + gate_stage_result"
  le_deliver :: "nat \<Rightarrow> stage_context \<Rightarrow> string + deliver_result"

definition stage_context_of :: "loop_env \<Rightarrow> run_execution_state \<Rightarrow> cursor_input \<Rightarrow> stage_context" where
  "stage_context_of le st ci =
    \<lparr>cx_state = st, cx_cursor_input = ci,
     cx_memory_ablation = first_some [le_memory_ablation le, xs_memory_ablation st],
     cx_session_id = non_empty (le_session_id le)\<rparr>"

section \<open>One stage\<close>

datatype stage_throw =
    ThrowPlain string
  | ThrowEvidence string
  | ThrowAdvance processor_error evidence_ref
  | ThrowCommit coord_error

datatype loop_error =
    LoopAborted
  | LoopState processor_error
  | RunOfOtherTaskLoop ident ident
  | NoCursorInput ident cursor
  | LoopStart processor_error
  | LoopCommit coord_error
  | LoopClose processor_error

definition require_cursor_input :: "run_execution_state \<Rightarrow> loop_error + cursor_input" where
  "require_cursor_input st =
    (case xs_cursor_input st of
       None \<Rightarrow> Inl (NoCursorInput (xs_run_id st) (xs_resume_cursor st))
     | Some ci \<Rightarrow>
         if cursor_of ci \<noteq> xs_resume_cursor st then Inl (NoCursorInput (xs_run_id st) (xs_resume_cursor st))
         else Inr ci)"

definition council_trigger_of :: "run_mode \<Rightarrow> bool \<Rightarrow> council_trigger option" where
  "council_trigger_of mode requested =
    (if mode = CouncilMode then Some ExplicitMode else if requested then Some AgentRequest else None)"

definition assert_changeset_result :: "string \<Rightarrow> string \<Rightarrow> string \<Rightarrow> stage_throw + unit" where
  "assert_changeset_result changeset sha source =
    ensure (changeset \<noteq> [] \<and> is_sha256 sha)
      (ThrowPlain (source @ '' returned an invalid changeset identity''))"

definition assert_gate_result_identity ::
  "gate_stage_result \<Rightarrow> string \<Rightarrow> string \<Rightarrow> stage_throw + unit" where
  "assert_gate_result_identity r changeset sha =
    ensure ((case sr_returned_ref r of None \<Rightarrow> True | Some x \<Rightarrow> x = changeset) \<and>
            (case sr_returned_sha r of None \<Rightarrow> True | Some x \<Rightarrow> x = sha))
      (ThrowPlain ''Gate executor cannot substitute the bound changeset identity'')"

definition write_evidence ::
  "loop_env \<Rightarrow> nat \<Rightarrow> ident \<Rightarrow> cursor \<Rightarrow> evidence \<Rightarrow> stage_throw + evidence_ref" where
  "write_evidence le n run c ev =
    (case le_write le n run c ev of Inl m \<Rightarrow> Inl (ThrowEvidence m) | Inr r \<Rightarrow> Inr r)"

definition call :: "string + 'a \<Rightarrow> stage_throw + 'a" where
  "call r = (case r of Inl m \<Rightarrow> Inl (ThrowPlain m) | Inr x \<Rightarrow> Inr x)"

definition plain_advance ::
  "run_execution_state \<Rightarrow> cursor \<Rightarrow> ident \<Rightarrow> evidence_ref \<Rightarrow> cursor_input \<Rightarrow> string list option \<Rightarrow> advance_input" where
  "plain_advance st c invocation ev nxt refs =
    \<lparr>sg_run_id = xs_run_id st, sg_expected_cursor = c, sg_invocation_id = invocation, sg_event = None,
     ai_evidence_ref = ev, ai_next_input = nxt, ai_council_override_input = None, ai_artifact_refs = refs,
     ai_owner_agent_id = None, ai_session_id = None, ai_final_output = None, ai_warnings = None\<rparr>"

definition advance_with_evidence ::
  "loop_env \<Rightarrow> nat \<Rightarrow> advance_input \<Rightarrow> coord_db \<Rightarrow> stage_throw + coord_db" where
  "advance_with_evidence le n inp db =
    (case advance_stage (le_env le n 1) inp db of
       Inr (_, db') \<Rightarrow> Inr db'
     | Inl (StageCommitFailed e) \<Rightarrow> Inl (ThrowCommit e)
     | Inl e \<Rightarrow> Inl (ThrowAdvance e (ai_evidence_ref inp)))"

definition persist_and_advance ::
  "loop_env \<Rightarrow> nat \<Rightarrow> run_execution_state \<Rightarrow> cursor \<Rightarrow> ident \<Rightarrow> evidence \<Rightarrow> string list option \<Rightarrow> cursor_input
    \<Rightarrow> coord_db \<Rightarrow> stage_throw + coord_db" where
  "persist_and_advance le n st c invocation evidence refs nxt db =
    bindR (write_evidence le n (xs_run_id st) c evidence) (\<lambda>ev.
      advance_with_evidence le n (plain_advance st c invocation ev nxt refs) db)"

definition execute_next_input ::
  "run_execution_state \<Rightarrow> execute_result \<Rightarrow> evidence_ref \<Rightarrow> cursor_input \<times> cursor_input option" where
  \<comment> \<open>the next input, and the one that a council override puts in its place\<close>
  "execute_next_input st r ev =
    (case sr_outcome r of
       Waiting ds reason \<Rightarrow> (InWait ds reason, None)
     | Produced cs sha requested \<Rightarrow>
         (case council_trigger_of (xs_mode st) requested of
            Some t \<Rightarrow> (InCouncil t (Some (er_uri ev)) (Some cs), None)
          | None \<Rightarrow> (InGate cs ''post_primary'' cs sha,
                    Some (InCouncil PersistentOverride (Some (er_uri ev)) (Some cs)))))"

definition default_gate_error :: "gate_status \<Rightarrow> task_error" where
  "default_gate_error s =
    (if s = GateDenied
     then \<lparr>te_code = ''gate_denied'', te_message = ''Production Gate denied the changeset'', te_details = None\<rparr>
     else \<lparr>te_code = ''gate_blocked'', te_message = ''Production Gate blocked the changeset'', te_details = None\<rparr>)"

definition gate_answer ::
  "loop_env \<Rightarrow> nat \<Rightarrow> run_execution_state \<Rightarrow> string \<Rightarrow> string \<Rightarrow> ident \<Rightarrow> gate_stage_result \<Rightarrow> evidence_ref
    \<Rightarrow> coord_db \<Rightarrow> stage_throw + coord_db" where
  "gate_answer le n st cs sha invocation r ev db =
    (case sr_status r of
       Some s \<Rightarrow>
         (if s = GateAllowed
          then advance_with_evidence le n (plain_advance st GateStage invocation ev (InDeliver cs sha) (sr_artifact_refs r)) db
          else case fail_stage (le_env le n 1)
              \<lparr>sg_run_id = xs_run_id st, sg_expected_cursor = GateStage, sg_invocation_id = invocation,
               sg_event = None, fa_error = or_default (sr_error r) (default_gate_error s),
               fa_evidence_ref = Some ev, fa_artifact_refs = sr_artifact_refs r,
               fa_owner_agent_id = None, fa_session_id = None\<rparr> db of
              Inl e \<Rightarrow> Inl (ThrowPlain (le_message le e)) | Inr (_, db') \<Rightarrow> Inr db')
     | None \<Rightarrow>
         advance_with_evidence le n (plain_advance st GateStage invocation ev (InDeliver cs sha) (sr_artifact_refs r)) db)"

fun stage_body ::
  "loop_env \<Rightarrow> nat \<Rightarrow> run_execution_state \<Rightarrow> cursor_input \<Rightarrow> ident \<Rightarrow> coord_db \<Rightarrow> stage_throw + coord_db" where
  \<comment> \<open>the \<open>try\<close> block of \<open>executeStage\<close>\<close>
  "stage_body le n st (InSelect seed candidates market) invocation db =
     bindR (call (le_select le n (stage_context_of le st (InSelect seed candidates market)))) (\<lambda>r.
       persist_and_advance le n st SelectAgent invocation (sr_evidence r) (sr_artifact_refs r)
         (InExecute (sr_winner_agent_id r) None None) db)"
| "stage_body le n st (InExecute winner market delivery) invocation db =
     bindR (call (le_execute le n (stage_context_of le st (InExecute winner market delivery)))) (\<lambda>r.
     bindR (case sr_outcome r of
         Waiting _ _ \<Rightarrow> Inr ()
       | Produced cs sha _ \<Rightarrow> assert_changeset_result cs sha ''Primary Agent'') (\<lambda>_.
     bindR (write_evidence le n (xs_run_id st) ExecuteAgent (sr_evidence r)) (\<lambda>ev.
       let (nxt, over) = execute_next_input st r ev in
       advance_with_evidence le n
         ((plain_advance st ExecuteAgent invocation ev nxt (sr_artifact_refs r))
            \<lparr>ai_owner_agent_id := non_empty (sr_agent_id r), ai_session_id := non_empty (sr_session_id r),
             ai_council_override_input := over\<rparr>) db)))"
| "stage_body le n st (InCouncil trigger evidence manifest) invocation db =
     bindR (call (le_council le n (stage_context_of le st (InCouncil trigger evidence manifest)))) (\<lambda>r.
     bindR (assert_changeset_result (sr_changeset_ref r) (sr_expected_sha256 r) ''Council'') (\<lambda>_.
       persist_and_advance le n st Council invocation (sr_evidence r) (sr_artifact_refs r)
         (InGate (sr_changeset_ref r) ''post_council'' (sr_changeset_ref r) (sr_expected_sha256 r)) db))"
| "stage_body le n st (InGate subject phase cs sha) invocation db =
     bindR (call (le_gate le n (stage_context_of le st (InGate subject phase cs sha)))) (\<lambda>r.
     bindR (assert_gate_result_identity r cs sha) (\<lambda>_.
     bindR (write_evidence le n (xs_run_id st) GateStage (sr_evidence r)) (\<lambda>ev.
       gate_answer le n st cs sha invocation r ev db)))"
| "stage_body le n st (InDeliver cs sha) invocation db =
     bindR (call (le_deliver le n (stage_context_of le st (InDeliver cs sha)))) (\<lambda>r.
     bindR (write_evidence le n (xs_run_id st) Deliver (sr_evidence r)) (\<lambda>ev.
       advance_with_evidence le n
         ((plain_advance st Deliver invocation ev InDone (sr_artifact_refs r))
            \<lparr>ai_final_output := Some (sr_final_output r), ai_warnings := sr_warnings r\<rparr>) db))"
| "stage_body le n st (InWait ds reason) invocation db = Inr db"
| "stage_body le n st InDone invocation db = Inr db"

definition stage_failure :: "loop_env \<Rightarrow> stage_throw \<Rightarrow> cursor \<Rightarrow> task_error" where
  "stage_failure le t c =
    (let details = Some (JObj [(''cursor'', JStr (cursor_name c))]) in
     case t of
       ThrowPlain m \<Rightarrow> \<lparr>te_code = ''stage_execution_failed'', te_message = m, te_details = details\<rparr>
     | ThrowEvidence m \<Rightarrow> \<lparr>te_code = ''stage_evidence_write_failed'', te_message = m, te_details = details\<rparr>
     | ThrowAdvance e _ \<Rightarrow> \<lparr>te_code = ''stage_execution_failed'', te_message = le_message le e, te_details = details\<rparr>
     | ThrowCommit e \<Rightarrow> \<lparr>te_code = ''stage_execution_failed'', te_message = le_message le (StageCommitFailed e),
                        te_details = details\<rparr>)"

definition close_loop :: "processor_error + stored_event list \<times> coord_db \<Rightarrow> loop_error + coord_db" where
  "close_loop r = (case r of Inl e \<Rightarrow> Inl (LoopClose e) | Inr (_, db') \<Rightarrow> Inr db')"

definition handle_throw ::
  "loop_env \<Rightarrow> nat \<Rightarrow> ident \<Rightarrow> cursor \<Rightarrow> ident \<Rightarrow> stage_throw \<Rightarrow> coord_db \<Rightarrow> loop_error + coord_db" where
  \<comment> \<open>the \<open>catch\<close> block of \<open>executeStage\<close>\<close>
  "handle_throw le n run c invocation t db =
    (case t of
       ThrowCommit e \<Rightarrow> Inl (LoopCommit e)
     | _ \<Rightarrow>
       (case le_end_signal le n of
          InterruptedBy shutdown reason \<Rightarrow> close_loop (interrupt_run (le_env le n 2) run reason shutdown db)
        | Cancelled \<Rightarrow> close_loop (finish_run (le_env le n 2)
            \<lparr>fr_run_id = run, fr_status = RunCancelled, fr_snapshot = None, fr_final_output = None,
             fr_warnings = None, fr_error = None, fr_event = None\<rparr> db)
        | Live \<Rightarrow>
           (let failure = stage_failure le t c;
                result_ev = (case t of ThrowAdvance _ ev \<Rightarrow> Some ev | _ \<Rightarrow> None);
                ev = (case t of ThrowEvidence _ \<Rightarrow> None | _ \<Rightarrow> le_write_failure le n run c failure result_ev)
            in close_loop (fail_stage (le_env le n 2)
                 \<lparr>sg_run_id = run, sg_expected_cursor = c, sg_invocation_id = invocation, sg_event = None,
                  fa_error = failure, fa_evidence_ref = ev,
                  fa_artifact_refs = map_option (\<lambda>e. [er_uri e]) result_ev,
                  fa_owner_agent_id = None, fa_session_id = None\<rparr> db))))"

definition execute_stage ::
  "loop_env \<Rightarrow> nat \<Rightarrow> run_execution_state \<Rightarrow> cursor_input \<Rightarrow> coord_db \<Rightarrow> loop_error + coord_db" where
  "execute_stage le n st ci db =
    (let c = cursor_of ci; invocation = le_invocation le n c in
     case start_stage (le_env le n 0)
         \<lparr>sg_run_id = xs_run_id st, sg_expected_cursor = c, sg_invocation_id = invocation, sg_event = None\<rparr> db of
       Inl e \<Rightarrow> Inl (LoopStart e)
     | Inr (_, db1) \<Rightarrow>
         (let db2 = le_during le n db1 in
          case stage_body le n st ci invocation db2 of
            Inr db3 \<Rightarrow> Inr db3
          | Inl t \<Rightarrow> handle_throw le n (xs_run_id st) c invocation t db2))"

section \<open>The loop\<close>

fun run_stages :: "nat \<Rightarrow> loop_env \<Rightarrow> nat \<Rightarrow> ident \<Rightarrow> ident \<Rightarrow> coord_db \<Rightarrow> (loop_error + coord_db) option" where
  \<comment> \<open>the first argument bounds the number of iterations\<close>
  "run_stages 0 le n task run db = None"
| "run_stages (Suc fuel) le n task run db =
    (if le_start_signal le n \<noteq> Live then Some (Inl LoopAborted)
     else case get_run_execution_state db run of
       Inl e \<Rightarrow> Some (Inl (LoopState e))
     | Inr st \<Rightarrow>
        if xs_task_id st \<noteq> task then Some (Inl (RunOfOtherTaskLoop run task))
        else case require_cursor_input st of
          Inl e \<Rightarrow> Some (Inl e)
        | Inr ci \<Rightarrow>
            if cursor_of ci = CursorDone \<or> cursor_of ci = MailboxWait then Some (Inr db)
            else case execute_stage le n st ci db of
              Inl e \<Rightarrow> Some (Inl e)
            | Inr db' \<Rightarrow>
               (case get_task_snapshot db' task of
                  Inl e \<Rightarrow> Some (Inl (LoopState e))
                | Inr ag \<Rightarrow>
                    if tk_status (ag_task ag) \<noteq> TaskRunning then Some (Inr db')
                    else run_stages fuel le (n + 1) task run db'))"

definition run_loop ::
  "nat \<Rightarrow> loop_env \<Rightarrow> proc_env \<Rightarrow> bool \<Rightarrow> ident \<Rightarrow> ident \<Rightarrow> coord_db \<Rightarrow> (loop_error + coord_db) option" where
  \<comment> \<open>\<open>TaskExecutionLoop.run\<close>; the flag asks for a council override\<close>
  "run_loop fuel le env override task run db =
    (case get_run_execution_state db run of
       Inl e \<Rightarrow> Some (Inl (LoopState e))
     | Inr st \<Rightarrow>
        if xs_task_id st \<noteq> task then Some (Inl (RunOfOtherTaskLoop run task))
        else case (if override then set_council_override env run db else Inr ([], db)) of
          Inl e \<Rightarrow> Some (Inl (LoopState e))
        | Inr (_, db') \<Rightarrow> run_stages fuel le 0 task run db')"

end
