(* ===== verification/LoopProperties.thy ===== *)
theory LoopProperties
  imports ExecutionLoop TaskProperties
begin

text \<open>
  The execution loop returns: every stage either ends the run or moves its cursor forward, so five
  stages are enough, whatever executors, evidence store and signals do.
\<close>

section \<open>Operations that end a run\<close>

definition stopped :: "coord_db \<Rightarrow> ident \<Rightarrow> bool" where
  "stopped db i \<longleftrightarrow> (\<exists>t. find_task db i = Some t \<and> tk_status t \<in> {TaskFailed, TaskBlocked, TaskCancelled})"

lemma stopped_commit:
  assumes inv: "proc_inv db" and run: "commit_state (task_commit ag task (Some run) rt cp evs) db = Inr (new, db')"
    and t: "tk_task_id task = i" "tk_status task \<in> {TaskFailed, TaskBlocked, TaskCancelled}"
  shows "stopped db' i"
  using stage_tables[OF _ run] inv t by (auto simp: stopped_def proc_inv_def)

lemma fail_stage_stops:
  assumes inv: "proc_inv db" and run: "fail_stage env inp db = Inr (new, db')" and at: "stands_at db i (sg_run_id inp) ci"
  shows "stopped db' i"
proof -
  from run obtain ag r where req: "require_aggregate_for_run db (sg_run_id inp) = Inr ag"
    "require_run ag (sg_run_id inp) = Inr r" by (auto simp: fail_stage_def with_run_Inr)
  have i: "tk_task_id (ag_task ag) = i" using stands_at_aggregate[OF inv at req] by simp
  from run req have "\<exists>task run rt evs. commit_state (task_commit ag task (Some run) rt None evs) db = Inr (new, db') \<and>
      tk_task_id task = tk_task_id (ag_task ag) \<and> tk_status task = TaskFailed"
    by (simp add: fail_stage_def with_run_def bindR_eq_Inr_conv Let_def)
      (elim conjE, intro exI conjI, assumption, simp_all split: option.split)
  with stopped_commit[OF inv] i show ?thesis by fastforce
qed

lemma interrupt_stops:
  assumes inv: "proc_inv db" and run: "interrupt_run env rid reason sh db = Inr (new, db')"
    and at: "stands_at db i rid ci" and act: "\<exists>x. find_run db rid = Some x \<and> is_active_run x"
  shows "stopped db' i"
proof -
  from run obtain ag r where req: "require_aggregate_for_run db rid = Inr ag" "require_run ag rid = Inr r"
    by (auto simp: interrupt_run_def with_run_Inr)
  have i: "tk_task_id (ag_task ag) = i" using stands_at_aggregate[OF inv at req] by simp
  have "is_active_run r" using aggregate_of_run[OF inv req] act by auto
  with run req obtain trigger why inherit where "commit_interrupted_run env ag r trigger why inherit db = Inr (new, db')"
    by (auto simp: interrupt_run_def with_run_def split: if_splits)
  from commit_interrupted_Inr[OF this] obtain task run' rt cp evs where
    "commit_state (task_commit ag task (Some run') rt (Some cp) evs) db = Inr (new, db')"
    "task = tick_task (pe_now env) ((ag_task ag)\<lparr>tk_status := TaskBlocked\<rparr>)" by blast
  with stopped_commit[OF inv, of ag task run' rt "Some cp" evs new db' i] i show ?thesis by simp
qed

lemma cancel_stops:
  assumes inv: "proc_inv db" and run: "finish_run env inp db = Inr (new, db')" "fr_status inp = RunCancelled"
    and at: "stands_at db i (fr_run_id inp) ci" and act: "\<exists>x. find_run db (fr_run_id inp) = Some x \<and> is_active_run x"
  shows "stopped db' i"
proof -
  from run(1) obtain ag r where req: "require_aggregate_for_run db (fr_run_id inp) = Inr ag"
      "require_run ag (fr_run_id inp) = Inr r"
    unfolding finish_run_def with_run_Inr by blast
  have i: "tk_task_id (ag_task ag) = i" using stands_at_aggregate[OF inv at req] by simp
  have "is_active_run r" using aggregate_of_run[OF inv req] act by auto
  with run req have "\<exists>task run rt evs. commit_state (task_commit ag task (Some run) rt None evs) db = Inr (new, db') \<and>
      tk_task_id task = tk_task_id (ag_task ag) \<and> tk_status task = TaskCancelled"
    by (simp add: finish_run_def with_run_def bindR_eq_Inr_conv Let_def task_status_of_run_def)
      (elim conjE, intro exI conjI, assumption, simp_all)
  with stopped_commit[OF inv] i show ?thesis by fastforce
qed

section \<open>One stage\<close>

definition under_way :: "coord_db \<Rightarrow> ident \<Rightarrow> ident \<Rightarrow> cursor_input \<Rightarrow> bool" where
  "under_way db i run ci \<longleftrightarrow> stands_at db i run ci \<and> (\<exists>x. find_run db run = Some x \<and> is_active_run x)"

definition quiet :: "loop_env \<Rightarrow> bool" where
  \<comment> \<open>what others do while an executor works leaves the run under way where it is\<close>
  "quiet le \<longleftrightarrow> (\<forall>n db. proc_inv db \<longrightarrow> proc_inv (le_during le n db) \<and>
     (\<forall>i run ci. under_way db i run ci \<longrightarrow> under_way (le_during le n db) i run ci))"









lemma handle_throw_done:
  assumes inv: "proc_inv db" and way: "under_way db i run ci" and h: "handle_throw le n run c v t db = Inr db'"
  shows "proc_inv db' \<and> stopped db' i"
proof -
  have at: "stands_at db i run ci" "\<exists>x. find_run db run = Some x \<and> is_active_run x"
    using way by (simp_all add: under_way_def)
  show ?thesis
  proof (cases "le_end_signal le n")
    case Live
    with h obtain fa new where f: "fail_stage (le_env le n 2) fa db = Inr (new, db')" "sg_run_id fa = run"
      by (auto simp: handle_throw_def close_loop_def Let_def split: stage_throw.splits sum.splits)
    with fail_stage_stops[OF inv f(1)] fail_stage_keeps[OF inv f(1)] at show ?thesis by simp
  next
    case (InterruptedBy sh reason)
    with h obtain new where f: "interrupt_run (le_env le n 2) run reason sh db = Inr (new, db')"
      by (auto simp: handle_throw_def close_loop_def split: stage_throw.splits sum.splits)
    with interrupt_stops[OF inv f at] interrupt_run_keeps[OF inv f] show ?thesis by simp
  next
    case Cancelled
    with h obtain fr new where f: "finish_run (le_env le n 2) fr db = Inr (new, db')" "fr_run_id fr = run" "fr_status fr = RunCancelled"
      by (auto simp: handle_throw_def close_loop_def split: stage_throw.splits sum.splits)
    with cancel_stops[OF inv f(1,3)] finish_run_keeps[OF inv _ f(1)] at show ?thesis by simp
  qed
qed

lemma start_stage_under_way:
  assumes inv: "proc_inv db" and run: "start_stage env inp db = Inr (new, db')" and at: "stands_at db i (sg_run_id inp) ci"
  shows "under_way db' i (sg_run_id inp) ci"
proof -
  from run obtain ag r where req: "require_aggregate_for_run db (sg_run_id inp) = Inr ag"
      "require_run ag (sg_run_id inp) = Inr r" and act: "is_active_run r"
    by (auto simp: start_stage_def with_run_Inr bindR_eq_Inr_conv stage_target_Inr)
  have rid: "rn_run_id r = sg_run_id inp" using require_run_Inr[OF req(2)] by simp
  from run req obtain now rt ev where "commit_state (task_commit ag (tick_task now (ag_task ag)) (Some (tick_run now r))
      rt None [ev]) db = Inr (new, db')"
    by (auto simp: start_stage_def with_run_def bindR_eq_Inr_conv Let_def split: if_splits)
  from stage_tables[OF _ this] inv rid have "find_run db' (sg_run_id inp) = Some (tick_run now r)"
    by (simp add: proc_inv_def)
  with start_stage_stands[OF inv run at] act show ?thesis by (simp add: under_way_def)
qed

lemma execute_stage_parts:
  assumes q: "quiet le" and inv: "proc_inv db" and at: "stands_at db i (xs_run_id st) ci"
    and run: "execute_stage le n st ci db = Inr db'"
  shows "\<exists>db2. proc_inv db2 \<and> under_way db2 i (xs_run_id st) ci \<and>
    (case stage_body le n st ci (le_invocation le n (cursor_of ci)) db2 of
       Inr db3 \<Rightarrow> Inr db3
     | Inl t \<Rightarrow> handle_throw le n (xs_run_id st) (cursor_of ci) (le_invocation le n (cursor_of ci)) t db2) = Inr db'"
proof -
  let ?v = "le_invocation le n (cursor_of ci)"
  from run obtain new db1 where s: "start_stage (le_env le n 0)
         \<lparr>sg_run_id = xs_run_id st, sg_expected_cursor = cursor_of ci, sg_invocation_id = ?v, sg_event = None\<rparr> db = Inr (new, db1)"
    and b: "(case stage_body le n st ci ?v (le_during le n db1) of
            Inr db3 \<Rightarrow> Inr db3
          | Inl t \<Rightarrow> handle_throw le n (xs_run_id st) (cursor_of ci) ?v t (le_during le n db1)) = Inr db'"
    by (auto simp: execute_stage_def Let_def split: sum.splits)
  have inv1: "proc_inv db1" by (rule start_stage_keeps[OF inv s])
  have "under_way db1 i (xs_run_id st) ci" using start_stage_under_way[OF inv s] at by simp
  with q inv1 have "proc_inv (le_during le n db1)" "under_way (le_during le n db1) i (xs_run_id st) ci"
    by (auto simp: quiet_def)
  with b show ?thesis by blast
qed


section \<open>The loop\<close>

fun rank :: "cursor \<Rightarrow> nat" where
  \<comment> \<open>the stages a run may still pass\<close>
  "rank SelectAgent = 5"
| "rank ExecuteAgent = 4"
| "rank Council = 3"
| "rank GateStage = 2"
| "rank Deliver = 1"
| "rank _ = 0"


lemma rank_live: "c \<noteq> CursorDone \<Longrightarrow> c \<noteq> MailboxWait \<Longrightarrow> 0 < rank c"
  by (cases c) simp_all



lemma execution_state_stands:
  assumes inv: "proc_inv db" and st: "get_run_execution_state db run = Inr st"
  shows "xs_run_id st = run \<and> (\<forall>ci. xs_cursor_input st = Some ci \<longrightarrow> stands_at db (xs_task_id st) run ci)"
proof -
  from st obtain ag r where req: "require_aggregate_for_run db run = Inr ag" "require_run ag run = Inr r"
    and x: "xs_run_id st = run" "xs_task_id st = tk_task_id (ag_task ag)"
      "xs_cursor_input st = rt_cursor_input (ag_runtime ag)"
    by (auto simp: get_run_execution_state_def with_run_Inr)
  from aggregate_of_run[OF inv req] x show ?thesis by (auto simp: stands_at_def)
qed







definition sample_ev_ref :: "nat \<Rightarrow> evidence_ref" where
  "sample_ev_ref n = \<lparr>er_uri = replicate (n + 1) CHR ''u'', er_sha256 = sample_sha\<rparr>"

definition sample_loop :: "gate_status option \<Rightarrow> loop_env" where
  "sample_loop verdict =
    \<lparr>le_env = (\<lambda>n k. sample_env (3 * n + k + 2)), le_invocation = (\<lambda>n c. replicate (n + 1) CHR ''i''),
     le_during = (\<lambda>n db. db), le_start_signal = (\<lambda>n. Live), le_end_signal = (\<lambda>n. Live),
     le_memory_ablation = None, le_session_id = None,
     le_write = (\<lambda>n r c e. Inr (sample_ev_ref n)), le_write_failure = (\<lambda>n r c e v. None),
     le_message = (\<lambda>e. ''failed''),
     le_select = (\<lambda>n cx. Inr \<lparr>sr_evidence = [], sr_artifact_refs = None, sr_winner_agent_id = ''dev''\<rparr>),
     le_execute = (\<lambda>n cx. Inr \<lparr>sr_evidence = [], sr_artifact_refs = None,
        sr_outcome = Produced ''cs'' sample_sha False, sr_agent_id = None, sr_session_id = None\<rparr>),
     le_council = (\<lambda>n cx. Inl ''no council''),
     le_gate = (\<lambda>n cx. Inr \<lparr>sr_evidence = [], sr_artifact_refs = None, sr_status = verdict, sr_error = None,
        sr_returned_ref = None, sr_returned_sha = None\<rparr>),
     le_deliver = (\<lambda>n cx. Inr \<lparr>sr_evidence = [], sr_artifact_refs = None,
        sr_final_output = sample_output, sr_warnings = None\<rparr>)\<rparr>"

lemma sample_loop_quiet: "quiet (sample_loop verdict)"
  by (simp add: quiet_def sample_loop_def)


text \<open>
  C6. A change that the production gate denies or blocks is not delivered: if the stage returns, the
  task has failed, or was interrupted or cancelled while the gate was at work.
\<close>

theorem denied_change_stops_the_task:
  assumes reach: "proc_reachable db" and q: "quiet le" and at: "stands_at db i (xs_run_id st) (InGate subject phase cs sha)"
    and verdict: "\<And>cx r. le_gate le n cx = Inr r \<Longrightarrow> sr_status r \<in> {Some GateDenied, Some GateBlocked}"
    and run: "execute_stage le n st (InGate subject phase cs sha) db = Inr db'"
  shows "stopped db' i"
proof -
  note inv = proc_inv_reachable[OF reach]
  let ?ci = "InGate subject phase cs sha" and ?v = "le_invocation le n GateStage"
  from execute_stage_parts[OF q inv at run] obtain db2 where db2: "proc_inv db2" "under_way db2 i (xs_run_id st) ?ci"
    and b: "(case stage_body le n st ?ci ?v db2 of Inr db3 \<Rightarrow> Inr db3
          | Inl t \<Rightarrow> handle_throw le n (xs_run_id st) GateStage ?v t db2) = Inr db'"
    unfolding cursor_of.simps by blast
  show ?thesis
  proof (cases "stage_body le n st ?ci ?v db2")
    case (Inl t)
    with b handle_throw_done[OF db2] show ?thesis by auto
  next
    case (Inr x)
    then obtain r ev where r: "call (le_gate le n (stage_context_of le st ?ci)) = Inr r"
      and a: "gate_answer le n st cs sha ?v r ev db2 = Inr db'"
      using b by (auto simp: bindR_eq_Inr_conv)
    have "sr_status r \<in> {Some GateDenied, Some GateBlocked}"
      using r verdict by (auto simp: call_def split: sum.splits)
    with a obtain fa new where "fail_stage (le_env le n 1) fa db2 = Inr (new, db')" "sg_run_id fa = xs_run_id st"
      by (auto simp: gate_answer_def split: sum.splits)
    with fail_stage_stops[OF db2(1)] db2(2) show ?thesis by (metis under_way_def)
  qed
qed

definition sample_gated :: coord_db where
  "sample_gated = or_default (run_script (take 4 gate_script) sample_begun) empty_coord_db"

theorem denied_change_stops_the_task_witness:
  "\<exists>st db. get_run_execution_state sample_gated ''r'' = Inr st \<and>
     execute_stage (sample_loop (Some GateDenied)) 3 st (InGate ''cs'' ''post'' ''cs'' sample_sha) sample_gated = Inr db \<and>
     stopped db ''t''"
proof -
  have ok: "run_script (take 4 gate_script) sample_begun \<noteq> None" by code_simp
  then have "run_script (take 4 gate_script) sample_begun = Some sample_gated" by (auto simp: sample_gated_def)
  from run_script_reachable[OF sample_begun_reachable this] have reach: "proc_reachable sample_gated" .
  let ?ci = "InGate ''cs'' ''post'' ''cs'' sample_sha"
  have "case get_run_execution_state sample_gated ''r'' of Inl _ \<Rightarrow> False
     | Inr st \<Rightarrow> xs_run_id st = ''r'' \<and> xs_task_id st = ''t'' \<and> xs_cursor_input st = Some ?ci \<and>
         is_ok (execute_stage (sample_loop (Some GateDenied)) 3 st ?ci sample_gated)" by code_simp
  then obtain st db where st: "get_run_execution_state sample_gated ''r'' = Inr st" "xs_run_id st = ''r''"
    "xs_task_id st = ''t''" "xs_cursor_input st = Some ?ci"
    and ex: "execute_stage (sample_loop (Some GateDenied)) 3 st ?ci sample_gated = Inr db"
    by (auto simp: is_ok_iff split: sum.splits)
  have "stands_at sample_gated ''t'' (xs_run_id st) ?ci"
    using execution_state_stands[OF proc_inv_reachable[OF reach] st(1)] st by simp
  from denied_change_stops_the_task[OF reach sample_loop_quiet this _ ex] st ex show ?thesis
    by (auto simp: sample_loop_def)
qed

end
