(* ===== verification/ProtocolFrames.thy ===== *)
theory ProtocolFrames
  imports JsText
begin

text \<open>
  The frames of the communication protocol (\<open>src/core/protocol-envelope.ts\<close>, \<open>protocol-sap.ts\<close>,
  \<open>protocol-adp.ts\<close>, \<open>protocol-aap.ts\<close>, \<open>protocol-frame.ts\<close>): eight kinds of frames in three protocols,
  the schema that admits a JSON value as a frame, and the JSON of a frame. Schemas are strict: an
  object with a key that is not listed is refused. The syntax of ISO 8601 date-times is an argument,
  a reader and a printer of instants.
\<close>

section \<open>Frames\<close>

datatype protocol_id = SystemAgent | AgentDriver | AgentAgent

datatype principal_kind = KSystem | KAgent | KDriver

record principal =
  pr_kind :: principal_kind
  pr_role_id :: "ident option"

record protocol_error =
  per_code :: string
  per_message :: string
  per_retryable :: bool

record instruction =
  ins_text :: string
  ins_ref :: "string option"

datatype side_effect = ReadOnly | WorkspaceWrite | ExternalEffect

datatype receipt_status = RsCompleted | RsSucceeded | RsFailed | RsCancelled | RsUnknown

datatype frame_body =
    Execute "ident option" instruction \<comment> \<open>council seat\<close>
  | Invoke string side_effect instruction \<comment> \<open>workspace path\<close>
  | Ask instruction
  | Cancel ident \<comment> \<open>target exchange\<close>
  | Receipt receipt_status string "protocol_error option" \<comment> \<open>status, summary\<close>

record protocol_frame =
  pf_protocol :: protocol_id
  pf_exchange_id :: ident
  pf_causation_id :: "ident option"
  pf_task_id :: ident
  pf_run_id :: ident
  pf_producer :: principal
  pf_consumer :: principal
  pf_attempt :: nat
  pf_created_at :: timestamp
  pf_deadline_at :: timestamp
  pf_body :: frame_body

definition is_receipt :: "protocol_frame \<Rightarrow> bool" where
  \<comment> \<open>\<open>'result' in frame\<close>\<close>
  "is_receipt f = (case pf_body f of Receipt _ _ _ \<Rightarrow> True | _ \<Rightarrow> False)"

section \<open>What the schemas require of a frame\<close>

fun direction :: "protocol_id \<Rightarrow> frame_body \<Rightarrow> (principal_kind \<times> principal_kind) option" where
  \<comment> \<open>producer and consumer\<close>
  "direction SystemAgent (Execute _ _) = Some (KSystem, KAgent)"
| "direction SystemAgent (Cancel _) = Some (KSystem, KAgent)"
| "direction SystemAgent (Receipt _ _ _) = Some (KAgent, KSystem)"
| "direction AgentDriver (Invoke _ _ _) = Some (KAgent, KDriver)"
| "direction AgentDriver (Cancel _) = Some (KAgent, KDriver)"
| "direction AgentDriver (Receipt _ _ _) = Some (KDriver, KAgent)"
| "direction AgentAgent (Ask _) = Some (KAgent, KAgent)"
| "direction AgentAgent (Receipt _ _ _) = Some (KAgent, KAgent)"
| "direction _ _ = None"

definition statuses :: "protocol_id \<Rightarrow> receipt_status list" where
  "statuses p = (case p of
     AgentDriver \<Rightarrow> [RsSucceeded, RsFailed, RsCancelled, RsUnknown]
   | _ \<Rightarrow> [RsCompleted, RsFailed, RsCancelled])"

definition optional_text_ok :: "string option \<Rightarrow> bool" where
  "optional_text_ok s \<longleftrightarrow> s \<noteq> Some []"

definition body_ok :: "protocol_id \<Rightarrow> ident option \<Rightarrow> frame_body \<Rightarrow> bool" where
  "body_ok p causation b = (case b of
     Execute seat i \<Rightarrow> optional_text_ok seat \<and> ins_text i \<noteq> []
   | Invoke ws _ i \<Rightarrow> ws \<noteq> [] \<and> ins_text i \<noteq> []
   | Ask i \<Rightarrow> ins_text i \<noteq> []
   | Cancel target \<Rightarrow> target \<noteq> [] \<and> causation = Some target
   | Receipt s _ e \<Rightarrow> s \<in> set (statuses p) \<and>
       (case e of None \<Rightarrow> s \<noteq> RsFailed | Some x \<Rightarrow> per_code x \<noteq> [] \<and> s \<noteq> RsCompleted \<and> s \<noteq> RsSucceeded))"

definition frame_ok :: "protocol_frame \<Rightarrow> bool" where
  "frame_ok f \<longleftrightarrow>
     pf_exchange_id f \<noteq> [] \<and> optional_text_ok (pf_causation_id f) \<and> pf_task_id f \<noteq> [] \<and> pf_run_id f \<noteq> [] \<and>
     direction (pf_protocol f) (pf_body f) = Some (pr_kind (pf_producer f), pr_kind (pf_consumer f)) \<and>
     optional_text_ok (pr_role_id (pf_producer f)) \<and> optional_text_ok (pr_role_id (pf_consumer f)) \<and>
     1 \<le> pf_attempt f \<and> pf_attempt f \<le> max_safe_integer \<and>
     body_ok (pf_protocol f) (pf_causation_id f) (pf_body f)"

section \<open>Names\<close>

definition protocol_name :: "protocol_id \<Rightarrow> string" where
  "protocol_name p = (case p of
     SystemAgent \<Rightarrow> ''system-agent'' | AgentDriver \<Rightarrow> ''agent-driver'' | AgentAgent \<Rightarrow> ''agent-agent'')"

definition kind_name :: "principal_kind \<Rightarrow> string" where
  "kind_name k = (case k of KSystem \<Rightarrow> ''system'' | KAgent \<Rightarrow> ''agent'' | KDriver \<Rightarrow> ''driver'')"

definition side_effect_name :: "side_effect \<Rightarrow> string" where
  "side_effect_name s = (case s of
     ReadOnly \<Rightarrow> ''read_only'' | WorkspaceWrite \<Rightarrow> ''workspace_write'' | ExternalEffect \<Rightarrow> ''external'')"

definition status_name :: "receipt_status \<Rightarrow> string" where
  "status_name s = (case s of RsCompleted \<Rightarrow> ''completed'' | RsSucceeded \<Rightarrow> ''succeeded''
     | RsFailed \<Rightarrow> ''failed'' | RsCancelled \<Rightarrow> ''cancelled'' | RsUnknown \<Rightarrow> ''unknown'')"

definition result_name :: "protocol_id \<Rightarrow> string" where
  "result_name p = (case p of SystemAgent \<Rightarrow> ''agent.execution_result''
     | AgentDriver \<Rightarrow> ''driver.invocation_result'' | AgentAgent \<Rightarrow> ''agent.reply'')"

definition cancel_name :: "protocol_id \<Rightarrow> string" where
  "cancel_name p = (if p = AgentDriver then ''driver.cancel'' else ''agent.cancel'')"

section \<open>The JSON of a frame\<close>

definition json_nullable :: "string option \<Rightarrow> json" where
  "json_nullable s = (case s of None \<Rightarrow> JNull | Some x \<Rightarrow> JStr x)"

definition principal_json :: "principal \<Rightarrow> json" where
  "principal_json p = JObj [(''kind'', JStr (kind_name (pr_kind p))), (''role_id'', json_nullable (pr_role_id p))]"

definition instruction_json :: "instruction \<Rightarrow> json" where
  "instruction_json i = JObj [(''text'', JStr (ins_text i)), (''ref'', json_nullable (ins_ref i))]"

definition error_json :: "protocol_error option \<Rightarrow> json" where
  "error_json e = (case e of None \<Rightarrow> JNull
     | Some x \<Rightarrow> JObj [(''code'', JStr (per_code x)), (''message'', JStr (per_message x)),
                       (''retryable'', JBool (per_retryable x))])"

definition body_fields :: "protocol_id \<Rightarrow> frame_body \<Rightarrow> (string \<times> json) list" where
  "body_fields p b = (case b of
     Execute seat i \<Rightarrow> [(''command'', JStr ''agent.execute''), (''council_seat'', json_nullable seat),
                        (''instruction'', instruction_json i)]
   | Invoke ws e i \<Rightarrow> [(''command'', JStr ''driver.invoke''), (''workspace'', JObj [(''path'', JStr ws)]),
                       (''side_effect'', JStr (side_effect_name e)), (''instruction'', instruction_json i)]
   | Ask i \<Rightarrow> [(''command'', JStr ''agent.ask''), (''instruction'', instruction_json i)]
   | Cancel t \<Rightarrow> [(''command'', JStr (cancel_name p)), (''target_exchange_id'', JStr t)]
   | Receipt s m e \<Rightarrow> [(''result'', JStr (result_name p)), (''status'', JStr (status_name s)),
                       (''summary'', JStr m), (''error'', error_json e)])"

definition frame_json :: "(timestamp \<Rightarrow> string) \<Rightarrow> protocol_frame \<Rightarrow> json" where
  "frame_json show_at f = JObj
    ([(''protocol'', JStr (protocol_name (pf_protocol f))), (''protocol_version'', JStr ''1.0''),
      (''exchange_id'', JStr (pf_exchange_id f)), (''causation_id'', json_nullable (pf_causation_id f)),
      (''task_id'', JStr (pf_task_id f)), (''run_id'', JStr (pf_run_id f)),
      (''producer'', principal_json (pf_producer f)), (''consumer'', principal_json (pf_consumer f)),
      (''attempt'', JNum (of_nat (pf_attempt f))), (''created_at'', JStr (show_at (pf_created_at f))),
      (''deadline_at'', JStr (show_at (pf_deadline_at f)))] @ body_fields (pf_protocol f) (pf_body f))"


section \<open>Reading a frame\<close>

definition max_attempt_of :: "rat \<Rightarrow> nat option" where
  \<comment> \<open>\<open>z.number().int().min(1)\<close>: safe integers only\<close>
  "max_attempt_of r = (case quotient_of r of
     (n, d) \<Rightarrow> if d = 1 \<and> 1 \<le> n \<and> n \<le> int max_safe_integer then Some (nat n) else None)"

definition strict :: "string list \<Rightarrow> json \<Rightarrow> bool" where
  "strict keys v = (case v of JObj fs \<Rightarrow> list_all (\<lambda>f. fst f \<in> set keys) fs | _ \<Rightarrow> False)"

definition rd_field :: "string \<Rightarrow> (json \<Rightarrow> 'a option) \<Rightarrow> json \<Rightarrow> 'a option" where
  "rd_field k rd v = Option.bind (json_get k v) rd"

definition rd_string :: "json \<Rightarrow> string option" where
  "rd_string v = (case v of JStr s \<Rightarrow> Some s | _ \<Rightarrow> None)"

definition rd_text :: "json \<Rightarrow> string option" where
  \<comment> \<open>\<open>z.string().min(1)\<close>\<close>
  "rd_text v = (case v of JStr s \<Rightarrow> if s = [] then None else Some s | _ \<Rightarrow> None)"

definition rd_nullable :: "(json \<Rightarrow> 'a option) \<Rightarrow> json \<Rightarrow> 'a option option" where
  "rd_nullable rd v = (if v = JNull then Some None else map_option Some (rd v))"

definition rd_bool :: "json \<Rightarrow> bool option" where
  "rd_bool v = (case v of JBool b \<Rightarrow> Some b | _ \<Rightarrow> None)"

definition rd_literal :: "string \<Rightarrow> json \<Rightarrow> unit option" where
  "rd_literal s v = (if v = JStr s then Some () else None)"

definition rd_enum :: "('a \<Rightarrow> string) \<Rightarrow> 'a list \<Rightarrow> json \<Rightarrow> 'a option" where
  "rd_enum name xs v = find (\<lambda>x. v = JStr (name x)) xs"

definition rd_principal :: "principal_kind \<Rightarrow> json \<Rightarrow> principal option" where
  "rd_principal k v =
    (if strict [''kind'', ''role_id''] v
     then Option.bind (rd_field ''kind'' (rd_literal (kind_name k)) v) (\<lambda>_.
          Option.bind (rd_field ''role_id'' (rd_nullable rd_text) v) (\<lambda>r.
            Some \<lparr>pr_kind = k, pr_role_id = r\<rparr>))
     else None)"

definition rd_instruction :: "json \<Rightarrow> instruction option" where
  "rd_instruction v =
    (if strict [''text'', ''ref''] v
     then Option.bind (rd_field ''text'' rd_text v) (\<lambda>t.
          Option.bind (rd_field ''ref'' (rd_nullable rd_string) v) (\<lambda>r.
            Some \<lparr>ins_text = t, ins_ref = r\<rparr>))
     else None)"

definition rd_error :: "json \<Rightarrow> protocol_error option" where
  "rd_error v =
    (if strict [''code'', ''message'', ''retryable''] v
     then Option.bind (rd_field ''code'' rd_text v) (\<lambda>c.
          Option.bind (rd_field ''message'' rd_string v) (\<lambda>m.
          Option.bind (rd_field ''retryable'' rd_bool v) (\<lambda>r.
            Some \<lparr>per_code = c, per_message = m, per_retryable = r\<rparr>)))
     else None)"

definition rd_workspace :: "json \<Rightarrow> string option" where
  "rd_workspace v = (if strict [''path''] v then rd_field ''path'' rd_text v else None)"

definition rd_execute :: "json \<Rightarrow> frame_body option" where
  "rd_execute v =
    Option.bind (rd_field ''command'' (rd_literal ''agent.execute'') v) (\<lambda>_.
    Option.bind (rd_field ''council_seat'' (rd_nullable rd_text) v) (\<lambda>seat.
    Option.bind (rd_field ''instruction'' rd_instruction v) (\<lambda>i. Some (Execute seat i))))"

definition rd_invoke :: "json \<Rightarrow> frame_body option" where
  "rd_invoke v =
    Option.bind (rd_field ''command'' (rd_literal ''driver.invoke'') v) (\<lambda>_.
    Option.bind (rd_field ''workspace'' rd_workspace v) (\<lambda>ws.
    Option.bind (rd_field ''side_effect'' (rd_enum side_effect_name [ReadOnly, WorkspaceWrite, ExternalEffect]) v) (\<lambda>e.
    Option.bind (rd_field ''instruction'' rd_instruction v) (\<lambda>i. Some (Invoke ws e i)))))"

definition rd_ask :: "json \<Rightarrow> frame_body option" where
  "rd_ask v =
    Option.bind (rd_field ''command'' (rd_literal ''agent.ask'') v) (\<lambda>_.
    Option.bind (rd_field ''instruction'' rd_instruction v) (\<lambda>i. Some (Ask i)))"

definition rd_cancel :: "string \<Rightarrow> json \<Rightarrow> frame_body option" where
  "rd_cancel command v =
    Option.bind (rd_field ''command'' (rd_literal command) v) (\<lambda>_.
    Option.bind (rd_field ''target_exchange_id'' rd_text v) (\<lambda>t. Some (Cancel t)))"

definition rd_receipt :: "string \<Rightarrow> receipt_status list \<Rightarrow> json \<Rightarrow> frame_body option" where
  "rd_receipt result allowed v =
    Option.bind (rd_field ''result'' (rd_literal result) v) (\<lambda>_.
    Option.bind (rd_field ''status'' (rd_enum status_name allowed) v) (\<lambda>s.
    Option.bind (rd_field ''summary'' rd_string v) (\<lambda>m.
    Option.bind (rd_field ''error'' (rd_nullable rd_error) v) (\<lambda>e. Some (Receipt s m e)))))"

record frame_variant =
  fv_protocol :: protocol_id
  fv_producer :: principal_kind
  fv_consumer :: principal_kind
  fv_keys :: "string list" \<comment> \<open>beside those of the envelope\<close>
  fv_body :: "json \<Rightarrow> frame_body option"

definition receipt_keys :: "string list" where
  "receipt_keys = [''result'', ''status'', ''summary'', ''error'']"

definition frame_variants :: "frame_variant list" where
  \<comment> \<open>the members of the union, in its order\<close>
  "frame_variants =
    [\<lparr>fv_protocol = SystemAgent, fv_producer = KSystem, fv_consumer = KAgent,
      fv_keys = [''command'', ''council_seat'', ''instruction''], fv_body = rd_execute\<rparr>,
     \<lparr>fv_protocol = SystemAgent, fv_producer = KSystem, fv_consumer = KAgent,
      fv_keys = [''command'', ''target_exchange_id''], fv_body = rd_cancel ''agent.cancel''\<rparr>,
     \<lparr>fv_protocol = SystemAgent, fv_producer = KAgent, fv_consumer = KSystem,
      fv_keys = receipt_keys, fv_body = rd_receipt ''agent.execution_result'' (statuses SystemAgent)\<rparr>,
     \<lparr>fv_protocol = AgentDriver, fv_producer = KAgent, fv_consumer = KDriver,
      fv_keys = [''command'', ''workspace'', ''side_effect'', ''instruction''], fv_body = rd_invoke\<rparr>,
     \<lparr>fv_protocol = AgentDriver, fv_producer = KAgent, fv_consumer = KDriver,
      fv_keys = [''command'', ''target_exchange_id''], fv_body = rd_cancel ''driver.cancel''\<rparr>,
     \<lparr>fv_protocol = AgentDriver, fv_producer = KDriver, fv_consumer = KAgent,
      fv_keys = receipt_keys, fv_body = rd_receipt ''driver.invocation_result'' (statuses AgentDriver)\<rparr>,
     \<lparr>fv_protocol = AgentAgent, fv_producer = KAgent, fv_consumer = KAgent,
      fv_keys = [''command'', ''instruction''], fv_body = rd_ask\<rparr>,
     \<lparr>fv_protocol = AgentAgent, fv_producer = KAgent, fv_consumer = KAgent,
      fv_keys = receipt_keys, fv_body = rd_receipt ''agent.reply'' (statuses AgentAgent)\<rparr>]"

definition envelope_keys :: "string list" where
  "envelope_keys = [''protocol'', ''protocol_version'', ''exchange_id'', ''causation_id'', ''task_id'',
     ''run_id'', ''producer'', ''consumer'', ''attempt'', ''created_at'', ''deadline_at'']"

definition cross_fields_ok :: "ident option \<Rightarrow> frame_body \<Rightarrow> bool" where
  \<comment> \<open>the refinements of the cancel and receipt schemas\<close>
  "cross_fields_ok causation b = (case b of
     Cancel target \<Rightarrow> causation = Some target
   | Receipt s _ e \<Rightarrow> (s = RsFailed \<longrightarrow> e \<noteq> None) \<and> (s = RsCompleted \<or> s = RsSucceeded \<longrightarrow> e = None)
   | _ \<Rightarrow> True)"

definition rd_attempt :: "json \<Rightarrow> nat option" where
  "rd_attempt v = (case v of JNum r \<Rightarrow> max_attempt_of r | _ \<Rightarrow> None)"

definition read_variant :: "(string \<Rightarrow> timestamp option) \<Rightarrow> json \<Rightarrow> frame_variant \<Rightarrow> protocol_frame option" where
  "read_variant read_at v k =
    (if strict (envelope_keys @ fv_keys k) v
     then Option.bind (rd_field ''protocol'' (rd_literal (protocol_name (fv_protocol k))) v) (\<lambda>_.
          Option.bind (rd_field ''protocol_version'' (rd_literal ''1.0'') v) (\<lambda>_.
          Option.bind (rd_field ''exchange_id'' rd_text v) (\<lambda>x.
          Option.bind (rd_field ''causation_id'' (rd_nullable rd_text) v) (\<lambda>c.
          Option.bind (rd_field ''task_id'' rd_text v) (\<lambda>t.
          Option.bind (rd_field ''run_id'' rd_text v) (\<lambda>r.
          Option.bind (rd_field ''producer'' (rd_principal (fv_producer k)) v) (\<lambda>p.
          Option.bind (rd_field ''consumer'' (rd_principal (fv_consumer k)) v) (\<lambda>q.
          Option.bind (rd_field ''attempt'' rd_attempt v) (\<lambda>n.
          Option.bind (rd_field ''created_at'' (\<lambda>s. Option.bind (rd_string s) read_at) v) (\<lambda>ca.
          Option.bind (rd_field ''deadline_at'' (\<lambda>s. Option.bind (rd_string s) read_at) v) (\<lambda>dl.
          Option.bind (fv_body k v) (\<lambda>b.
            if cross_fields_ok c b
            then Some \<lparr>pf_protocol = fv_protocol k, pf_exchange_id = x, pf_causation_id = c, pf_task_id = t,
                       pf_run_id = r, pf_producer = p, pf_consumer = q, pf_attempt = n, pf_created_at = ca,
                       pf_deadline_at = dl, pf_body = b\<rparr>
            else None))))))))))))
     else None)"

fun first_read :: "(string \<Rightarrow> timestamp option) \<Rightarrow> json \<Rightarrow> frame_variant list \<Rightarrow> protocol_frame option" where
  "first_read read_at v [] = None"
| "first_read read_at v (k # ks) =
     (case read_variant read_at v k of Some f \<Rightarrow> Some f | None \<Rightarrow> first_read read_at v ks)"

definition parse_frame :: "(string \<Rightarrow> timestamp option) \<Rightarrow> json \<Rightarrow> protocol_frame option" where
  \<comment> \<open>\<open>protocolFrameSchema.safeParse\<close>\<close>
  "parse_frame read_at v = first_read read_at v frame_variants"


section \<open>What is read is a frame, and a frame is read back\<close>

lemma optional_text_nullable: "rd_nullable rd_text v = Some s \<Longrightarrow> optional_text_ok s"
  by (auto simp: rd_nullable_def rd_text_def optional_text_ok_def split: if_splits json.splits)

lemma rd_text_Some: "rd_text v = Some s \<longleftrightarrow> s \<noteq> [] \<and> v = JStr s"
  by (auto simp: rd_text_def split: json.splits if_splits)

lemma rd_principal_ok: "rd_principal k v = Some p \<Longrightarrow> pr_kind p = k \<and> optional_text_ok (pr_role_id p)"
  by (auto simp: rd_principal_def rd_field_def bind_eq_Some_conv dest: optional_text_nullable split: if_splits)

lemma rd_instruction_ok: "rd_instruction v = Some i \<Longrightarrow> ins_text i \<noteq> []"
  by (auto simp: rd_instruction_def rd_field_def bind_eq_Some_conv rd_text_Some split: if_splits)

lemma rd_error_ok: "rd_error v = Some e \<Longrightarrow> per_code e \<noteq> []"
  by (auto simp: rd_error_def rd_field_def bind_eq_Some_conv rd_text_Some split: if_splits)

lemma max_attempt_of_ok: "max_attempt_of r = Some n \<Longrightarrow> 1 \<le> n \<and> n \<le> max_safe_integer"
  by (auto simp: max_attempt_of_def split: prod.splits if_splits)

lemma rd_execute_ok:
  assumes "rd_execute v = Some b"
  shows "direction SystemAgent b = Some (KSystem, KAgent)" "body_ok p c b"
  using assms by (auto simp: rd_execute_def rd_field_def bind_eq_Some_conv body_ok_def
      dest: optional_text_nullable rd_instruction_ok)

lemma rd_invoke_ok:
  assumes "rd_invoke v = Some b"
  shows "direction AgentDriver b = Some (KAgent, KDriver)" "body_ok p c b"
  using assms by (auto simp: rd_invoke_def rd_field_def rd_workspace_def bind_eq_Some_conv body_ok_def rd_text_Some
      dest: rd_instruction_ok split: if_splits)

lemma rd_ask_ok:
  assumes "rd_ask v = Some b"
  shows "direction AgentAgent b = Some (KAgent, KAgent)" "body_ok p c b"
  using assms by (auto simp: rd_ask_def rd_field_def bind_eq_Some_conv body_ok_def dest: rd_instruction_ok)

lemma rd_cancel_ok:
  assumes "rd_cancel n v = Some b"
  shows "direction SystemAgent b = Some (KSystem, KAgent)" "direction AgentDriver b = Some (KAgent, KDriver)"
    "cross_fields_ok c b \<Longrightarrow> body_ok p c b"
  using assms by (auto simp: rd_cancel_def rd_field_def bind_eq_Some_conv body_ok_def rd_text_Some cross_fields_ok_def)

lemma rd_receipt_ok:
  assumes "rd_receipt n (statuses p) v = Some b"
  shows "direction SystemAgent b = Some (KAgent, KSystem)" "direction AgentDriver b = Some (KDriver, KAgent)"
    "direction AgentAgent b = Some (KAgent, KAgent)" "cross_fields_ok c b \<Longrightarrow> body_ok p c b"
  using assms
  by (auto simp: rd_receipt_def rd_field_def bind_eq_Some_conv body_ok_def cross_fields_ok_def rd_enum_def
      rd_nullable_def find_Some_iff dest!: rd_error_ok split: option.splits if_splits)

lemma read_variant_ok:
  assumes k: "k \<in> set frame_variants" and r: "read_variant read_at v k = Some f"
  shows "frame_ok f"
proof -
  from r have f: "pf_protocol f = fv_protocol k" "pr_kind (pf_producer f) = fv_producer k"
      "pr_kind (pf_consumer f) = fv_consumer k" "pf_exchange_id f \<noteq> []" "pf_task_id f \<noteq> []" "pf_run_id f \<noteq> []"
      "optional_text_ok (pf_causation_id f)" "optional_text_ok (pr_role_id (pf_producer f))"
      "optional_text_ok (pr_role_id (pf_consumer f))" "1 \<le> pf_attempt f" "pf_attempt f \<le> max_safe_integer"
    and b: "fv_body k v = Some (pf_body f)" "cross_fields_ok (pf_causation_id f) (pf_body f)"
    by (auto simp: read_variant_def rd_field_def rd_attempt_def bind_eq_Some_conv rd_text_Some
        dest!: rd_principal_ok optional_text_nullable max_attempt_of_ok split: if_splits json.splits)
  have "direction (fv_protocol k) (pf_body f) = Some (fv_producer k, fv_consumer k) \<and>
      body_ok (fv_protocol k) (pf_causation_id f) (pf_body f)"
    using k b unfolding frame_variants_def
    by (auto intro: rd_execute_ok rd_invoke_ok rd_ask_ok rd_cancel_ok rd_receipt_ok)
  with f show ?thesis by (simp add: frame_ok_def)
qed

lemma first_read_member:
  "first_read read_at v ks = Some f \<Longrightarrow> \<exists>k \<in> set ks. read_variant read_at v k = Some f"
  by (induction ks) (auto split: option.splits)


lemma json_get_envelope [simp]:
  "json_get ''protocol'' (frame_json show_at f) = Some (JStr (protocol_name (pf_protocol f)))"
  "json_get ''protocol_version'' (frame_json show_at f) = Some (JStr ''1.0'')"
  "json_get ''exchange_id'' (frame_json show_at f) = Some (JStr (pf_exchange_id f))"
  "json_get ''causation_id'' (frame_json show_at f) = Some (json_nullable (pf_causation_id f))"
  "json_get ''task_id'' (frame_json show_at f) = Some (JStr (pf_task_id f))"
  "json_get ''run_id'' (frame_json show_at f) = Some (JStr (pf_run_id f))"
  "json_get ''producer'' (frame_json show_at f) = Some (principal_json (pf_producer f))"
  "json_get ''consumer'' (frame_json show_at f) = Some (principal_json (pf_consumer f))"
  "json_get ''attempt'' (frame_json show_at f) = Some (JNum (of_nat (pf_attempt f)))"
  "json_get ''created_at'' (frame_json show_at f) = Some (JStr (show_at (pf_created_at f)))"
  "json_get ''deadline_at'' (frame_json show_at f) = Some (JStr (show_at (pf_deadline_at f)))"
  by (simp_all add: json_get_def frame_json_def)

lemma json_get_body:
  "k \<notin> set envelope_keys \<Longrightarrow> json_get k (frame_json show_at f) = map_of (body_fields (pf_protocol f) (pf_body f)) k"
  by (simp add: json_get_def frame_json_def envelope_keys_def)

lemma strict_frame_json:
  "strict (envelope_keys @ keys) (frame_json show_at f) \<longleftrightarrow>
     set (map fst (body_fields (pf_protocol f) (pf_body f))) \<subseteq> set envelope_keys \<union> set keys"
  by (auto simp: strict_def frame_json_def envelope_keys_def list_all_iff)

lemma rd_nullable_text: "optional_text_ok s \<Longrightarrow> rd_nullable rd_text (json_nullable s) = Some s"
  by (cases s) (auto simp: rd_nullable_def json_nullable_def rd_text_def optional_text_ok_def)

lemma rd_nullable_string: "rd_nullable rd_string (json_nullable s) = Some s"
  by (cases s) (auto simp: rd_nullable_def json_nullable_def rd_string_def)

lemma rd_principal_json:
  "pr_kind p = k \<Longrightarrow> optional_text_ok (pr_role_id p) \<Longrightarrow> rd_principal k (principal_json p) = Some p"
  by (auto simp: rd_principal_def principal_json_def strict_def rd_field_def json_get_def rd_literal_def rd_nullable_text)

lemma rd_instruction_json: "ins_text i \<noteq> [] \<Longrightarrow> rd_instruction (instruction_json i) = Some i"
  by (simp add: rd_instruction_def instruction_json_def strict_def rd_field_def json_get_def rd_text_def
      rd_nullable_string)

lemma rd_error_json:
  "(\<forall>x. e = Some x \<longrightarrow> per_code x \<noteq> []) \<Longrightarrow> rd_nullable rd_error (error_json e) = Some e"
  by (cases e) (simp_all add: rd_nullable_def rd_error_def error_json_def strict_def rd_field_def json_get_def
      rd_text_def rd_string_def rd_bool_def)

lemma rd_side_effect_json:
  "rd_enum side_effect_name [ReadOnly, WorkspaceWrite, ExternalEffect] (JStr (side_effect_name e)) = Some e"
  by (cases e) (simp_all add: rd_enum_def side_effect_name_def)

lemma rd_status_json: "s \<in> set (statuses p) \<Longrightarrow> rd_enum status_name (statuses p) (JStr (status_name s)) = Some s"
  by (cases p; cases s) (simp_all add: rd_enum_def statuses_def status_name_def)

lemma rd_attempt_json: "1 \<le> n \<Longrightarrow> n \<le> max_safe_integer \<Longrightarrow> rd_attempt (JNum (of_nat n)) = Some n"
proof -
  assume "1 \<le> n" "n \<le> max_safe_integer"
  moreover have "quotient_of (of_nat n) = (int n, 1)" by (metis Rat.of_int_def of_int_of_nat_eq quotient_of_int)
  ultimately show ?thesis by (simp add: rd_attempt_def max_attempt_of_def)
qed

definition variant_of :: "protocol_id \<Rightarrow> frame_body \<Rightarrow> frame_variant" where
  "variant_of p b = frame_variants !
     (case b of Execute _ _ \<Rightarrow> 0 | Invoke _ _ _ \<Rightarrow> 3 | Ask _ \<Rightarrow> 6
      | Cancel _ \<Rightarrow> (if p = SystemAgent then 1 else 4)
      | Receipt _ _ _ \<Rightarrow> (case p of SystemAgent \<Rightarrow> 2 | AgentDriver \<Rightarrow> 5 | AgentAgent \<Rightarrow> 7))"

lemma direction_cases:
  assumes "direction p b \<noteq> None"
  obtains (execute) seat i where "p = SystemAgent" "b = Execute seat i"
  | (sap_cancel) t where "p = SystemAgent" "b = Cancel t"
  | (adp_cancel) t where "p = AgentDriver" "b = Cancel t"
  | (invoke) ws e i where "p = AgentDriver" "b = Invoke ws e i"
  | (ask) i where "p = AgentAgent" "b = Ask i"
  | (receipt) s m e where "b = Receipt s m e"
  using assms by (cases p; cases b) auto

lemma keys_outside [simp]:
  "''command'' \<notin> set envelope_keys" "''council_seat'' \<notin> set envelope_keys" "''instruction'' \<notin> set envelope_keys"
  "''workspace'' \<notin> set envelope_keys" "''side_effect'' \<notin> set envelope_keys"
  "''target_exchange_id'' \<notin> set envelope_keys" "''result'' \<notin> set envelope_keys"
  "''status'' \<notin> set envelope_keys" "''summary'' \<notin> set envelope_keys" "''error'' \<notin> set envelope_keys"
  by (simp_all add: envelope_keys_def)

lemma body_reads_back:
  assumes d: "direction (pf_protocol f) (pf_body f) \<noteq> None"
    and b: "body_ok (pf_protocol f) (pf_causation_id f) (pf_body f)"
  shows "fv_body (variant_of (pf_protocol f) (pf_body f)) (frame_json show_at f) = Some (pf_body f)"
  using d
proof (cases rule: direction_cases)
  case (receipt s m e)
  then have "s \<in> set (statuses (pf_protocol f))" "\<forall>x. e = Some x \<longrightarrow> per_code x \<noteq> []"
    using b by (auto simp: body_ok_def split: option.splits)
  with receipt show ?thesis
    by (cases "pf_protocol f") (simp_all add: variant_of_def frame_variants_def rd_receipt_def rd_field_def
        json_get_body body_fields_def rd_literal_def result_name_def rd_status_json rd_string_def rd_error_json)
qed (use b in \<open>simp_all add: variant_of_def frame_variants_def rd_execute_def rd_invoke_def rd_ask_def rd_cancel_def
    rd_field_def rd_workspace_def strict_def json_get_body body_fields_def rd_literal_def body_ok_def
    rd_nullable_text rd_instruction_json rd_side_effect_json cancel_name_def rd_text_def json_get_def[of "''path''"]\<close>)


lemma protocol_name_inj [simp]: "protocol_name p = protocol_name q \<longleftrightarrow> p = q"
  by (cases p; cases q) (simp_all add: protocol_name_def)

lemma variant_of_mem: "variant_of p b \<in> set frame_variants"
  by (cases p; cases b) (simp_all add: variant_of_def frame_variants_def)

lemma reads_back:
  assumes ok: "frame_ok f" and iso: "\<And>t. read_at (show_at t) = Some t"
  shows "read_variant read_at (frame_json show_at f) (variant_of (pf_protocol f) (pf_body f)) = Some f"
proof -
  let ?k = "variant_of (pf_protocol f) (pf_body f)"
  have d: "direction (pf_protocol f) (pf_body f) = Some (pr_kind (pf_producer f), pr_kind (pf_consumer f))"
    using ok by (simp add: frame_ok_def)
  then have k: "fv_protocol ?k = pf_protocol f" "fv_producer ?k = pr_kind (pf_producer f)"
    "fv_consumer ?k = pr_kind (pf_consumer f)"
    "set (map fst (body_fields (pf_protocol f) (pf_body f))) \<subseteq> set envelope_keys \<union> set (fv_keys ?k)"
    by (cases "pf_protocol f"; cases "pf_body f",
        auto simp: variant_of_def frame_variants_def body_fields_def receipt_keys_def)+
  have "cross_fields_ok (pf_causation_id f) (pf_body f)"
    using ok by (cases "pf_body f") (auto simp: frame_ok_def body_ok_def cross_fields_ok_def split: option.splits)
  moreover have "fv_body ?k (frame_json show_at f) = Some (pf_body f)"
    using ok by (intro body_reads_back) (auto simp: frame_ok_def)
  ultimately show ?thesis
    using ok k iso
    by (simp add: read_variant_def strict_frame_json rd_field_def rd_literal_def rd_text_def rd_string_def
        rd_nullable_text rd_principal_json rd_attempt_json frame_ok_def)
qed

lemma other_bodies_fail:
  assumes d: "direction (pf_protocol f) (pf_body f) \<noteq> None"
  shows "list_all (\<lambda>k. fv_protocol k = pf_protocol f \<longrightarrow> fv_body k (frame_json show_at f) \<noteq> None \<longrightarrow>
    k = variant_of (pf_protocol f) (pf_body f)) frame_variants"
  using d
proof (cases rule: direction_cases)
  case (receipt s m e)
  then show ?thesis
    by (cases "pf_protocol f") (simp_all add: frame_variants_def variant_of_def rd_execute_def rd_invoke_def rd_ask_def
        rd_cancel_def rd_field_def json_get_body body_fields_def)
qed (simp_all add: frame_variants_def variant_of_def rd_execute_def rd_invoke_def rd_ask_def
    rd_cancel_def rd_receipt_def rd_field_def rd_literal_def json_get_body body_fields_def cancel_name_def)

lemma only_own_variant:
  assumes ok: "frame_ok f" and k: "k \<in> set frame_variants" "read_variant read_at (frame_json show_at f) k \<noteq> None"
  shows "k = variant_of (pf_protocol f) (pf_body f)"
proof -
  have d: "direction (pf_protocol f) (pf_body f) \<noteq> None" using ok by (simp add: frame_ok_def)
  from k(2) have "fv_protocol k = pf_protocol f" "fv_body k (frame_json show_at f) \<noteq> None"
    by (auto simp: read_variant_def rd_field_def rd_literal_def bind_eq_Some_conv split: if_splits)
  with other_bodies_fail[OF d] k(1) show ?thesis by (simp add: list_all_iff)
qed

lemma first_read_unique:
  assumes "k \<in> set ks" "read_variant read_at v k = Some f"
    and "\<And>k'. k' \<in> set ks \<Longrightarrow> read_variant read_at v k' \<noteq> None \<Longrightarrow> k' = k"
  shows "first_read read_at v ks = Some f"
  using assms
proof (induction ks)
  case (Cons x xs)
  show ?case
  proof (cases "read_variant read_at v x")
    case None
    with Cons.prems(1,2) have "k \<in> set xs" by auto
    then have "first_read read_at v xs = Some f"
      by (rule Cons.IH[OF _ Cons.prems(2)]) (rule Cons.prems(3), simp_all)
    with None show ?thesis by simp
  next
    case (Some g)
    then have "x = k" by (intro Cons.prems(3)) simp_all
    with Some Cons.prems(2) show ?thesis by simp
  qed
qed simp

text \<open>
  C11. The schema and the JSON of frames agree: whatever the schema reads satisfies every rule of its
  protocol, and the JSON of a frame that satisfies them is read back as that frame, whatever frame
  kinds the union tries first.
\<close>

theorem frames_round_trip:
  assumes iso: "\<And>t. read_at (show_at t) = Some t"
  shows "frame_ok f \<longleftrightarrow> parse_frame read_at (frame_json show_at f) = Some f"
proof
  assume ok: "frame_ok f"
  show "parse_frame read_at (frame_json show_at f) = Some f"
    unfolding parse_frame_def
    by (rule first_read_unique[OF variant_of_mem reads_back[OF ok iso] only_own_variant[OF ok]])
next
  assume "parse_frame read_at (frame_json show_at f) = Some f"
  then show "frame_ok f" unfolding parse_frame_def using first_read_member read_variant_ok by blast
qed

definition sample_frame :: protocol_frame where
  "sample_frame = \<lparr>pf_protocol = SystemAgent, pf_exchange_id = ''x'', pf_causation_id = None, pf_task_id = ''t'',
     pf_run_id = ''r'', pf_producer = \<lparr>pr_kind = KSystem, pr_role_id = None\<rparr>,
     pf_consumer = \<lparr>pr_kind = KAgent, pr_role_id = Some ''dev''\<rparr>, pf_attempt = 1, pf_created_at = 10,
     pf_deadline_at = 100, pf_body = Execute None \<lparr>ins_text = ''fix'', ins_ref = None\<rparr>\<rparr>"

definition unary_at :: "timestamp \<Rightarrow> string" where
  "unary_at t = (if t < 0 then CHR ''-'' # replicate (nat (- t)) CHR ''1'' else replicate (nat t) CHR ''1'')"

definition read_unary_at :: "string \<Rightarrow> timestamp option" where
  "read_unary_at s = (case s of [] \<Rightarrow> Some 0
     | c # cs \<Rightarrow> Some (if c = CHR ''-'' then - int (length cs) else int (length s)))"

lemma unary_at_read: "read_unary_at (unary_at t) = Some t"
proof (cases "t \<le> 0")
  case False
  then obtain n where "nat t = Suc n" by (metis gr0_implies_Suc zero_less_nat_eq not_le)
  with False show ?thesis by (simp add: unary_at_def read_unary_at_def)
qed (auto simp: unary_at_def read_unary_at_def)

theorem frames_round_trip_witness:
  "frame_ok sample_frame \<and> parse_frame read_unary_at (frame_json unary_at sample_frame) = Some sample_frame"
proof -
  have "frame_ok sample_frame"
    by (simp add: frame_ok_def sample_frame_def optional_text_ok_def max_safe_integer_def body_ok_def)
  with frames_round_trip[OF unary_at_read, of sample_frame] show ?thesis by simp
qed

end
