(* ===== verification/ProtocolStore.thy ===== *)
theory ProtocolStore
  imports CoordinationStore ProtocolFrames
begin

text \<open>
  The delivery tables of the communication protocol (\<open>src/persistence/sqlite-protocol-delivery.ts\<close>, its
  port \<open>protocol-delivery-store.ts\<close>): an outbox and an inbox of frames, leased to one holder at a time
  and versioned by a revision, and the journal of what happened to them. They live in the database of
  the coordination store, whose tasks and runs they refer to. An operation that raises is rolled back
  with its transaction. A stored frame was validated when it was written; reading it validates it
  again, which cannot fail.
\<close>

section \<open>Tables\<close>

datatype outbox_status = ObHeld | ObPending | ObSent | ObComplete | ObFailed

datatype inbox_status = IbReceived | IbProcessing | IbComplete

record outbox_record =
  ob_id :: ident
  ob_destination :: ident
  ob_frame :: protocol_frame
  ob_status :: outbox_status
  ob_attempt :: nat
  ob_next_attempt_at :: timestamp
  ob_activated_at :: "timestamp option"
  ob_created_at :: timestamp
  ob_sent_at :: "timestamp option"
  ob_completed_at :: "timestamp option"
  ob_lease_owner :: "ident option"
  ob_lease_expires_at :: "timestamp option"
  ob_revision :: nat

record inbox_key =
  ik_consumer_id :: ident
  ik_protocol :: protocol_id
  ik_exchange_id :: ident

record inbox_record =
  ib_key :: inbox_key
  ib_frame :: protocol_frame
  ib_status :: inbox_status
  ib_received_at :: timestamp
  ib_completed_at :: "timestamp option"
  ib_lease_owner :: "ident option"
  ib_lease_expires_at :: "timestamp option"
  ib_reply_exchange_id :: "ident option"
  ib_revision :: nat

datatype journal_kind = JkSap | JkAap | JkAdp | JkCall

record journal_record =
  jn_task_id :: ident
  jn_run_id :: ident
  jn_ts :: timestamp
  jn_kind :: journal_kind
  jn_id :: ident
  jn_causation_id :: "ident option"
  jn_role_id :: "ident option"
  jn_event :: string
  jn_status :: string
  jn_summary :: string
  jn_frame :: "protocol_frame option"
  jn_session_id :: "ident option"
  jn_duration_ms :: "int option"

record protocol_db =
  pd_coord :: coord_db
  pd_outbox :: "outbox_record list"
  pd_inbox :: "inbox_record list"
  pd_journal :: "(nat \<times> journal_record) list" \<comment> \<open>with the sequence number\<close>
  pd_next_seq :: nat
  pd_outbox_archive :: "outbox_record list"
  pd_inbox_archive :: "inbox_record list"

text \<open>
  The columns \<open>protocol\<close>, \<open>exchange_id\<close>, \<open>task_id\<close> and \<open>run_id\<close> are written from the frame and never
  updated; the records leave them to the frame.
\<close>

abbreviation ob_exchange :: "outbox_record \<Rightarrow> protocol_id \<times> ident" where
  "ob_exchange r \<equiv> (pf_protocol (ob_frame r), pf_exchange_id (ob_frame r))"

datatype protocol_error_kind =
    InvalidFrame
  | EmptyField string
  | FirstAttemptOnly
  | ProtocolConstraint
  | ConflictingInboxFrame ident
  | InboxConflict ident
  | ReplyNotCausedByExchange
  | OutboxActivationConflict ident
  | OutboxConflict ident
  | RetryBeforeNow
  | OutboxNotFound ident
  | InboxNotFound ident
  | ArchiveLimitNotPositive
  | LeaseNotAfterNow
  | ProtocolCommit coord_error
  | OutboxOfOtherExchange ident
  | ResultOfOtherExchange
  | ResultNotAccepted ident string
  | ResultNotClaimed ident
  | ResultAlreadyProcessed ident

definition find_outbox :: "protocol_db \<Rightarrow> ident \<Rightarrow> outbox_record option" where
  "find_outbox db i = find (\<lambda>r. ob_id r = i) (pd_outbox db)"

definition find_inbox :: "protocol_db \<Rightarrow> inbox_key \<Rightarrow> inbox_record option" where
  "find_inbox db k = find (\<lambda>r. ib_key r = k) (pd_inbox db)"

section \<open>Reads\<close>

definition read_outbox :: "outbox_record \<Rightarrow> outbox_record" where
  "read_outbox r = (if 0 < ob_attempt r then r\<lparr>ob_frame := (ob_frame r)\<lparr>pf_attempt := ob_attempt r\<rparr>\<rparr> else r)"

definition get_outbox :: "protocol_db \<Rightarrow> ident \<Rightarrow> outbox_record option" where
  "get_outbox db i = map_option read_outbox (find_outbox db i)"

definition get_inbox :: "protocol_db \<Rightarrow> inbox_key \<Rightarrow> inbox_record option" where
  "get_inbox db k = find_inbox db k"

definition require_outbox :: "protocol_db \<Rightarrow> ident \<Rightarrow> protocol_error_kind + outbox_record" where
  "require_outbox db i = (case get_outbox db i of None \<Rightarrow> Inl (OutboxNotFound i) | Some r \<Rightarrow> Inr r)"

definition require_inbox :: "protocol_db \<Rightarrow> inbox_key \<Rightarrow> protocol_error_kind + inbox_record" where
  "require_inbox db k = (case get_inbox db k of None \<Rightarrow> Inl (InboxNotFound (ik_exchange_id k)) | Some r \<Rightarrow> Inr r)"

definition list_journal :: "protocol_db \<Rightarrow> ident \<Rightarrow> ident \<Rightarrow> nat \<Rightarrow> (nat \<times> journal_record) list" where
  "list_journal db task run after =
    sort_le (\<lambda>a b. fst a \<le> fst b)
      (filter (\<lambda>(n, j). jn_task_id j = task \<and> jn_run_id j = run \<and> after < n) (pd_journal db))"

definition outbox_open :: "outbox_record \<Rightarrow> bool" where
  \<comment> \<open>\<open>status = 'pending' OR (status = 'held' AND activated_at IS NOT NULL)\<close>\<close>
  "outbox_open r \<longleftrightarrow> ob_status r = ObPending \<or> ob_status r = ObHeld \<and> ob_activated_at r \<noteq> None"

definition expired :: "timestamp option \<Rightarrow> timestamp \<Rightarrow> bool" where
  \<comment> \<open>\<open>lease_expires_at <= ?\<close>, which a NULL does not satisfy\<close>
  "expired t now = (case t of None \<Rightarrow> False | Some e \<Rightarrow> e \<le> now)"

definition no_lease_at :: "timestamp option \<Rightarrow> timestamp \<Rightarrow> bool" where
  "no_lease_at t now \<longleftrightarrow> t = None \<or> expired t now"

definition lease_holds :: "timestamp option \<Rightarrow> timestamp \<Rightarrow> bool" where
  \<comment> \<open>\<open>lease_expires_at > ?\<close>\<close>
  "lease_holds t now = (case t of None \<Rightarrow> False | Some e \<Rightarrow> now < e)"

definition list_recoverable_outbox :: "protocol_db \<Rightarrow> timestamp \<Rightarrow> outbox_record list" where
  "list_recoverable_outbox db now =
    map read_outbox (sort_le (\<lambda>a b. ob_next_attempt_at a < ob_next_attempt_at b \<or>
        ob_next_attempt_at a = ob_next_attempt_at b \<and>
          (ob_created_at a < ob_created_at b \<or>
           ob_created_at a = ob_created_at b \<and> code_unit_compare (ob_id a) (ob_id b) \<le> 0))
      (filter (\<lambda>r. outbox_open r \<and> ob_next_attempt_at r \<le> now \<and> no_lease_at (ob_lease_expires_at r) now)
        (pd_outbox db)))"

definition inbox_key_le :: "inbox_key \<Rightarrow> inbox_key \<Rightarrow> bool" where
  "inbox_key_le a b \<longleftrightarrow>
     code_unit_compare (ik_consumer_id a) (ik_consumer_id b) < 0 \<or> ik_consumer_id a = ik_consumer_id b \<and>
       (code_unit_compare (protocol_name (ik_protocol a)) (protocol_name (ik_protocol b)) < 0 \<or>
        ik_protocol a = ik_protocol b \<and> code_unit_compare (ik_exchange_id a) (ik_exchange_id b) \<le> 0)"

definition list_recoverable_inbox :: "protocol_db \<Rightarrow> timestamp \<Rightarrow> inbox_record list" where
  "list_recoverable_inbox db now =
    sort_le (\<lambda>a b. ib_received_at a < ib_received_at b \<or>
        ib_received_at a = ib_received_at b \<and> inbox_key_le (ib_key a) (ib_key b))
      (filter (\<lambda>r. ib_status r = IbReceived \<or> ib_status r = IbProcessing \<and> expired (ib_lease_expires_at r) now)
        (pd_inbox db))"

section \<open>Journal\<close>

definition insert_journal :: "journal_record \<Rightarrow> protocol_db \<Rightarrow> protocol_error_kind + protocol_db" where
  "insert_journal j db =
    (if find_task (pd_coord db) (jn_task_id j) = None \<or> find_run (pd_coord db) (jn_run_id j) = None \<or>
        jn_kind j = JkCall \<and> list_ex (\<lambda>(_, x). jn_kind x = JkCall \<and> jn_id x = jn_id j) (pd_journal db)
     then Inl ProtocolConstraint
     else Inr (db\<lparr>pd_journal := pd_journal db @ [(pd_next_seq db, j)], pd_next_seq := pd_next_seq db + 1\<rparr>))"

definition append_frame ::
  "protocol_frame \<Rightarrow> string \<Rightarrow> string \<Rightarrow> string \<Rightarrow> timestamp \<Rightarrow> protocol_db \<Rightarrow> protocol_error_kind + protocol_db" where
  "append_frame f event status summary now db =
    insert_journal \<lparr>jn_task_id = pf_task_id f, jn_run_id = pf_run_id f, jn_ts = now,
      jn_kind = (case pf_protocol f of SystemAgent \<Rightarrow> JkSap | AgentAgent \<Rightarrow> JkAap | AgentDriver \<Rightarrow> JkAdp),
      jn_id = pf_exchange_id f, jn_causation_id = pf_causation_id f, jn_role_id = pr_role_id (pf_producer f),
      jn_event = event, jn_status = status, jn_summary = summary, jn_frame = Some f,
      jn_session_id = None, jn_duration_ms = None\<rparr> db"

record protocol_call =
  pc_task_id :: ident
  pc_run_id :: ident
  pc_call_id :: ident
  pc_role_id :: "ident option"
  pc_event :: string
  pc_status :: string
  pc_summary :: string
  pc_completed_at :: timestamp
  pc_session_id :: "ident option"
  pc_duration_ms :: "int option"

definition append_call :: "protocol_call \<Rightarrow> protocol_db \<Rightarrow> protocol_error_kind + (nat \<times> journal_record) \<times> protocol_db" where
  "append_call c db =
    bindR (ensure (pc_call_id c \<noteq> []) (EmptyField ''call_id'')) (\<lambda>_.
    bindR (ensure (pc_event c \<noteq> []) (EmptyField ''event'')) (\<lambda>_.
      case find (\<lambda>(_, x). jn_kind x = JkCall \<and> jn_id x = pc_call_id c) (pd_journal db) of
        Some row \<Rightarrow> Inr (row, db)
      | None \<Rightarrow>
          let j = \<lparr>jn_task_id = pc_task_id c, jn_run_id = pc_run_id c, jn_ts = pc_completed_at c, jn_kind = JkCall,
                   jn_id = pc_call_id c, jn_causation_id = None, jn_role_id = pc_role_id c, jn_event = pc_event c,
                   jn_status = pc_status c, jn_summary = pc_summary c, jn_frame = None,
                   jn_session_id = pc_session_id c, jn_duration_ms = pc_duration_ms c\<rparr>
          in bindR (insert_journal j db) (\<lambda>db'. Inr ((pd_next_seq db, j), db'))))"


section \<open>Outbox\<close>

definition update_outbox ::
  "ident \<Rightarrow> (outbox_record \<Rightarrow> bool) \<Rightarrow> (outbox_record \<Rightarrow> outbox_record) \<Rightarrow> protocol_db \<Rightarrow> protocol_db option" where
  \<comment> \<open>\<open>UPDATE outbox SET \<dots> WHERE id = ? AND \<dots>\<close>; \<open>None\<close> when no row changes\<close>
  "update_outbox i P f db =
    (case find_outbox db i of
       Some r \<Rightarrow> if P r then Some (db\<lparr>pd_outbox := map (\<lambda>x. if ob_id x = i then f x else x) (pd_outbox db)\<rparr>) else None
     | None \<Rightarrow> None)"

definition assert_lease :: "ident \<Rightarrow> timestamp \<Rightarrow> timestamp \<Rightarrow> protocol_error_kind + unit" where
  "assert_lease owner now until =
    bindR (ensure (owner \<noteq> []) (EmptyField ''lease owner'')) (\<lambda>_. ensure (now < until) LeaseNotAfterNow)"

definition outbox_status_name :: "outbox_status \<Rightarrow> string" where
  "outbox_status_name s = (case s of ObHeld \<Rightarrow> ''held'' | ObPending \<Rightarrow> ''pending'' | ObSent \<Rightarrow> ''sent''
     | ObComplete \<Rightarrow> ''complete'' | ObFailed \<Rightarrow> ''failed'')"

record enqueue_input =
  en_id :: ident
  en_destination :: ident
  en_frame :: protocol_frame
  en_held :: "bool option" \<comment> \<open>the status, held or pending\<close>
  en_activated_at :: "timestamp option"
  en_next_attempt_at :: "timestamp option"

definition enqueue_outbox ::
  "enqueue_input \<Rightarrow> protocol_db \<Rightarrow> protocol_error_kind + outbox_record \<times> protocol_db" where
  "enqueue_outbox inp db =
    bindR (ensure (frame_ok (en_frame inp)) InvalidFrame) (\<lambda>_.
    bindR (ensure (en_id inp \<noteq> []) (EmptyField ''outbox id'')) (\<lambda>_.
    bindR (ensure (en_destination inp \<noteq> []) (EmptyField ''destination'')) (\<lambda>_.
    bindR (ensure (pf_attempt (en_frame inp) = 1) FirstAttemptOnly) (\<lambda>_.
      let f = en_frame inp; held = or_default (en_held inp) False;
          r = \<lparr>ob_id = en_id inp, ob_destination = en_destination inp, ob_frame = f,
               ob_status = (if held then ObHeld else ObPending), ob_attempt = 0,
               ob_next_attempt_at = or_default (en_next_attempt_at inp) (pf_created_at f),
               ob_activated_at = (if held then en_activated_at inp else None), ob_created_at = pf_created_at f,
               ob_sent_at = None, ob_completed_at = None, ob_lease_owner = None, ob_lease_expires_at = None,
               ob_revision = 1\<rparr>
      in bindR (ensure (find_outbox db (en_id inp) = None \<and> list_all (\<lambda>x. ob_exchange x \<noteq> ob_exchange r) (pd_outbox db) \<and>
             find_task (pd_coord db) (pf_task_id f) \<noteq> None \<and> find_run (pd_coord db) (pf_run_id f) \<noteq> None)
           ProtocolConstraint) (\<lambda>_.
         bindR (append_frame f ''outbox.enqueued'' (outbox_status_name (ob_status r)) (en_destination inp)
             (pf_created_at f) (db\<lparr>pd_outbox := pd_outbox db @ [r]\<rparr>)) (\<lambda>db'.
         bindR (require_outbox db' (en_id inp)) (\<lambda>x. Inr (x, db'))))))))"

definition activate_outbox ::
  "ident \<Rightarrow> nat \<Rightarrow> timestamp \<Rightarrow> protocol_db \<Rightarrow> protocol_error_kind + outbox_record \<times> protocol_db" where
  "activate_outbox i expected now db =
    (case update_outbox i (\<lambda>r. ob_status r = ObHeld \<and> ob_activated_at r = None \<and> ob_revision r = expected)
        (\<lambda>r. r\<lparr>ob_activated_at := Some now, ob_revision := ob_revision r + 1\<rparr>) db of
       None \<Rightarrow> Inl (OutboxActivationConflict i)
     | Some db1 \<Rightarrow>
         bindR (require_outbox db1 i) (\<lambda>r.
         bindR (append_frame (ob_frame r) ''outbox.activated'' (outbox_status_name (ob_status r)) i now db1) (\<lambda>db2.
           Inr (r, db2))))"

definition claim_outbox ::
  "ident \<Rightarrow> ident \<Rightarrow> timestamp \<Rightarrow> timestamp \<Rightarrow> nat \<Rightarrow> protocol_db
    \<Rightarrow> protocol_error_kind + outbox_record option \<times> protocol_db" where
  "claim_outbox i owner now until expected db =
    bindR (assert_lease owner now until) (\<lambda>_.
      case update_outbox i (\<lambda>r. ob_revision r = expected \<and> ob_next_attempt_at r \<le> now \<and> outbox_open r \<and>
            no_lease_at (ob_lease_expires_at r) now)
          (\<lambda>r. r\<lparr>ob_status := ObPending, ob_lease_owner := Some owner, ob_lease_expires_at := Some until,
                  ob_attempt := ob_attempt r + 1, ob_revision := ob_revision r + 1\<rparr>) db of
        None \<Rightarrow> Inr (None, db)
      | Some db1 \<Rightarrow>
          bindR (require_outbox db1 i) (\<lambda>r.
          bindR (append_frame (ob_frame r) ''outbox.claimed'' (outbox_status_name (ob_status r)) owner now db1) (\<lambda>db2.
            Inr (Some r, db2))))"

definition outbox_held_by :: "ident \<Rightarrow> nat \<Rightarrow> timestamp \<Rightarrow> outbox_record \<Rightarrow> bool" where
  \<comment> \<open>the guard of the writes of a lease holder\<close>
  "outbox_held_by owner expected now r \<longleftrightarrow> ob_status r = ObPending \<and> ob_lease_owner r = Some owner \<and>
     ob_revision r = expected \<and> lease_holds (ob_lease_expires_at r) now"

definition renew_outbox_lease ::
  "ident \<Rightarrow> ident \<Rightarrow> nat \<Rightarrow> timestamp \<Rightarrow> timestamp \<Rightarrow> protocol_db
    \<Rightarrow> protocol_error_kind + outbox_record \<times> protocol_db" where
  "renew_outbox_lease i owner expected now until db =
    bindR (assert_lease owner now until) (\<lambda>_.
      case update_outbox i (outbox_held_by owner expected now)
          (\<lambda>r. r\<lparr>ob_lease_expires_at := Some until, ob_revision := ob_revision r + 1\<rparr>) db of
        None \<Rightarrow> Inl (OutboxConflict i)
      | Some db1 \<Rightarrow>
          bindR (require_outbox db1 i) (\<lambda>r.
          bindR (append_frame (ob_frame r) ''outbox.lease_renewed'' (outbox_status_name (ob_status r)) owner now db1)
            (\<lambda>db2. Inr (r, db2))))"

definition update_claimed_outbox ::
  "ident \<Rightarrow> ident \<Rightarrow> nat \<Rightarrow> timestamp \<Rightarrow> outbox_status \<Rightarrow> timestamp option \<Rightarrow> timestamp option \<Rightarrow> protocol_db
    \<Rightarrow> protocol_error_kind + outbox_record \<times> protocol_db" where
  "update_claimed_outbox i owner expected now status completed nxt db =
    (case update_outbox i (outbox_held_by owner expected now)
        (\<lambda>r. r\<lparr>ob_status := status,
                ob_sent_at := (if status = ObSent then completed else ob_sent_at r),
                ob_completed_at := (if status = ObFailed then completed else ob_completed_at r),
                ob_next_attempt_at := or_default nxt (ob_next_attempt_at r),
                ob_lease_owner := None, ob_lease_expires_at := None, ob_revision := ob_revision r + 1\<rparr>) db of
       None \<Rightarrow> Inl (OutboxConflict i)
     | Some db1 \<Rightarrow>
         bindR (require_outbox db1 i) (\<lambda>r.
         bindR (append_frame (ob_frame r)
             (if status = ObPending then ''outbox.retry_scheduled'' else ''outbox.'' @ outbox_status_name status)
             (outbox_status_name status) i now db1) (\<lambda>db2. Inr (r, db2))))"

definition mark_outbox_sent ::
  "ident \<Rightarrow> ident \<Rightarrow> nat \<Rightarrow> timestamp \<Rightarrow> protocol_db \<Rightarrow> protocol_error_kind + outbox_record \<times> protocol_db" where
  "mark_outbox_sent i owner expected now db =
    bindR (require_outbox db i) (\<lambda>current.
      if ob_status current = ObComplete then Inr (current, db)
      else update_claimed_outbox i owner expected now ObSent (Some now) None db)"

definition retry_outbox ::
  "ident \<Rightarrow> ident \<Rightarrow> nat \<Rightarrow> timestamp \<Rightarrow> timestamp \<Rightarrow> protocol_db
    \<Rightarrow> protocol_error_kind + outbox_record \<times> protocol_db" where
  "retry_outbox i owner expected now nxt db =
    bindR (ensure (now \<le> nxt) RetryBeforeNow) (\<lambda>_.
      update_claimed_outbox i owner expected now ObPending None (Some nxt) db)"

definition fail_outbox ::
  "ident \<Rightarrow> ident \<Rightarrow> nat \<Rightarrow> timestamp \<Rightarrow> protocol_db \<Rightarrow> protocol_error_kind + outbox_record \<times> protocol_db" where
  "fail_outbox i owner expected now db = update_claimed_outbox i owner expected now ObFailed (Some now) None db"

section \<open>Inbox\<close>

definition update_inbox ::
  "inbox_key \<Rightarrow> (inbox_record \<Rightarrow> bool) \<Rightarrow> (inbox_record \<Rightarrow> inbox_record) \<Rightarrow> protocol_db \<Rightarrow> protocol_db option" where
  "update_inbox k P f db =
    (case find_inbox db k of
       Some r \<Rightarrow> if P r then Some (db\<lparr>pd_inbox := map (\<lambda>x. if ib_key x = k then f x else x) (pd_inbox db)\<rparr>) else None
     | None \<Rightarrow> None)"

definition same_frame :: "protocol_frame \<Rightarrow> protocol_frame \<Rightarrow> bool" where
  \<comment> \<open>equal up to the number of the attempt\<close>
  "same_frame f g \<longleftrightarrow> f\<lparr>pf_attempt := 1\<rparr> = g\<lparr>pf_attempt := 1\<rparr>"

definition complete_original :: "protocol_frame \<Rightarrow> timestamp \<Rightarrow> protocol_db \<Rightarrow> protocol_error_kind + protocol_db" where
  \<comment> \<open>a receipt completes the exchange that caused it, in whatever state its outbox row is\<close>
  "complete_original f now db =
    (case (is_receipt f, non_empty (pf_causation_id f)) of
       (True, Some cause) \<Rightarrow>
         (case find (\<lambda>r. ob_exchange r = (pf_protocol f, cause) \<and> pf_task_id (ob_frame r) = pf_task_id f)
             (pd_outbox db) of
            None \<Rightarrow> Inr db
          | Some original \<Rightarrow>
              (case update_outbox (ob_id original) (\<lambda>r. ob_status r \<in> {ObHeld, ObPending, ObSent})
                  (\<lambda>r. r\<lparr>ob_status := ObComplete, ob_completed_at := Some now, ob_lease_owner := None,
                          ob_lease_expires_at := None, ob_revision := ob_revision r + 1\<rparr>) db of
                 None \<Rightarrow> Inr db
               | Some db1 \<Rightarrow> append_frame f ''outbox.completed'' ''complete'' (ob_id original) now db1))
     | _ \<Rightarrow> Inr db)"

definition inbox_key_of :: "ident \<Rightarrow> protocol_frame \<Rightarrow> inbox_key" where
  "inbox_key_of consumer f =
    \<lparr>ik_consumer_id = consumer, ik_protocol = pf_protocol f, ik_exchange_id = pf_exchange_id f\<rparr>"

definition receive_inbox ::
  "ident \<Rightarrow> protocol_frame \<Rightarrow> timestamp \<Rightarrow> protocol_db
    \<Rightarrow> protocol_error_kind + (inbox_record \<times> bool) \<times> protocol_db" where
  "receive_inbox consumer f now db =
    bindR (ensure (frame_ok f) InvalidFrame) (\<lambda>_.
    bindR (ensure (consumer \<noteq> []) (EmptyField ''consumer_id'')) (\<lambda>_.
      let k = inbox_key_of consumer f in
      case get_inbox db k of
        Some existing \<Rightarrow>
          (if same_frame (ib_frame existing) f then Inr ((existing, False), db)
           else Inl (ConflictingInboxFrame (pf_exchange_id f)))
      | None \<Rightarrow>
          let r = \<lparr>ib_key = k, ib_frame = f, ib_status = IbReceived, ib_received_at = now, ib_completed_at = None,
                   ib_lease_owner = None, ib_lease_expires_at = None, ib_reply_exchange_id = None, ib_revision = 1\<rparr>
          in bindR (ensure (find_task (pd_coord db) (pf_task_id f) \<noteq> None \<and>
                 find_run (pd_coord db) (pf_run_id f) \<noteq> None) ProtocolConstraint) (\<lambda>_.
             bindR (append_frame f ''inbox.received'' ''received'' consumer now
                 (db\<lparr>pd_inbox := pd_inbox db @ [r]\<rparr>)) (\<lambda>db1.
             bindR (complete_original f now db1) (\<lambda>db2. Inr ((r, True), db2))))))"

definition claim_inbox ::
  "inbox_key \<Rightarrow> ident \<Rightarrow> timestamp \<Rightarrow> timestamp \<Rightarrow> nat \<Rightarrow> protocol_db
    \<Rightarrow> protocol_error_kind + inbox_record option \<times> protocol_db" where
  "claim_inbox k owner now until expected db =
    bindR (assert_lease owner now until) (\<lambda>_.
      case update_inbox k (\<lambda>r. ib_revision r = expected \<and>
            (ib_status r = IbReceived \<or> ib_status r = IbProcessing \<and> expired (ib_lease_expires_at r) now))
          (\<lambda>r. r\<lparr>ib_status := IbProcessing, ib_lease_owner := Some owner, ib_lease_expires_at := Some until,
                  ib_revision := ib_revision r + 1\<rparr>) db of
        None \<Rightarrow> Inr (None, db)
      | Some db1 \<Rightarrow>
          bindR (require_inbox db1 k) (\<lambda>r.
          bindR (append_frame (ib_frame r) ''inbox.claimed'' ''processing'' owner now db1) (\<lambda>db2. Inr (Some r, db2))))"

definition renew_inbox_lease ::
  "inbox_key \<Rightarrow> ident \<Rightarrow> nat \<Rightarrow> timestamp \<Rightarrow> timestamp \<Rightarrow> protocol_db
    \<Rightarrow> protocol_error_kind + inbox_record \<times> protocol_db" where
  "renew_inbox_lease k owner expected now until db =
    bindR (assert_lease owner now until) (\<lambda>_.
      case update_inbox k (\<lambda>r. ib_status r = IbProcessing \<and> ib_lease_owner r = Some owner \<and>
            ib_revision r = expected \<and> lease_holds (ib_lease_expires_at r) now)
          (\<lambda>r. r\<lparr>ib_lease_expires_at := Some until, ib_revision := ib_revision r + 1\<rparr>) db of
        None \<Rightarrow> Inl (InboxConflict (ik_exchange_id k))
      | Some db1 \<Rightarrow>
          bindR (require_inbox db1 k) (\<lambda>r.
          bindR (append_frame (ib_frame r) ''inbox.lease_renewed'' ''processing'' owner now db1) (\<lambda>db2. Inr (r, db2))))"

record complete_input =
  cpl_key :: inbox_key
  cpl_lease_owner :: ident
  cpl_expected_revision :: nat
  cpl_completed_at :: timestamp
  cpl_reply :: "enqueue_input option"

definition completed_row :: "complete_input \<Rightarrow> inbox_record \<Rightarrow> inbox_record" where
  "completed_row inp r =
    r\<lparr>ib_status := IbComplete, ib_completed_at := Some (cpl_completed_at inp), ib_lease_owner := None,
      ib_lease_expires_at := None,
      ib_reply_exchange_id := map_option (\<lambda>reply. pf_exchange_id (en_frame reply)) (cpl_reply inp),
      ib_revision := ib_revision r + 1\<rparr>"

definition complete_inbox ::
  "complete_input \<Rightarrow> protocol_db \<Rightarrow> protocol_error_kind + inbox_record \<times> protocol_db" where
  "complete_inbox inp db =
    bindR (require_inbox db (cpl_key inp)) (\<lambda>current.
    bindR (ensure (ib_status current = IbProcessing \<and> ib_lease_owner current = Some (cpl_lease_owner inp) \<and>
        ib_revision current = cpl_expected_revision inp \<and>
        lease_holds (ib_lease_expires_at current) (cpl_completed_at inp))
      (InboxConflict (ik_exchange_id (cpl_key inp)))) (\<lambda>_.
    bindR (case cpl_reply inp of
        None \<Rightarrow> Inr db
      | Some reply \<Rightarrow>
          let f = en_frame reply in
          bindR (ensure (frame_ok f) InvalidFrame) (\<lambda>_.
          bindR (ensure (is_receipt f \<and> pf_causation_id f = Some (ik_exchange_id (ib_key current)) \<and>
              pf_protocol f = ik_protocol (ib_key current) \<and> pf_task_id f = pf_task_id (ib_frame current))
            ReplyNotCausedByExchange) (\<lambda>_.
          bindR (enqueue_outbox reply db) (\<lambda>(_, db1). Inr db1)))) (\<lambda>db1.
      let db2 = or_default (update_inbox (cpl_key inp) (\<lambda>r. ib_revision r = cpl_expected_revision inp)
            (completed_row inp) db1) db1
      in bindR (append_frame (ib_frame current) ''inbox.completed'' ''complete'' (ik_consumer_id (cpl_key inp))
            (cpl_completed_at inp) db2) (\<lambda>db3.
         bindR (require_inbox db3 (cpl_key inp)) (\<lambda>r. Inr (r, db3))))))"

section \<open>Archive and deletion\<close>

definition settled_before :: "timestamp option \<Rightarrow> timestamp \<Rightarrow> bool" where
  "settled_before t before = (case t of None \<Rightarrow> False | Some c \<Rightarrow> c < before)"

definition archive_settled :: "timestamp \<Rightarrow> int \<Rightarrow> protocol_db \<Rightarrow> protocol_error_kind + (nat \<times> nat) \<times> protocol_db" where
  "archive_settled before limit db =
    bindR (ensure (0 < limit) ArchiveLimitNotPositive) (\<lambda>_.
      let out = map ob_id (take (nat limit) (sort_le (\<lambda>a b. or_default (ob_completed_at a) 0 < or_default (ob_completed_at b) 0 \<or>
              or_default (ob_completed_at a) 0 = or_default (ob_completed_at b) 0 \<and> code_unit_compare (ob_id a) (ob_id b) \<le> 0)
            (filter (\<lambda>r. ob_status r \<in> {ObComplete, ObFailed} \<and> settled_before (ob_completed_at r) before)
              (pd_outbox db))));
          inb = map ib_key (take (nat limit) (sort_le (\<lambda>a b. or_default (ib_completed_at a) 0 < or_default (ib_completed_at b) 0 \<or>
              or_default (ib_completed_at a) 0 = or_default (ib_completed_at b) 0 \<and> inbox_key_le (ib_key a) (ib_key b))
            (filter (\<lambda>r. ib_status r = IbComplete \<and> settled_before (ib_completed_at r) before) (pd_inbox db))))
      in Inr ((length out, length inb),
        db\<lparr>pd_outbox := filter (\<lambda>r. ob_id r \<notin> set out) (pd_outbox db),
           pd_outbox_archive := pd_outbox_archive db @ map (\<lambda>i. the (find_outbox db i)) out,
           pd_inbox := filter (\<lambda>r. ib_key r \<notin> set inb) (pd_inbox db),
           pd_inbox_archive := pd_inbox_archive db @ map (\<lambda>k. the (find_inbox db k)) inb\<rparr>))"

definition commit_protocol_state ::
  "coord_commit \<Rightarrow> protocol_db \<Rightarrow> protocol_error_kind + stored_event list \<times> protocol_db" where
  "commit_protocol_state c db =
    (case commit_state c (pd_coord db) of
       Inl e \<Rightarrow> Inl (ProtocolCommit e) | Inr (evs, co) \<Rightarrow> Inr (evs, db\<lparr>pd_coord := co\<rparr>))"

definition delete_protocol_task :: "ident \<Rightarrow> protocol_db \<Rightarrow> protocol_error_kind + protocol_db" where
  \<comment> \<open>the rows of the task and of its runs go with them\<close>
  "delete_protocol_task task db =
    (case delete_task task (pd_coord db) of
       Inl e \<Rightarrow> Inl (ProtocolCommit e)
     | Inr co \<Rightarrow>
         let kept = (\<lambda>t r. find_task co t \<noteq> None \<and> find_run co r \<noteq> None) in
         Inr (db\<lparr>pd_coord := co,
           pd_outbox := filter (\<lambda>r. kept (pf_task_id (ob_frame r)) (pf_run_id (ob_frame r))) (pd_outbox db),
           pd_inbox := filter (\<lambda>r. kept (pf_task_id (ib_frame r)) (pf_run_id (ib_frame r))) (pd_inbox db),
           pd_journal := filter (\<lambda>(_, j). kept (jn_task_id j) (jn_run_id j)) (pd_journal db)\<rparr>))"

definition empty_protocol_db :: protocol_db where
  "empty_protocol_db = \<lparr>pd_coord = empty_coord_db, pd_outbox = [], pd_inbox = [], pd_journal = [], pd_next_seq = 1,
     pd_outbox_archive = [], pd_inbox_archive = []\<rparr>"

end
