(* ===== verification/ProtocolInvariant.thy ===== *)
theory ProtocolInvariant
  imports ProtocolStore TaskInvariant
begin

text \<open>
  What the delivery tables keep: the operations of the store as the instructions of a run, the
  effect of each on the tables, the invariant of rows, keys, references and journal, and the growth
  of revisions.
\<close>

section \<open>Effects\<close>

lemma find_map_at:
  assumes "\<And>x. key (f x) = key x"
  shows "find (\<lambda>x. key x = k) (map (\<lambda>x. if key x = i then f x else x) xs) =
    map_option (\<lambda>x. if key x = i then f x else x) (find (\<lambda>x. key x = k) xs)"
  by (induction xs) (auto simp: assms)

lemma find_append_one:
  "find P (xs @ [x]) = (case find P xs of None \<Rightarrow> if P x then Some x else None | Some y \<Rightarrow> Some y)"
  by (induction xs) auto

lemma find_outbox_Some: "find_outbox db i = Some r \<Longrightarrow> r \<in> set (pd_outbox db) \<and> ob_id r = i"
  by (auto simp: find_outbox_def find_Some_iff)

lemma find_inbox_Some: "find_inbox db k = Some r \<Longrightarrow> r \<in> set (pd_inbox db) \<and> ib_key r = k"
  by (auto simp: find_inbox_def find_Some_iff)

lemma read_outbox_simps [simp]:
  "ob_id (read_outbox r) = ob_id r" "ob_status (read_outbox r) = ob_status r"
  "ob_revision (read_outbox r) = ob_revision r" "ob_attempt (read_outbox r) = ob_attempt r"
  "ob_lease_owner (read_outbox r) = ob_lease_owner r" "ob_lease_expires_at (read_outbox r) = ob_lease_expires_at r"
  "ob_activated_at (read_outbox r) = ob_activated_at r" "ob_next_attempt_at (read_outbox r) = ob_next_attempt_at r"
  "ob_exchange (read_outbox r) = ob_exchange r" "pf_task_id (ob_frame (read_outbox r)) = pf_task_id (ob_frame r)"
  "pf_run_id (ob_frame (read_outbox r)) = pf_run_id (ob_frame r)"
  by (simp_all add: read_outbox_def)

lemma find_updated_outbox:
  "update_outbox i P f db = Some db' \<Longrightarrow> (\<And>x. ob_id (f x) = ob_id x) \<Longrightarrow>
    find_outbox db' j = map_option (\<lambda>x. if j = i then f x else x) (find_outbox db j)"
  by (cases "find_outbox db i")
    (auto simp: update_outbox_def find_outbox_def find_map_at split: if_splits intro!: option.map_cong
      dest!: find_key_Some[of ob_id])

lemma find_updated_inbox:
  "update_inbox k P g db = Some db' \<Longrightarrow> (\<And>x. ib_key (g x) = ib_key x) \<Longrightarrow>
    find_inbox db' l = map_option (\<lambda>x. if l = k then g x else x) (find_inbox db l)"
  by (cases "find_inbox db k")
    (auto simp: update_inbox_def find_inbox_def find_map_at split: if_splits intro!: option.map_cong
      dest!: find_key_Some[of ib_key])

lemma update_outbox_frame:
  assumes "update_outbox i P f db = Some db'"
  shows "pd_coord db' = pd_coord db" "pd_inbox db' = pd_inbox db" "pd_journal db' = pd_journal db"
    "pd_next_seq db' = pd_next_seq db" "find_inbox db' k = find_inbox db k"
    "pd_outbox_archive db' = pd_outbox_archive db" "pd_inbox_archive db' = pd_inbox_archive db"
  using assms by (auto simp: update_outbox_def find_inbox_def split: option.splits if_splits)

lemma update_inbox_frame:
  assumes "update_inbox i P f db = Some db'"
  shows "pd_coord db' = pd_coord db" "pd_outbox db' = pd_outbox db" "pd_journal db' = pd_journal db"
    "pd_next_seq db' = pd_next_seq db" "find_outbox db' k = find_outbox db k"
    "pd_outbox_archive db' = pd_outbox_archive db" "pd_inbox_archive db' = pd_inbox_archive db"
  using assms by (auto simp: update_inbox_def find_outbox_def split: option.splits if_splits)

lemma update_outbox_None:
  "update_outbox i P f db = None \<longleftrightarrow> (\<forall>r. find_outbox db i = Some r \<longrightarrow> \<not> P r)"
  by (auto simp: update_outbox_def split: option.splits)

lemma update_inbox_None:
  "update_inbox k P g db = None \<longleftrightarrow> (\<forall>r. find_inbox db k = Some r \<longrightarrow> \<not> P r)"
  by (auto simp: update_inbox_def split: option.splits)

lemma update_outbox_Some:
  "update_outbox i P f db = Some db' \<Longrightarrow> \<exists>r. find_outbox db i = Some r \<and> P r"
  by (auto simp: update_outbox_def split: option.splits if_splits)

lemma update_inbox_Some:
  "update_inbox k P g db = Some db' \<Longrightarrow> \<exists>r. find_inbox db k = Some r \<and> P r"
  by (auto simp: update_inbox_def split: option.splits if_splits)

lemma append_frame_frame:
  assumes "append_frame f event status summary now db = Inr db'"
  shows "pd_coord db' = pd_coord db" "pd_outbox db' = pd_outbox db" "pd_inbox db' = pd_inbox db"
    "find_inbox db' k = find_inbox db k" "find_outbox db' i = find_outbox db i"
  using assms by (auto simp: append_frame_def insert_journal_def find_inbox_def find_outbox_def split: if_splits)

lemma require_outbox_Inr: "require_outbox db i = Inr x \<longleftrightarrow> (\<exists>r. find_outbox db i = Some r \<and> x = read_outbox r)"
  by (auto simp: require_outbox_def get_outbox_def split: option.splits)

lemma require_inbox_Inr: "require_inbox db k = Inr x \<longleftrightarrow> find_inbox db k = Some x"
  by (auto simp: require_inbox_def get_inbox_def split: option.splits)

lemma assert_lease_Inr [simp]: "assert_lease owner now until = Inr u \<longleftrightarrow> owner \<noteq> [] \<and> now < until"
  by (auto simp: assert_lease_def bindR_eq_Inr_conv)

section \<open>Operations\<close>

datatype proto_op =
    POCommit coord_commit
  | PODelete ident
  | POEnqueue enqueue_input
  | POActivate ident nat timestamp
  | POClaimOut ident ident timestamp timestamp nat
  | PORenewOut ident ident nat timestamp timestamp
  | POSent ident ident nat timestamp
  | PORetry ident ident nat timestamp timestamp
  | POFail ident ident nat timestamp
  | POReceive ident protocol_frame timestamp
  | POClaimIn inbox_key ident timestamp timestamp nat
  | PORenewIn inbox_key ident nat timestamp timestamp
  | POComplete complete_input
  | POCall protocol_call
  | POArchive timestamp int

fun proto_apply :: "proto_op \<Rightarrow> protocol_db \<Rightarrow> protocol_error_kind + protocol_db" where
  "proto_apply (POCommit c) db = map_sum id snd (commit_protocol_state c db)"
| "proto_apply (PODelete t) db = delete_protocol_task t db"
| "proto_apply (POEnqueue inp) db = map_sum id snd (enqueue_outbox inp db)"
| "proto_apply (POActivate i n now) db = map_sum id snd (activate_outbox i n now db)"
| "proto_apply (POClaimOut i w now until n) db = map_sum id snd (claim_outbox i w now until n db)"
| "proto_apply (PORenewOut i w n now until) db = map_sum id snd (renew_outbox_lease i w n now until db)"
| "proto_apply (POSent i w n now) db = map_sum id snd (mark_outbox_sent i w n now db)"
| "proto_apply (PORetry i w n now nxt) db = map_sum id snd (retry_outbox i w n now nxt db)"
| "proto_apply (POFail i w n now) db = map_sum id snd (fail_outbox i w n now db)"
| "proto_apply (POReceive c f now) db = map_sum id snd (receive_inbox c f now db)"
| "proto_apply (POClaimIn k w now until n) db = map_sum id snd (claim_inbox k w now until n db)"
| "proto_apply (PORenewIn k w n now until) db = map_sum id snd (renew_inbox_lease k w n now until db)"
| "proto_apply (POComplete inp) db = map_sum id snd (complete_inbox inp db)"
| "proto_apply (POCall c) db = map_sum id snd (append_call c db)"
| "proto_apply (POArchive before limit) db = map_sum id snd (archive_settled before limit db)"

definition proto_step :: "proto_op \<Rightarrow> protocol_db \<Rightarrow> protocol_db" where
  \<comment> \<open>an operation that raises is rolled back\<close>
  "proto_step op db = (case proto_apply op db of Inl _ \<Rightarrow> db | Inr db' \<Rightarrow> db')"

definition proto_run :: "proto_op list \<Rightarrow> protocol_db \<Rightarrow> protocol_db" where
  "proto_run ops db = fold proto_step ops db"

lemma proto_run_simps [simp]:
  "proto_run [] db = db" "proto_run (op # ops) db = proto_run ops (proto_step op db)"
  by (simp_all add: proto_run_def)

lemma map_sum_Inr [simp]: "map_sum id snd m = Inr y \<longleftrightarrow> (\<exists>x. m = Inr (x, y))"
  by (cases m) (auto simp: eq_snd_iff)

lemma proto_run_keeps:
  assumes "\<And>op db db'. op \<in> set ops \<Longrightarrow> I db \<Longrightarrow> proto_apply op db = Inr db' \<Longrightarrow> I db'" and "I db"
  shows "I (proto_run ops db)"
  using assms
proof (induction ops arbitrary: db)
  case (Cons op ops)
  from Cons.prems have "I (proto_step op db)"
    by (auto simp: proto_step_def split: sum.splits)
  then show ?case
    unfolding proto_run_simps by (rule Cons.IH[rotated], blast intro: Cons.prems(1) list.set_intros)
qed simp

section \<open>The invariant\<close>

definition outbox_ok :: "outbox_record \<Rightarrow> bool" where
  "outbox_ok r \<longleftrightarrow> frame_ok (ob_frame r) \<and> pf_attempt (ob_frame r) = 1 \<and> ob_id r \<noteq> [] \<and> ob_destination r \<noteq> [] \<and>
     (ob_lease_owner r = None \<longleftrightarrow> ob_lease_expires_at r = None) \<and>
     (ob_lease_owner r \<noteq> None \<longrightarrow> ob_status r = ObPending \<and> 0 < ob_attempt r) \<and>
     (ob_completed_at r \<noteq> None \<longleftrightarrow> ob_status r \<in> {ObComplete, ObFailed}) \<and>
     (ob_sent_at r \<noteq> None \<longrightarrow> ob_status r \<in> {ObSent, ObComplete}) \<and>
     (ob_status r = ObSent \<longrightarrow> ob_sent_at r \<noteq> None) \<and>
     (ob_status r = ObHeld \<longrightarrow> ob_attempt r = 0) \<and> ob_attempt r < ob_revision r"

definition inbox_ok :: "inbox_record \<Rightarrow> bool" where
  "inbox_ok r \<longleftrightarrow> frame_ok (ib_frame r) \<and> ib_key r = inbox_key_of (ik_consumer_id (ib_key r)) (ib_frame r) \<and>
     ik_consumer_id (ib_key r) \<noteq> [] \<and>
     (ib_lease_owner r \<noteq> None \<longleftrightarrow> ib_status r = IbProcessing) \<and>
     (ib_lease_expires_at r \<noteq> None \<longleftrightarrow> ib_status r = IbProcessing) \<and>
     (ib_completed_at r \<noteq> None \<longleftrightarrow> ib_status r = IbComplete) \<and>
     (ib_reply_exchange_id r \<noteq> None \<longrightarrow> ib_status r = IbComplete) \<and> 0 < ib_revision r"

definition proto_keys_ok :: "protocol_db \<Rightarrow> bool" where
  "proto_keys_ok db \<longleftrightarrow> distinct (map ob_id (pd_outbox db)) \<and> distinct (map ob_exchange (pd_outbox db)) \<and>
     distinct (map ib_key (pd_inbox db))"

definition proto_rows_ok :: "protocol_db \<Rightarrow> bool" where
  "proto_rows_ok db \<longleftrightarrow> list_all outbox_ok (pd_outbox db) \<and> list_all inbox_ok (pd_inbox db) \<and>
     list_all (\<lambda>r. outbox_ok r \<and> ob_completed_at r \<noteq> None) (pd_outbox_archive db) \<and>
     list_all (\<lambda>r. inbox_ok r \<and> ib_status r = IbComplete) (pd_inbox_archive db)"

definition refers :: "coord_db \<Rightarrow> ident \<Rightarrow> ident \<Rightarrow> bool" where
  \<comment> \<open>the foreign keys of a row\<close>
  "refers co t r \<longleftrightarrow> find_task co t \<noteq> None \<and> find_run co r \<noteq> None"

definition proto_refs_ok :: "protocol_db \<Rightarrow> bool" where
  "proto_refs_ok db \<longleftrightarrow>
     list_all (\<lambda>r. refers (pd_coord db) (pf_task_id (ob_frame r)) (pf_run_id (ob_frame r))) (pd_outbox db) \<and>
     list_all (\<lambda>r. refers (pd_coord db) (pf_task_id (ib_frame r)) (pf_run_id (ib_frame r))) (pd_inbox db) \<and>
     list_all (\<lambda>(_, j). refers (pd_coord db) (jn_task_id j) (jn_run_id j)) (pd_journal db)"

definition journal_ok :: "protocol_db \<Rightarrow> bool" where
  "journal_ok db \<longleftrightarrow> sorted_wrt (<) (map fst (pd_journal db)) \<and> (\<forall>(n, _) \<in> set (pd_journal db). n < pd_next_seq db) \<and>
     distinct (map (jn_id \<circ> snd) (filter (\<lambda>(_, j). jn_kind j = JkCall) (pd_journal db)))"

definition proto_inv :: "protocol_db \<Rightarrow> bool" where
  "proto_inv db \<longleftrightarrow> proto_keys_ok db \<and> proto_rows_ok db \<and> proto_refs_ok db \<and> journal_ok db"

lemma proto_inv_empty: "proto_inv empty_protocol_db"
  by (simp add: proto_inv_def proto_keys_ok_def proto_rows_ok_def proto_refs_ok_def journal_ok_def empty_protocol_db_def)

lemma journal_ok_insert:
  "insert_journal j db = Inr db' \<Longrightarrow> journal_ok db \<Longrightarrow> journal_ok db'"
  by (force simp: insert_journal_def journal_ok_def sorted_wrt_append list_ex_iff split: if_splits)

lemma inv_insert_journal:
  assumes "insert_journal j db = Inr db'" and "proto_inv db"
  shows "proto_inv db'"
proof -
  have "journal_ok db'" using assms journal_ok_insert by (simp add: proto_inv_def)
  with assms show ?thesis
    by (auto simp: proto_inv_def proto_keys_ok_def proto_rows_ok_def proto_refs_ok_def insert_journal_def refers_def
        split: if_splits)
qed

lemma inv_append_frame: "append_frame f event status summary now db = Inr db' \<Longrightarrow> proto_inv db \<Longrightarrow> proto_inv db'"
  unfolding append_frame_def by (rule inv_insert_journal)

lemma map_at_key:
  assumes "distinct (map key xs)" and "find (\<lambda>x. key x = i) xs = Some r"
  shows "x \<in> set xs \<Longrightarrow> key x = i \<longleftrightarrow> x = r"
  using assms find_key_Some[OF assms(2)] by (auto simp: distinct_map inj_on_def)

lemma inv_update_outbox:
  assumes inv: "proto_inv db" and u: "update_outbox i P f db = Some db'"
    and ok: "\<And>r. P r \<Longrightarrow> outbox_ok r \<Longrightarrow> outbox_ok (f r)"
    and same: "\<And>r. ob_id (f r) = ob_id r" "\<And>r. ob_frame (f r) = ob_frame r"
  shows "proto_inv db'"
proof -
  from u obtain r where r: "find_outbox db i = Some r" "P r"
    and db': "db' = db\<lparr>pd_outbox := map (\<lambda>x. if ob_id x = i then f x else x) (pd_outbox db)\<rparr>"
    by (auto simp: update_outbox_def split: option.splits if_splits)
  have at_i: "x = r" if "x \<in> set (pd_outbox db)" "ob_id x = i" for x
    using map_at_key[of ob_id "pd_outbox db" i r x] inv r that by (simp add: proto_inv_def proto_keys_ok_def find_outbox_def)
  have keys: "map ob_id (pd_outbox db') = map ob_id (pd_outbox db)" "map ob_exchange (pd_outbox db') = map ob_exchange (pd_outbox db)"
    by (simp_all add: db' same)
  have "proto_keys_ok db'"
    using inv unfolding proto_keys_ok_def keys by (simp add: db' proto_inv_def proto_keys_ok_def)
  moreover have "list_all outbox_ok (pd_outbox db')"
    using inv at_i r(2) ok by (auto simp: db' proto_inv_def proto_rows_ok_def list_all_iff)
  moreover have "list_all (\<lambda>r. refers (pd_coord db') (pf_task_id (ob_frame r)) (pf_run_id (ob_frame r))) (pd_outbox db')"
    using inv by (auto simp: db' proto_inv_def proto_refs_ok_def list_all_iff same)
  ultimately show ?thesis
    using inv by (simp add: db' proto_inv_def proto_rows_ok_def proto_refs_ok_def journal_ok_def)
qed

lemma inv_update_inbox:
  assumes inv: "proto_inv db" and u: "update_inbox k P g db = Some db'"
    and ok: "\<And>r. P r \<Longrightarrow> inbox_ok r \<Longrightarrow> inbox_ok (g r)"
    and same: "\<And>r. ib_key (g r) = ib_key r" "\<And>r. ib_frame (g r) = ib_frame r"
  shows "proto_inv db'"
proof -
  from u obtain r where r: "find_inbox db k = Some r" "P r"
    and db': "db' = db\<lparr>pd_inbox := map (\<lambda>x. if ib_key x = k then g x else x) (pd_inbox db)\<rparr>"
    by (auto simp: update_inbox_def split: option.splits if_splits)
  have at_k: "x = r" if "x \<in> set (pd_inbox db)" "ib_key x = k" for x
    using map_at_key[of ib_key "pd_inbox db" k r x] inv r that by (simp add: proto_inv_def proto_keys_ok_def find_inbox_def)
  have keys: "map ib_key (pd_inbox db') = map ib_key (pd_inbox db)"
    by (simp add: db' same)
  have "proto_keys_ok db'"
    using inv unfolding proto_keys_ok_def keys by (simp add: db' proto_inv_def proto_keys_ok_def)
  moreover have "list_all inbox_ok (pd_inbox db')"
    using inv at_k r(2) ok by (auto simp: db' proto_inv_def proto_rows_ok_def list_all_iff)
  moreover have "list_all (\<lambda>r. refers (pd_coord db') (pf_task_id (ib_frame r)) (pf_run_id (ib_frame r))) (pd_inbox db')"
    using inv by (auto simp: db' proto_inv_def proto_refs_ok_def list_all_iff same)
  ultimately show ?thesis
    using inv by (simp add: db' proto_inv_def proto_rows_ok_def proto_refs_ok_def journal_ok_def)
qed

lemma outbox_written_keeps:
  assumes "proto_inv db" and "update_outbox i P f db = Some db1"
    and "append_frame g event status summary now db1 = Inr db'"
    and "\<And>r. P r \<Longrightarrow> outbox_ok r \<Longrightarrow> outbox_ok (f r)"
    and "\<And>r. ob_id (f r) = ob_id r" "\<And>r. ob_frame (f r) = ob_frame r"
  shows "proto_inv db'"
  using inv_append_frame[OF assms(3) inv_update_outbox[OF assms(1,2,4-6)]] .

lemma inbox_written_keeps:
  assumes "proto_inv db" and "update_inbox k P f db = Some db1"
    and "append_frame g event status summary now db1 = Inr db'"
    and "\<And>r. P r \<Longrightarrow> inbox_ok r \<Longrightarrow> inbox_ok (f r)"
    and "\<And>r. ib_key (f r) = ib_key r" "\<And>r. ib_frame (f r) = ib_frame r"
  shows "proto_inv db'"
  using inv_append_frame[OF assms(3) inv_update_inbox[OF assms(1,2,4-6)]] .

lemma inv_new_outbox:
  assumes "proto_inv db" and "outbox_ok r" and "find_outbox db (ob_id r) = None"
    and "list_all (\<lambda>x. ob_exchange x \<noteq> ob_exchange r) (pd_outbox db)"
    and "refers (pd_coord db) (pf_task_id (ob_frame r)) (pf_run_id (ob_frame r))"
  shows "proto_inv (db\<lparr>pd_outbox := pd_outbox db @ [r]\<rparr>)"
  using assms by (auto simp: proto_inv_def proto_keys_ok_def proto_rows_ok_def proto_refs_ok_def journal_ok_def
      find_outbox_def find_key_None list_all_iff)

lemma inv_new_inbox:
  assumes "proto_inv db" and "inbox_ok r" and "find_inbox db (ib_key r) = None"
    and "refers (pd_coord db) (pf_task_id (ib_frame r)) (pf_run_id (ib_frame r))"
  shows "proto_inv (db\<lparr>pd_inbox := pd_inbox db @ [r]\<rparr>)"
  using assms by (auto simp: proto_inv_def proto_keys_ok_def proto_rows_ok_def proto_refs_ok_def journal_ok_def
      find_inbox_def find_key_None list_all_iff)

lemma enqueue_keeps: "proto_inv db \<Longrightarrow> enqueue_outbox inp db = Inr (x, db') \<Longrightarrow> proto_inv db'"
  by (auto simp: enqueue_outbox_def bindR_eq_Inr_conv Let_def outbox_ok_def refers_def simp del: not_None_eq
      elim!: inv_append_frame intro!: inv_new_outbox)

lemma activate_keeps: "proto_inv db \<Longrightarrow> activate_outbox i n now db = Inr (x, db') \<Longrightarrow> proto_inv db'"
  by (auto simp: activate_outbox_def bindR_eq_Inr_conv split: option.splits elim!: outbox_written_keeps)
    (auto simp: outbox_ok_def)

lemma claim_outbox_keeps: "proto_inv db \<Longrightarrow> claim_outbox i w now until n db = Inr (x, db') \<Longrightarrow> proto_inv db'"
  by (auto simp: claim_outbox_def bindR_eq_Inr_conv split: option.splits elim!: outbox_written_keeps)
    (auto simp: outbox_ok_def outbox_open_def)

lemma renew_outbox_keeps: "proto_inv db \<Longrightarrow> renew_outbox_lease i w n now until db = Inr (x, db') \<Longrightarrow> proto_inv db'"
  by (auto simp: renew_outbox_lease_def bindR_eq_Inr_conv split: option.splits elim!: outbox_written_keeps)
    (auto simp: outbox_ok_def outbox_held_by_def)

lemma update_claimed_keeps:
  assumes "proto_inv db" and "update_claimed_outbox i w n now status completed nxt db = Inr (x, db')"
    and "status = ObPending \<and> completed = None \<or> status \<in> {ObSent, ObFailed} \<and> completed \<noteq> None"
  shows "proto_inv db'"
  using assms
  by (auto simp: update_claimed_outbox_def bindR_eq_Inr_conv split: option.splits elim!: outbox_written_keeps)
    (auto simp: outbox_ok_def outbox_held_by_def)

lemma sent_keeps: "proto_inv db \<Longrightarrow> mark_outbox_sent i w n now db = Inr (x, db') \<Longrightarrow> proto_inv db'"
  by (auto simp: mark_outbox_sent_def bindR_eq_Inr_conv split: if_splits intro: update_claimed_keeps)

lemma retry_keeps: "proto_inv db \<Longrightarrow> retry_outbox i w n now nxt db = Inr (x, db') \<Longrightarrow> proto_inv db'"
  by (auto simp: retry_outbox_def bindR_eq_Inr_conv intro: update_claimed_keeps)

lemma fail_keeps: "proto_inv db \<Longrightarrow> fail_outbox i w n now db = Inr (x, db') \<Longrightarrow> proto_inv db'"
  by (auto simp: fail_outbox_def intro: update_claimed_keeps)

lemma complete_original_keeps: "proto_inv db \<Longrightarrow> complete_original f now db = Inr db' \<Longrightarrow> proto_inv db'"
  by (auto simp: complete_original_def split: option.splits bool.splits elim!: outbox_written_keeps)
    (auto simp: outbox_ok_def)

lemma receive_keeps: "proto_inv db \<Longrightarrow> receive_inbox c f now db = Inr (x, db') \<Longrightarrow> proto_inv db'"
  by (auto simp: receive_inbox_def get_inbox_def bindR_eq_Inr_conv Let_def inbox_ok_def inbox_key_of_def refers_def
      simp del: not_None_eq split: option.splits if_splits elim!: complete_original_keeps[rotated] inv_append_frame
      intro!: inv_new_inbox)

lemma claim_inbox_keeps: "proto_inv db \<Longrightarrow> claim_inbox k w now until n db = Inr (x, db') \<Longrightarrow> proto_inv db'"
  by (auto simp: claim_inbox_def bindR_eq_Inr_conv split: option.splits elim!: inbox_written_keeps)
    (auto simp: inbox_ok_def)

lemma renew_inbox_keeps: "proto_inv db \<Longrightarrow> renew_inbox_lease k w n now until db = Inr (x, db') \<Longrightarrow> proto_inv db'"
  by (auto simp: renew_inbox_lease_def bindR_eq_Inr_conv split: option.splits elim!: inbox_written_keeps)
    (auto simp: inbox_ok_def)

lemma completed_row_simps [simp]:
  "ib_key (completed_row inp r) = ib_key r" "ib_frame (completed_row inp r) = ib_frame r"
  "ib_status (completed_row inp r) = IbComplete" "ib_revision (completed_row inp r) = Suc (ib_revision r)"
  "ib_lease_owner (completed_row inp r) = None" "ib_lease_expires_at (completed_row inp r) = None"
  by (simp_all add: completed_row_def)

definition reply_of :: "inbox_record \<Rightarrow> enqueue_input \<Rightarrow> bool" where
  \<comment> \<open>the reply is a receipt caused by the exchange\<close>
  "reply_of r reply \<longleftrightarrow> is_receipt (en_frame reply) \<and> pf_causation_id (en_frame reply) = Some (ik_exchange_id (ib_key r)) \<and>
     pf_protocol (en_frame reply) = ik_protocol (ib_key r) \<and> pf_task_id (en_frame reply) = pf_task_id (ib_frame r)"

definition claimed_by :: "ident \<Rightarrow> nat \<Rightarrow> timestamp \<Rightarrow> inbox_record \<Rightarrow> bool" where
  "claimed_by owner n now r \<longleftrightarrow> ib_status r = IbProcessing \<and> ib_lease_owner r = Some owner \<and> ib_revision r = n \<and>
     lease_holds (ib_lease_expires_at r) now"

lemma complete_inbox_Inr:
  assumes "complete_inbox inp db = Inr (x, db')"
  shows "\<exists>r db1 db2. find_inbox db (cpl_key inp) = Some r \<and>
    claimed_by (cpl_lease_owner inp) (cpl_expected_revision inp) (cpl_completed_at inp) r \<and>
    (case cpl_reply inp of None \<Rightarrow> db1 = db
     | Some reply \<Rightarrow> reply_of r reply \<and> (\<exists>y. enqueue_outbox reply db = Inr (y, db1))) \<and>
    db2 = or_default (update_inbox (cpl_key inp) (\<lambda>r. ib_revision r = cpl_expected_revision inp) (completed_row inp) db1) db1 \<and>
    append_frame (ib_frame r) ''inbox.completed'' ''complete'' (ik_consumer_id (cpl_key inp)) (cpl_completed_at inp) db2 = Inr db' \<and>
    find_inbox db' (cpl_key inp) = Some x"
  using assms
  by (cases "cpl_reply inp")
    (auto simp: complete_inbox_def bindR_eq_Inr_conv Let_def reply_of_def claimed_by_def require_inbox_Inr)

lemma complete_inbox_keeps:
  assumes "proto_inv db" and "complete_inbox inp db = Inr (x, db')"
  shows "proto_inv db'"
proof -
  from complete_inbox_Inr[OF assms(2)] obtain r db1 db2 where
    db1: "case cpl_reply inp of None \<Rightarrow> db1 = db
     | Some reply \<Rightarrow> reply_of r reply \<and> (\<exists>y. enqueue_outbox reply db = Inr (y, db1))"
    and db2: "db2 = or_default (update_inbox (cpl_key inp) (\<lambda>r. ib_revision r = cpl_expected_revision inp) (completed_row inp) db1) db1"
    and a: "append_frame (ib_frame r) ''inbox.completed'' ''complete'' (ik_consumer_id (cpl_key inp)) (cpl_completed_at inp) db2 = Inr db'"
    by blast
  from db1 assms(1) have "proto_inv db1"
    by (auto intro: enqueue_keeps split: option.splits)
  then have "proto_inv db2"
    by (cases "update_inbox (cpl_key inp) (\<lambda>r. ib_revision r = cpl_expected_revision inp) (completed_row inp) db1")
      (auto simp: db2 elim!: inv_update_inbox, auto simp: inbox_ok_def completed_row_def)
  with a show ?thesis by (rule inv_append_frame)
qed

lemma call_keeps: "proto_inv db \<Longrightarrow> append_call c db = Inr (x, db') \<Longrightarrow> proto_inv db'"
  by (auto simp: append_call_def bindR_eq_Inr_conv Let_def split: option.splits intro: inv_insert_journal)

lemma refers_commit:
  "commit_state c db = Inr (new, db') \<Longrightarrow> refers db t r \<Longrightarrow> refers db' t r"
  by (auto dest!: commit_state_Inr simp: refers_def find_task_committed find_run_committed split: option.split)

lemma commit_refs:
  "commit_state c (pd_coord db) = Inr (new, co) \<Longrightarrow> proto_refs_ok db \<Longrightarrow> proto_refs_ok (db\<lparr>pd_coord := co\<rparr>)"
  by (auto simp: proto_refs_ok_def elim!: list.pred_mono_strong refers_commit)

lemma commit_keeps: "proto_inv db \<Longrightarrow> commit_protocol_state c db = Inr (x, db') \<Longrightarrow> proto_inv db'"
  by (auto simp: commit_protocol_state_def proto_inv_def commit_refs split: sum.splits)
    (simp_all add: proto_keys_ok_def proto_rows_ok_def journal_ok_def)

lemma journal_ok_filtered:
  assumes "journal_ok db" and "pd_journal db' = filter R (pd_journal db)" and "pd_next_seq db' = pd_next_seq db"
  shows "journal_ok db'"
proof -
  let ?call = "\<lambda>(_, j). jn_kind j = JkCall"
  have "filter ?call (filter R (pd_journal db)) = filter R (filter ?call (pd_journal db))"
    unfolding filter_filter by (rule filter_cong) auto
  then have "distinct (map (jn_id \<circ> snd) (filter ?call (pd_journal db')))"
    using assms(1,2) distinct_map_filter_key[of "jn_id \<circ> snd" "filter ?call (pd_journal db)" R]
    by (simp add: journal_ok_def)
  then show ?thesis
    using assms by (auto simp: journal_ok_def sorted_wrt_map intro: sorted_wrt_filter)
qed

lemma inv_filtered:
  assumes "proto_inv db"
    and "pd_outbox db' = filter P (pd_outbox db)" "pd_inbox db' = filter Q (pd_inbox db)" "pd_journal db' = filter R (pd_journal db)"
    and "pd_next_seq db' = pd_next_seq db"
    and "proto_rows_ok db'" "proto_refs_ok db'"
  shows "proto_inv db'"
  using assms journal_ok_filtered[OF _ assms(4,5)]
  by (simp add: proto_inv_def proto_keys_ok_def distinct_map_filter_key)

lemma delete_keeps:
  assumes "proto_inv db" and "delete_protocol_task t db = Inr db'"
  shows "proto_inv db'"
proof -
  from assms(2) obtain co where db': "db' = db\<lparr>pd_coord := co,
      pd_outbox := filter (\<lambda>r. refers co (pf_task_id (ob_frame r)) (pf_run_id (ob_frame r))) (pd_outbox db),
      pd_inbox := filter (\<lambda>r. refers co (pf_task_id (ib_frame r)) (pf_run_id (ib_frame r))) (pd_inbox db),
      pd_journal := filter (\<lambda>(_, j). refers co (jn_task_id j) (jn_run_id j)) (pd_journal db)\<rparr>"
    by (auto simp: delete_protocol_task_def Let_def refers_def simp del: not_None_eq split: sum.splits)
  show ?thesis
    by (rule inv_filtered[OF assms(1)], simp_all add: db')
      (use assms(1) in \<open>auto simp: proto_inv_def proto_rows_ok_def proto_refs_ok_def list_all_iff\<close>)
qed

lemma archived_rows:
  assumes "distinct (map key xs)" and "x \<in> set ys" and "\<And>x. x \<in> set ys \<Longrightarrow> x \<in> set xs"
  shows "the (find (\<lambda>y. key y = key x) xs) = x"
  using assms find_unique_key[OF assms(1)] by auto

lemma taken_sorted: "x \<in> set (take n (sort_le le (filter P xs))) \<Longrightarrow> x \<in> set xs \<and> P x"
  by (auto dest: in_set_takeD)

lemma archive_keeps:
  assumes "proto_inv db" and "archive_settled before limit db = Inr (x, db')"
  shows "proto_inv db'"
proof -
  from assms(2) obtain out inb le le' P Q where
    out: "out = take (nat limit) (sort_le le (filter (\<lambda>r. ob_status r \<in> {ObComplete, ObFailed} \<and> P r) (pd_outbox db)))"
    and inb: "inb = take (nat limit) (sort_le le' (filter (\<lambda>r. ib_status r = IbComplete \<and> Q r) (pd_inbox db)))"
    and db': "db' = db\<lparr>pd_outbox := filter (\<lambda>r. ob_id r \<notin> set (map ob_id out)) (pd_outbox db),
      pd_outbox_archive := pd_outbox_archive db @ map (\<lambda>i. the (find_outbox db i)) (map ob_id out),
      pd_inbox := filter (\<lambda>r. ib_key r \<notin> set (map ib_key inb)) (pd_inbox db),
      pd_inbox_archive := pd_inbox_archive db @ map (\<lambda>k. the (find_inbox db k)) (map ib_key inb)\<rparr>"
    by (auto simp: archive_settled_def bindR_eq_Inr_conv Let_def)
  have o: "r \<in> set (pd_outbox db) \<and> ob_status r \<in> {ObComplete, ObFailed}" if "r \<in> set out" for r
    using that unfolding out by (auto dest!: taken_sorted)
  have n: "r \<in> set (pd_inbox db) \<and> ib_status r = IbComplete" if "r \<in> set inb" for r
    using that unfolding inb by (auto dest!: taken_sorted)
  have fo: "the (find_outbox db (ob_id r)) = r" if "r \<in> set out" for r
    using archived_rows[of ob_id "pd_outbox db" r out] assms(1) that o
    by (simp add: proto_inv_def proto_keys_ok_def find_outbox_def)
  have fi: "the (find_inbox db (ib_key r)) = r" if "r \<in> set inb" for r
    using archived_rows[of ib_key "pd_inbox db" r inb] assms(1) that n
    by (simp add: proto_inv_def proto_keys_ok_def find_inbox_def)
  have "list_all (\<lambda>r. outbox_ok r \<and> ob_completed_at r \<noteq> None) out"
    using assms(1) o by (auto simp: proto_inv_def proto_rows_ok_def list_all_iff outbox_ok_def)
  moreover have "list_all (\<lambda>r. inbox_ok r \<and> ib_status r = IbComplete) inb"
    using assms(1) n by (auto simp: proto_inv_def proto_rows_ok_def list_all_iff)
  ultimately have "proto_rows_ok db'"
    using assms(1) by (auto simp: db' proto_inv_def proto_rows_ok_def list_all_iff fo fi)
  moreover have "proto_refs_ok db'"
    using assms(1) by (auto simp: db' proto_inv_def proto_refs_ok_def list_all_iff)
  ultimately show ?thesis
    by (intro inv_filtered[OF assms(1), where R = "\<lambda>_. True"]) (simp_all add: db')
qed

lemma proto_inv_apply: "proto_inv db \<Longrightarrow> proto_apply op db = Inr db' \<Longrightarrow> proto_inv db'"
  by (cases op) (auto intro: commit_keeps delete_keeps enqueue_keeps activate_keeps claim_outbox_keeps renew_outbox_keeps
      sent_keeps retry_keeps fail_keeps receive_keeps claim_inbox_keeps renew_inbox_keeps complete_inbox_keeps call_keeps
      archive_keeps)

lemma proto_inv_run: "proto_inv db \<Longrightarrow> proto_inv (proto_run ops db)"
  by (rule proto_run_keeps[where I = proto_inv]) (auto intro: proto_inv_apply)

end
