(* ===== verification/ProtocolProperties.thy ===== *)
theory ProtocolProperties
  imports ProtocolInvariant TaskProperties
begin

text \<open>
  What the delivery tables promise their clients: rows only grow, a lease excludes everybody else while
  it holds, a stale revision is refused, a redelivered frame is recognised, and what is listed for
  recovery is what can be claimed.
\<close>

section \<open>Growth\<close>

definition outbox_grows :: "outbox_record \<Rightarrow> outbox_record \<Rightarrow> bool" where
  "outbox_grows r r' \<longleftrightarrow> ob_id r' = ob_id r \<and> ob_frame r' = ob_frame r \<and>
     (r' = r \<or> ob_revision r < ob_revision r' \<and> ob_status r \<notin> {ObComplete, ObFailed})"

definition inbox_grows :: "inbox_record \<Rightarrow> inbox_record \<Rightarrow> bool" where
  "inbox_grows r r' \<longleftrightarrow> ib_key r' = ib_key r \<and> ib_frame r' = ib_frame r \<and>
     (r' = r \<or> ib_revision r < ib_revision r' \<and> ib_status r \<noteq> IbComplete)"

definition grows :: "protocol_db \<Rightarrow> protocol_db \<Rightarrow> bool" where
  "grows db db' \<longleftrightarrow>
     (\<forall>i r. find_outbox db i = Some r \<longrightarrow> (\<exists>r'. find_outbox db' i = Some r' \<and> outbox_grows r r')) \<and>
     (\<forall>k r. find_inbox db k = Some r \<longrightarrow> (\<exists>r'. find_inbox db' k = Some r' \<and> inbox_grows r r'))"

lemma grows_refl [simp]: "grows db db"
  by (auto simp: grows_def outbox_grows_def inbox_grows_def)

lemma outbox_grows_trans: "outbox_grows a b \<Longrightarrow> outbox_grows b c \<Longrightarrow> outbox_grows a c"
  by (auto simp: outbox_grows_def)

lemma inbox_grows_trans: "inbox_grows a b \<Longrightarrow> inbox_grows b c \<Longrightarrow> inbox_grows a c"
  by (auto simp: inbox_grows_def)

lemma grows_trans: "grows a b \<Longrightarrow> grows b c \<Longrightarrow> grows a c"
  unfolding grows_def by (meson outbox_grows_trans inbox_grows_trans)

lemma grows_outboxD: "grows db db' \<Longrightarrow> find_outbox db i = Some r \<Longrightarrow> \<exists>r'. find_outbox db' i = Some r' \<and> outbox_grows r r'"
  by (simp add: grows_def)

lemma grows_inboxD: "grows db db' \<Longrightarrow> find_inbox db k = Some r \<Longrightarrow> \<exists>r'. find_inbox db' k = Some r' \<and> inbox_grows r r'"
  by (simp add: grows_def)

lemma grows_same:
  "(\<And>i. find_outbox db' i = find_outbox db i) \<Longrightarrow> (\<And>k. find_inbox db' k = find_inbox db k) \<Longrightarrow> grows db db'"
  by (simp add: grows_def outbox_grows_def inbox_grows_def)

lemma grows_append_frame: "append_frame f event status summary now db = Inr db' \<Longrightarrow> grows db db'"
  by (rule grows_same) (simp_all add: append_frame_frame)

lemma grows_update_outbox:
  assumes u: "update_outbox i P f db = Some db'" and g: "\<And>r. P r \<Longrightarrow> outbox_grows r (f r)"
    and same: "\<And>r. ob_id (f r) = ob_id r"
  shows "grows db db'"
proof -
  from update_outbox_Some[OF u] obtain r where "find_outbox db i = Some r" "outbox_grows r (f r)"
    using g by blast
  then show ?thesis
    by (auto simp: grows_def find_updated_outbox[OF u same] update_outbox_frame[OF u] outbox_grows_def inbox_grows_def)
qed

lemma grows_update_inbox:
  assumes u: "update_inbox k P f db = Some db'" and g: "\<And>r. P r \<Longrightarrow> inbox_grows r (f r)"
    and same: "\<And>r. ib_key (f r) = ib_key r"
  shows "grows db db'"
proof -
  from update_inbox_Some[OF u] obtain r where "find_inbox db k = Some r" "inbox_grows r (f r)"
    using g by blast
  then show ?thesis
    by (auto simp: grows_def find_updated_inbox[OF u same] update_inbox_frame[OF u] outbox_grows_def inbox_grows_def)
qed

lemma outbox_written_grows:
  assumes "update_outbox i P f db = Some db1" and "append_frame g event status summary now db1 = Inr db'"
    and "\<And>r. P r \<Longrightarrow> outbox_grows r (f r)" and "\<And>r. ob_id (f r) = ob_id r"
  shows "grows db db'"
  using grows_trans[OF grows_update_outbox[OF assms(1,3,4)] grows_append_frame[OF assms(2)]] .

lemma inbox_written_grows:
  assumes "update_inbox k P f db = Some db1" and "append_frame g event status summary now db1 = Inr db'"
    and "\<And>r. P r \<Longrightarrow> inbox_grows r (f r)" and "\<And>r. ib_key (f r) = ib_key r"
  shows "grows db db'"
  using grows_trans[OF grows_update_inbox[OF assms(1,3,4)] grows_append_frame[OF assms(2)]] .

lemma find_append_Some: "find P xs = Some r \<Longrightarrow> find P (xs @ ys) = Some r"
  by (induction xs) (auto split: if_splits)

lemma grows_new_outbox: "grows db (db\<lparr>pd_outbox := pd_outbox db @ [r]\<rparr>)"
  by (simp add: grows_def find_outbox_def find_inbox_def find_append_Some outbox_grows_def inbox_grows_def)

lemma grows_new_inbox: "grows db (db\<lparr>pd_inbox := pd_inbox db @ [r]\<rparr>)"
  by (simp add: grows_def find_outbox_def find_inbox_def find_append_Some outbox_grows_def inbox_grows_def)

lemma enqueue_grows: "enqueue_outbox inp db = Inr (x, db') \<Longrightarrow> grows db db'"
  by (auto simp: enqueue_outbox_def bindR_eq_Inr_conv Let_def intro: grows_trans[OF grows_new_outbox grows_append_frame])

lemma activate_grows: "activate_outbox i n now db = Inr (x, db') \<Longrightarrow> grows db db'"
  by (auto simp: activate_outbox_def bindR_eq_Inr_conv split: option.splits elim!: outbox_written_grows)
    (auto simp: outbox_grows_def)

lemma claim_outbox_grows: "claim_outbox i w now until n db = Inr (x, db') \<Longrightarrow> grows db db'"
  by (auto simp: claim_outbox_def bindR_eq_Inr_conv split: option.splits elim!: outbox_written_grows)
    (auto simp: outbox_grows_def outbox_open_def)

lemma renew_outbox_grows: "renew_outbox_lease i w n now until db = Inr (x, db') \<Longrightarrow> grows db db'"
  by (auto simp: renew_outbox_lease_def bindR_eq_Inr_conv split: option.splits elim!: outbox_written_grows)
    (auto simp: outbox_grows_def outbox_held_by_def)

lemma update_claimed_grows: "update_claimed_outbox i w n now status completed nxt db = Inr (x, db') \<Longrightarrow> grows db db'"
  by (auto simp: update_claimed_outbox_def bindR_eq_Inr_conv split: option.splits elim!: outbox_written_grows)
    (auto simp: outbox_grows_def outbox_held_by_def)

lemma sent_grows: "mark_outbox_sent i w n now db = Inr (x, db') \<Longrightarrow> grows db db'"
  by (auto simp: mark_outbox_sent_def bindR_eq_Inr_conv split: if_splits intro: update_claimed_grows)

lemma complete_original_grows: "complete_original f now db = Inr db' \<Longrightarrow> grows db db'"
  by (auto simp: complete_original_def split: option.splits bool.splits elim!: outbox_written_grows)
    (auto simp: outbox_grows_def)

lemma receive_grows: "receive_inbox c f now db = Inr (x, db') \<Longrightarrow> grows db db'"
  by (auto simp: receive_inbox_def get_inbox_def bindR_eq_Inr_conv Let_def split: option.splits if_splits
      intro: grows_trans[OF grows_trans[OF grows_new_inbox grows_append_frame] complete_original_grows])

lemma claim_inbox_grows: "claim_inbox k w now until n db = Inr (x, db') \<Longrightarrow> grows db db'"
  by (auto simp: claim_inbox_def bindR_eq_Inr_conv split: option.splits elim!: inbox_written_grows)
    (auto simp: inbox_grows_def)

lemma renew_inbox_grows: "renew_inbox_lease k w n now until db = Inr (x, db') \<Longrightarrow> grows db db'"
  by (auto simp: renew_inbox_lease_def bindR_eq_Inr_conv split: option.splits elim!: inbox_written_grows)
    (auto simp: inbox_grows_def)

lemma find_table_updates [simp]:
  "find_outbox (db\<lparr>pd_inbox := ys\<rparr>) i = find_outbox db i" "find_inbox (db\<lparr>pd_outbox := xs\<rparr>) k = find_inbox db k"
  "find_outbox (db\<lparr>pd_coord := co\<rparr>) i = find_outbox db i" "find_inbox (db\<lparr>pd_coord := co\<rparr>) k = find_inbox db k"
  by (simp_all add: find_outbox_def find_inbox_def)

lemma find_new_outbox: "find_outbox db i = Some r \<Longrightarrow> find_outbox (db\<lparr>pd_outbox := pd_outbox db @ ys\<rparr>) i = Some r"
  by (simp add: find_outbox_def find_append_Some)

lemma enqueue_finds:
  assumes "enqueue_outbox inp db = Inr (x, db')"
  shows "find_inbox db' k = find_inbox db k" and "find_outbox db i = Some r \<Longrightarrow> find_outbox db' i = Some r"
  using assms by (auto simp: enqueue_outbox_def bindR_eq_Inr_conv Let_def append_frame_frame find_new_outbox)

lemma complete_inbox_grows:
  assumes "complete_inbox inp db = Inr (x, db')"
  shows "grows db db'"
proof -
  from complete_inbox_Inr[OF assms] obtain r db1 db2 where r: "find_inbox db (cpl_key inp) = Some r" "ib_status r = IbProcessing"
    and db1: "case cpl_reply inp of None \<Rightarrow> db1 = db
     | Some reply \<Rightarrow> reply_of r reply \<and> (\<exists>y. enqueue_outbox reply db = Inr (y, db1))"
    and db2: "db2 = or_default (update_inbox (cpl_key inp) (\<lambda>r. ib_revision r = cpl_expected_revision inp) (completed_row inp) db1) db1"
    and a: "append_frame (ib_frame r) ''inbox.completed'' ''complete'' (ik_consumer_id (cpl_key inp)) (cpl_completed_at inp) db2 = Inr db'"
    by (auto simp: claimed_by_def)
  have same: "find_inbox db1 k = find_inbox db k" for k
    using db1 by (auto simp: enqueue_finds split: option.splits)
  have "grows db db1" using db1 by (auto intro: enqueue_grows split: option.splits)
  moreover have "grows db1 db2"
  proof (cases "update_inbox (cpl_key inp) (\<lambda>r. ib_revision r = cpl_expected_revision inp) (completed_row inp) db1")
    case (Some db3)
    then show ?thesis
      using r same
      by (auto simp: db2 grows_def find_updated_inbox[OF Some] update_inbox_frame[OF Some] outbox_grows_def inbox_grows_def)
  qed (simp add: db2)
  ultimately show ?thesis
    using grows_append_frame[OF a] grows_trans by blast
qed

lemma call_grows: "append_call c db = Inr (x, db') \<Longrightarrow> grows db db'"
  by (auto simp: append_call_def insert_journal_def bindR_eq_Inr_conv Let_def find_outbox_def find_inbox_def
      split: option.splits if_splits intro!: grows_same)

fun keeps_rows :: "proto_op \<Rightarrow> bool" where
  "keeps_rows (PODelete _) = False"
| "keeps_rows (POArchive _ _) = False"
| "keeps_rows _ = True"

lemma commit_grows: "commit_protocol_state c db = Inr (x, db') \<Longrightarrow> grows db db'"
  by (auto simp: commit_protocol_state_def find_outbox_def find_inbox_def split: sum.splits intro!: grows_same)

lemma retry_grows: "retry_outbox i w n now nxt db = Inr (x, db') \<Longrightarrow> grows db db'"
  by (auto simp: retry_outbox_def bindR_eq_Inr_conv intro: update_claimed_grows)

lemma apply_grows: "proto_apply op db = Inr db' \<Longrightarrow> keeps_rows op \<Longrightarrow> grows db db'"
  by (cases op) (auto simp: fail_outbox_def intro: commit_grows enqueue_grows activate_grows claim_outbox_grows
      renew_outbox_grows sent_grows retry_grows update_claimed_grows receive_grows claim_inbox_grows renew_inbox_grows
      complete_inbox_grows call_grows)

lemma run_grows: "list_all keeps_rows ops \<Longrightarrow> grows db (proto_run ops db)"
  by (rule proto_run_keeps[where I = "grows db"]) (auto simp: list_all_iff intro: grows_trans apply_grows)

section \<open>Leases\<close>

definition respects_lease :: "ident \<Rightarrow> timestamp \<Rightarrow> proto_op \<Rightarrow> bool" where
  \<comment> \<open>a call of somebody else than the holder, before the lease ends\<close>
  "respects_lease holder end_at op \<longleftrightarrow> (case op of
       POClaimOut _ w now _ _ \<Rightarrow> w \<noteq> holder \<and> now < end_at | PORenewOut _ w _ now _ \<Rightarrow> w \<noteq> holder \<and> now < end_at
     | POSent _ w _ now \<Rightarrow> w \<noteq> holder \<and> now < end_at | PORetry _ w _ now _ \<Rightarrow> w \<noteq> holder \<and> now < end_at
     | POFail _ w _ now \<Rightarrow> w \<noteq> holder \<and> now < end_at
     | POClaimIn _ w now _ _ \<Rightarrow> w \<noteq> holder \<and> now < end_at | PORenewIn _ w _ now _ \<Rightarrow> w \<noteq> holder \<and> now < end_at
     | POComplete inp \<Rightarrow> cpl_lease_owner inp \<noteq> holder \<and> cpl_completed_at inp < end_at
     | _ \<Rightarrow> keeps_rows op)"

lemma respects_lease_keeps: "respects_lease holder end_at op \<Longrightarrow> keeps_rows op"
  by (cases op) (simp_all add: respects_lease_def)

lemma outbox_written_other:
  assumes u: "update_outbox j P f db = Some db1" and a: "append_frame g event status summary now db1 = Inr db'"
    and same: "\<And>r. ob_id (f r) = ob_id r" and r: "find_outbox db i = Some r" "j = i \<Longrightarrow> \<not> P r"
  shows "find_outbox db' i = Some r"
  using update_outbox_Some[OF u] r
  by (auto simp: append_frame_frame[OF a] find_updated_outbox[OF u same])

lemma inbox_written_other:
  assumes u: "update_inbox j P f db = Some db1" and a: "append_frame g event status summary now db1 = Inr db'"
    and same: "\<And>r. ib_key (f r) = ib_key r" and r: "find_inbox db k = Some r" "j = k \<Longrightarrow> \<not> P r"
  shows "find_inbox db' k = Some r"
  using update_inbox_Some[OF u] r
  by (auto simp: append_frame_frame[OF a] find_updated_inbox[OF u same])

lemma update_claimed_other:
  assumes "update_claimed_outbox j w n now status completed nxt db = Inr (x, db')"
    and "find_outbox db i = Some r" "ob_lease_owner r \<noteq> Some w"
  shows "find_outbox db' i = Some r"
  using assms by (auto simp: update_claimed_outbox_def bindR_eq_Inr_conv split: option.splits
      elim!: outbox_written_other simp: outbox_held_by_def)

lemma complete_original_row:
  assumes "complete_original f now db = Inr db'" and "find_outbox db i = Some r"
  shows "find_outbox db' i = Some r \<or> (\<exists>r'. find_outbox db' i = Some r' \<and> ob_status r' = ObComplete)"
  using assms
  by (auto simp: complete_original_def append_frame_frame find_updated_outbox split: option.splits bool.splits)

lemma receive_row:
  assumes "receive_inbox c f now db = Inr (x, db')" and "find_outbox db i = Some r"
  shows "find_outbox db' i = Some r \<or> (\<exists>r'. find_outbox db' i = Some r' \<and> ob_status r' = ObComplete)"
proof -
  from assms have "db' = db \<or> (\<exists>db1. find_outbox db1 i = Some r \<and> complete_original f now db1 = Inr db')"
    by (auto simp: receive_inbox_def get_inbox_def bindR_eq_Inr_conv Let_def append_frame_frame
        split: option.splits if_splits)
  with assms(2) show ?thesis by (auto dest: complete_original_row)
qed

lemma complete_inbox_outbox:
  assumes "complete_inbox inp db = Inr (x, db')" and "find_outbox db i = Some r"
  shows "find_outbox db' i = Some r"
proof -
  from complete_inbox_Inr[OF assms(1)] obtain q db1 db2 where
    db1: "case cpl_reply inp of None \<Rightarrow> db1 = db
     | Some reply \<Rightarrow> reply_of q reply \<and> (\<exists>y. enqueue_outbox reply db = Inr (y, db1))"
    and db2: "db2 = or_default (update_inbox (cpl_key inp) (\<lambda>r. ib_revision r = cpl_expected_revision inp) (completed_row inp) db1) db1"
    and a: "append_frame (ib_frame q) ''inbox.completed'' ''complete'' (ik_consumer_id (cpl_key inp)) (cpl_completed_at inp) db2 = Inr db'"
    by auto
  have "find_outbox db1 i = Some r"
    using db1 assms(2) by (auto simp: enqueue_finds(2) split: option.splits)
  then have "find_outbox db2 i = Some r"
    unfolding db2 or_default_def by (auto simp: update_inbox_frame split: option.splits)
  with append_frame_frame(5)[OF a] show ?thesis by simp
qed

lemma find_outbox_ok: "proto_inv db \<Longrightarrow> find_outbox db i = Some r \<Longrightarrow> outbox_ok r \<and> ob_id r = i"
  by (metis find_outbox_Some list_all_iff proto_inv_def proto_rows_ok_def)

lemma find_inbox_ok: "proto_inv db \<Longrightarrow> find_inbox db k = Some r \<Longrightarrow> inbox_ok r \<and> ib_key r = k"
  by (metis find_inbox_Some list_all_iff proto_inv_def proto_rows_ok_def)

lemma find_outbox_refers:
  "proto_inv db \<Longrightarrow> find_outbox db i = Some r \<Longrightarrow> refers (pd_coord db) (pf_task_id (ob_frame r)) (pf_run_id (ob_frame r))"
  by (metis (no_types, lifting) find_outbox_Some list_all_iff proto_inv_def proto_refs_ok_def)

lemma find_inbox_refers:
  "proto_inv db \<Longrightarrow> find_inbox db k = Some r \<Longrightarrow> refers (pd_coord db) (pf_task_id (ib_frame r)) (pf_run_id (ib_frame r))"
  by (metis (no_types, lifting) find_inbox_Some list_all_iff proto_inv_def proto_refs_ok_def)

lemma leased_outbox_step:
  assumes inv: "proto_inv db" and r: "find_outbox db i = Some r" "ob_lease_owner r = Some w" "ob_lease_expires_at r = Some e"
    and op: "respects_lease w e op" "proto_apply op db = Inr db'"
  shows "find_outbox db' i = Some r \<or> (\<exists>r'. find_outbox db' i = Some r' \<and> ob_status r' = ObComplete)"
proof -
  have pending: "ob_status r = ObPending"
    using find_outbox_ok[OF inv r(1)] r(2) by (simp add: outbox_ok_def)
  show ?thesis
  proof (cases op)
    case (POCommit c)
    with op r show ?thesis by (auto simp: commit_protocol_state_def find_outbox_def split: sum.splits)
  next
    case (POActivate j n now)
    with op r pending show ?thesis
      by (auto simp: activate_outbox_def bindR_eq_Inr_conv split: option.splits elim!: outbox_written_other)
  next
    case (POClaimOut j v now until n)
    with op r show ?thesis
      by (auto simp: claim_outbox_def bindR_eq_Inr_conv respects_lease_def no_lease_at_def expired_def split: option.splits
          elim!: outbox_written_other)
  next
    case (PORenewOut j v n now until)
    with op r show ?thesis
      by (auto simp: renew_outbox_lease_def bindR_eq_Inr_conv respects_lease_def outbox_held_by_def split: option.splits
          elim!: outbox_written_other)
  next
    case (POSent j v n now)
    with op r show ?thesis
      by (auto simp: mark_outbox_sent_def bindR_eq_Inr_conv respects_lease_def update_claimed_other split: if_splits)
  next
    case (PORetry j v n now nxt)
    with op r show ?thesis
      by (auto simp: retry_outbox_def bindR_eq_Inr_conv respects_lease_def update_claimed_other)
  next
    case (POFail j v n now)
    with op r show ?thesis
      by (auto simp: fail_outbox_def respects_lease_def update_claimed_other)
  next
    case (POReceive c f now)
    with op r show ?thesis by (auto dest: receive_row)
  next
    case (POClaimIn k v now until n)
    with op r show ?thesis
      by (auto simp: claim_inbox_def bindR_eq_Inr_conv append_frame_frame update_inbox_frame split: option.splits)
  next
    case (PORenewIn k v n now until)
    with op r show ?thesis
      by (auto simp: renew_inbox_lease_def bindR_eq_Inr_conv append_frame_frame update_inbox_frame split: option.splits)
  next
    case (POCall c)
    with op r show ?thesis
      by (auto simp: append_call_def insert_journal_def bindR_eq_Inr_conv Let_def find_outbox_def split: option.splits if_splits)
  qed (use op r in \<open>auto simp: respects_lease_def enqueue_finds complete_inbox_outbox\<close>)
qed

lemma outbox_rest:
  assumes "list_all (respects_lease w e) ops" and "proto_inv db"
    and "find_outbox db i = Some r" "ob_lease_owner r = Some w" "ob_lease_expires_at r = Some e"
  shows "proto_inv (proto_run ops db) \<and> (find_outbox (proto_run ops db) i = Some r \<or>
    (\<exists>r'. find_outbox (proto_run ops db) i = Some r' \<and> ob_status r' = ObComplete))"
proof (rule proto_run_keeps[where I = "\<lambda>db. proto_inv db \<and> (find_outbox db i = Some r \<or>
    (\<exists>r'. find_outbox db i = Some r' \<and> ob_status r' = ObComplete))"])
  fix op da db'
  assume op: "op \<in> set ops" "proto_apply op da = Inr db'"
    and I: "proto_inv da \<and> (find_outbox da i = Some r \<or> (\<exists>r'. find_outbox da i = Some r' \<and> ob_status r' = ObComplete))"
  have lease: "respects_lease w e op" using op assms(1) by (auto simp: list_all_iff)
  have "find_outbox db' i = Some r \<or> (\<exists>r'. find_outbox db' i = Some r' \<and> ob_status r' = ObComplete)"
  proof (cases "find_outbox da i = Some r")
    case True
    with leased_outbox_step[OF _ True assms(4,5) lease op(2)] I show ?thesis by blast
  next
    case False
    with I obtain r' where r': "find_outbox da i = Some r'" "ob_status r' = ObComplete" by blast
    from grows_outboxD[OF apply_grows[OF op(2) respects_lease_keeps[OF lease]] r'(1)] r'(2) show ?thesis
      by (auto simp: outbox_grows_def)
  qed
  with I op(2) show "proto_inv db' \<and> (find_outbox db' i = Some r \<or> (\<exists>r'. find_outbox db' i = Some r' \<and> ob_status r' = ObComplete))"
    using proto_inv_apply by blast
qed (use assms in blast)

lemma append_frame_ok:
  "refers (pd_coord db) (pf_task_id f) (pf_run_id f) \<Longrightarrow> \<exists>db'. append_frame f event status summary now db = Inr db'"
  by (cases "pf_protocol f") (auto simp: append_frame_def insert_journal_def refers_def)

lemma holder_marks_sent:
  assumes inv: "proto_inv db" and r: "find_outbox db i = Some r" "ob_lease_owner r = Some w" "ob_lease_expires_at r = Some e"
    and "now < e"
  shows "\<exists>x db'. mark_outbox_sent i w (ob_revision r) now db = Inr (x, db') \<and> ob_status x = ObSent"
proof -
  let ?f = "\<lambda>r. r\<lparr>ob_status := ObSent, ob_sent_at := Some now, ob_completed_at := ob_completed_at r,
    ob_next_attempt_at := ob_next_attempt_at r, ob_lease_owner := None, ob_lease_expires_at := None, ob_revision := ob_revision r + 1\<rparr>"
  have ok: "outbox_ok r" "ob_status r = ObPending" using find_outbox_ok[OF inv r(1)] r(2) by (auto simp: outbox_ok_def)
  obtain db1 where u: "update_outbox i (outbox_held_by w (ob_revision r) now) ?f db = Some db1"
    using r ok \<open>now < e\<close> by (auto simp: update_outbox_def outbox_held_by_def lease_holds_def)
  have f: "find_outbox db1 i = Some (?f r)"
    using find_updated_outbox[OF u, of i] r(1) by simp
  have "refers (pd_coord db1) (pf_task_id (ob_frame (read_outbox (?f r)))) (pf_run_id (ob_frame (read_outbox (?f r))))"
    using find_outbox_refers[OF inv r(1)] by (simp add: update_outbox_frame[OF u] read_outbox_def)
  then obtain db2 where "append_frame (ob_frame (read_outbox (?f r))) ''outbox.sent'' ''sent'' i now db1 = Inr db2"
    using append_frame_ok by blast
  then have "mark_outbox_sent i w (ob_revision r) now db = Inr (read_outbox (?f r), db2)"
    using u f r(1) ok(2)
    by (simp add: mark_outbox_sent_def require_outbox_def get_outbox_def update_claimed_outbox_def outbox_status_name_def
        read_outbox_def)
  then show ?thesis by (auto simp: read_outbox_def)
qed

section \<open>Examples\<close>

definition sample_task_db :: protocol_db where
  "sample_task_db = empty_protocol_db\<lparr>pd_coord := sample_begun\<rparr>"

definition sample_enqueue :: enqueue_input where
  "sample_enqueue = \<lparr>en_id = ''o'', en_destination = ''dev'', en_frame = sample_frame, en_held = None,
     en_activated_at = None, en_next_attempt_at = None\<rparr>"

definition sample_claimed :: protocol_db where
  "sample_claimed = proto_run [POEnqueue sample_enqueue, POClaimOut ''o'' ''w'' 11 50 1] sample_task_db"

lemma sample_task_db_inv: "proto_inv sample_task_db"
  using proto_inv_empty
  by (simp add: sample_task_db_def proto_inv_def proto_keys_ok_def proto_rows_ok_def proto_refs_ok_def journal_ok_def
      empty_protocol_db_def)

lemma sample_claimed_inv: "proto_inv sample_claimed"
  unfolding sample_claimed_def by (rule proto_inv_run[OF sample_task_db_inv])

lemma sample_task_found: "\<exists>t r. find_task sample_begun ''t'' = Some t \<and> find_run sample_begun ''r'' = Some r"
proof -
  have "find_task sample_begun ''t'' \<noteq> None" "find_run sample_begun ''r'' \<noteq> None" by code_simp+
  then show ?thesis by blast
qed

lemma sample_frame_ok: "frame_ok sample_frame"
  by (simp add: frame_ok_def sample_frame_def optional_text_ok_def max_safe_integer_def body_ok_def)

definition sample_row :: outbox_record where
  "sample_row = \<lparr>ob_id = ''o'', ob_destination = ''dev'', ob_frame = sample_frame, ob_status = ObPending, ob_attempt = 1,
     ob_next_attempt_at = 10, ob_activated_at = None, ob_created_at = 10, ob_sent_at = None, ob_completed_at = None,
     ob_lease_owner = Some ''w'', ob_lease_expires_at = Some 50, ob_revision = 2\<rparr>"

lemma sample_frame_fields:
  "pf_task_id sample_frame = ''t''" "pf_run_id sample_frame = ''r''" "pf_attempt sample_frame = 1"
  "pf_created_at sample_frame = 10" "pf_protocol sample_frame = SystemAgent" "pf_exchange_id sample_frame = ''x''"
  by (simp_all add: sample_frame_def)

lemmas outbox_run_defs =
  proto_step_def enqueue_outbox_def claim_outbox_def update_outbox_def find_outbox_def require_outbox_def
  get_outbox_def append_frame_def insert_journal_def outbox_open_def no_lease_at_def expired_def assert_lease_def
  bindR_ensure Let_def read_outbox_def empty_protocol_db_def

lemma sample_claimed_row: "find_outbox sample_claimed ''o'' = Some sample_row"
  using sample_task_found
  by (auto simp: sample_claimed_def sample_task_db_def sample_enqueue_def sample_frame_ok sample_frame_fields
      outbox_run_defs sample_row_def)

section \<open>Promises\<close>

text \<open>
  C10. Whatever operations run on the delivery tables, failing ones included, keys stay unique, every
  row satisfies its rules (a lease exactly while a row is held, a completion time exactly when it is
  settled, fewer attempts than revisions, a valid frame under its own key), every row and journal line
  refers to an existing task and run, and the journal is in sequence with one line per call.
\<close>

theorem delivery_tables_consistent: "proto_inv (proto_run ops empty_protocol_db)"
  by (rule proto_inv_run[OF proto_inv_empty])

text \<open>
  C8. While an outbox row is leased, calls of other owners before the lease ends, in any number and
  order, leave the row exactly as it is, unless a receipt completes its exchange; either way the holder
  can still mark it sent under the revision it claimed.
\<close>

theorem lease_excludes_others:
  assumes "proto_inv db" and "find_outbox db i = Some r" "ob_lease_owner r = Some w" "ob_lease_expires_at r = Some e"
    and "list_all (respects_lease w e) ops" and "now < e"
  shows "(find_outbox (proto_run ops db) i = Some r \<or>
      (\<exists>r'. find_outbox (proto_run ops db) i = Some r' \<and> ob_status r' = ObComplete)) \<and>
    is_ok (mark_outbox_sent i w (ob_revision r) now (proto_run ops db))"
proof -
  note rest = outbox_rest[OF assms(5,1-4)]
  have "is_ok (mark_outbox_sent i w (ob_revision r) now (proto_run ops db))"
  proof (cases "find_outbox (proto_run ops db) i = Some r")
    case True
    from holder_marks_sent[OF conjunct1[OF rest] True assms(3,4,6)] show ?thesis by (auto simp: is_ok_iff)
  next
    case False
    with rest obtain r' where "find_outbox (proto_run ops db) i = Some r'" "ob_status r' = ObComplete" by blast
    then show ?thesis by (simp add: mark_outbox_sent_def require_outbox_def get_outbox_def)
  qed
  with rest show ?thesis by blast
qed

theorem lease_excludes_others_witness:
  "is_ok (mark_outbox_sent ''o'' ''w'' 2 30
     (proto_run [POClaimOut ''o'' ''v'' 12 60 2, POSent ''o'' ''v'' 2 13, POActivate ''o'' 2 14] sample_claimed))"
proof -
  have "list_all (respects_lease ''w'' 50) [POClaimOut ''o'' ''v'' 12 60 2, POSent ''o'' ''v'' 2 13, POActivate ''o'' 2 14]"
    by (simp add: respects_lease_def)
  from lease_excludes_others[OF sample_claimed_inv sample_claimed_row _ _ this, of 30] show ?thesis
    by (simp add: sample_row_def)
qed

lemma revision_moved:
  assumes "find_outbox db i = Some r" and "list_all keeps_rows ops" and "find_outbox (proto_run ops db) i \<noteq> Some r"
  shows "\<exists>r'. find_outbox (proto_run ops db) i = Some r' \<and> ob_revision r < ob_revision r'"
  using grows_outboxD[OF run_grows[OF assms(2)] assms(1)] assms(3) by (auto simp: outbox_grows_def)

text \<open>
  C15. Once an outbox row has changed, whoever still holds the revision it had before can neither
  claim, renew, retry, fail nor activate it, nor mark it sent, however much has happened since; only
  marking a completed exchange as sent is accepted, and changes nothing.
\<close>

theorem stale_revision_is_refused:
  assumes "find_outbox db i = Some r" and "list_all keeps_rows ops"
    and "db' = proto_run ops db" "find_outbox db' i \<noteq> Some r"
  shows "\<not> is_ok (renew_outbox_lease i w (ob_revision r) now until db') \<and>
    \<not> is_ok (retry_outbox i w (ob_revision r) now nxt db') \<and> \<not> is_ok (fail_outbox i w (ob_revision r) now db') \<and>
    \<not> is_ok (activate_outbox i (ob_revision r) now db') \<and>
    claim_outbox i w now until (ob_revision r) db' \<noteq> Inr (Some x, db'') \<and>
    (mark_outbox_sent i w (ob_revision r) now db' = Inr (y, db'') \<longrightarrow> ob_status y = ObComplete \<and> db'' = db')"
proof (intro conjI impI)
  obtain r' where r': "find_outbox db' i = Some r'" "ob_revision r < ob_revision r'"
    using revision_moved[OF assms(1,2)] assms(3,4) by blast
  have held: "update_outbox i (outbox_held_by w (ob_revision r) now) f db' = None" for f
    using r' by (simp add: update_outbox_def outbox_held_by_def)
  show "\<not> is_ok (renew_outbox_lease i w (ob_revision r) now until db')"
    by (simp add: renew_outbox_lease_def held is_ok_iff bindR_eq_Inr_conv)
  show "\<not> is_ok (retry_outbox i w (ob_revision r) now nxt db')" "\<not> is_ok (fail_outbox i w (ob_revision r) now db')"
    by (simp_all add: retry_outbox_def fail_outbox_def update_claimed_outbox_def held is_ok_iff bindR_eq_Inr_conv)
  show "\<not> is_ok (activate_outbox i (ob_revision r) now db')"
    using r' by (simp add: activate_outbox_def update_outbox_def)
  show "claim_outbox i w now until (ob_revision r) db' \<noteq> Inr (Some x, db'')"
    using r' by (simp add: claim_outbox_def update_outbox_def bindR_eq_Inr_conv)
  show "ob_status y = ObComplete" "db'' = db'" if "mark_outbox_sent i w (ob_revision r) now db' = Inr (y, db'')"
    using that by (auto simp: mark_outbox_sent_def update_claimed_outbox_def held bindR_eq_Inr_conv split: if_splits)
qed

theorem stale_revision_is_refused_witness:
  "\<not> is_ok (retry_outbox ''o'' ''w'' 2 52 60 (proto_run [POClaimOut ''o'' ''v'' 51 90 2] sample_claimed))"
proof -
  have "map_option ob_lease_owner (find_outbox (proto_run [POClaimOut ''o'' ''v'' 51 90 2] sample_claimed) ''o'') = Some (Some ''v'')"
    using sample_task_found
    by (auto simp: sample_claimed_def sample_task_db_def sample_enqueue_def sample_frame_ok sample_frame_fields
        outbox_run_defs)
  then have "find_outbox (proto_run [POClaimOut ''o'' ''v'' 51 90 2] sample_claimed) ''o'' \<noteq> Some sample_row"
    by (auto simp: sample_row_def)
  from stale_revision_is_refused[OF sample_claimed_row _ HOL.refl this] show ?thesis by (simp add: sample_row_def)
qed

section \<open>Inbox\<close>

lemma find_new_inbox:
  "find_inbox db k = None \<Longrightarrow> ib_key r = k \<Longrightarrow> find_inbox (db\<lparr>pd_inbox := pd_inbox db @ [r]\<rparr>) k = Some r"
  by (simp add: find_inbox_def find_append_one)

lemma received_row:
  assumes "receive_inbox c f now db = Inr ((q, b), db')"
  shows "frame_ok f \<and> c \<noteq> [] \<and>
    (\<exists>q'. find_inbox db' (inbox_key_of c f) = Some q' \<and> same_frame (ib_frame q') f) \<and>
    (b \<longleftrightarrow> find_inbox db (inbox_key_of c f) = None) \<and> (\<not> b \<longrightarrow> db' = db)"
proof (cases "find_inbox db (inbox_key_of c f)")
  case (Some q')
  with assms show ?thesis
    by (auto simp: receive_inbox_def get_inbox_def bindR_eq_Inr_conv Let_def split: if_splits)
next
  case None
  with assms obtain db1 where ok: "frame_ok f" "c \<noteq> []" "b" and q: "ib_key q = inbox_key_of c f" "ib_frame q = f"
    and a: "append_frame f ''inbox.received'' ''received'' c now (db\<lparr>pd_inbox := pd_inbox db @ [q]\<rparr>) = Inr db1"
    and 2: "complete_original f now db1 = Inr db'"
    by (auto simp: receive_inbox_def get_inbox_def bindR_eq_Inr_conv Let_def)
  have 1: "find_inbox db1 (inbox_key_of c f) = Some q"
    using append_frame_frame(4)[OF a] find_new_inbox[OF None q(1)] by simp
  from grows_inboxD[OF complete_original_grows[OF 2] 1] q(2) None ok show ?thesis
    by (auto simp: inbox_grows_def same_frame_def)
qed

lemma same_frame_trans: "same_frame f g \<Longrightarrow> same_frame f h \<Longrightarrow> same_frame g h"
  by (simp add: same_frame_def)

text \<open>
  A frame that a consumer has received is recognised when it arrives again, under any number of the
  attempt and after any operations but archiving and deletion: nothing is inserted, the database stays
  as it is and the row found carries the frame first received. A different frame under the same key is
  refused.
\<close>

theorem redelivery_is_recognised:
  assumes "receive_inbox c f now db = Inr ((q, b), db1)" and "list_all keeps_rows ops" and "db2 = proto_run ops db1"
  shows "(frame_ok g \<and> same_frame g f \<longrightarrow>
      (\<exists>q'. receive_inbox c g later db2 = Inr ((q', False), db2) \<and> same_frame (ib_frame q') f)) \<and>
    (frame_ok g \<and> inbox_key_of c g = inbox_key_of c f \<and> \<not> same_frame g f \<longrightarrow>
      receive_inbox c g later db2 = Inl (ConflictingInboxFrame (pf_exchange_id g)))"
proof (intro conjI[of "_ \<longrightarrow> _"] impI; (elim conjE)?)
  from received_row[OF assms(1)] obtain q1 where c: "c \<noteq> []"
    and q1: "find_inbox db1 (inbox_key_of c f) = Some q1" "same_frame (ib_frame q1) f" by blast
  from grows_inboxD[OF run_grows[OF assms(2)] q1(1)] q1(2) obtain q2
    where q2: "find_inbox db2 (inbox_key_of c f) = Some q2" "same_frame (ib_frame q2) f"
    by (auto simp: inbox_grows_def assms(3))
  show "\<exists>q'. receive_inbox c g later db2 = Inr ((q', False), db2) \<and> same_frame (ib_frame q') f"
    if g: "frame_ok g" "same_frame g f"
  proof -
    from g(2) have "pf_protocol g = pf_protocol f" "pf_exchange_id g = pf_exchange_id f"
      unfolding same_frame_def by (metis protocol_frame.ext_inject protocol_frame.surjective protocol_frame.update_convs(8))+
    then have "inbox_key_of c g = inbox_key_of c f" by (simp add: inbox_key_of_def)
    moreover have "same_frame (ib_frame q2) g" using q2(2) g(2) by (simp add: same_frame_def)
    ultimately show ?thesis using q2 g(1) c by (simp add: receive_inbox_def get_inbox_def)
  qed
  show "receive_inbox c g later db2 = Inl (ConflictingInboxFrame (pf_exchange_id g))"
    if g: "frame_ok g" "inbox_key_of c g = inbox_key_of c f" "\<not> same_frame g f"
  proof -
    have "\<not> same_frame (ib_frame q2) g" using q2(2) g(3) by (auto simp: same_frame_def)
    then show ?thesis using q2 g c by (simp add: receive_inbox_def get_inbox_def)
  qed
qed

lemma sample_received: "\<exists>q db'. receive_inbox ''dev'' sample_frame 20 sample_task_db = Inr ((q, True), db')"
proof -
  have "\<not> is_receipt sample_frame"
    by (simp add: sample_frame_def is_receipt_def)
  then show ?thesis
    using sample_task_found
    by (auto simp: receive_inbox_def get_inbox_def find_inbox_def sample_task_db_def sample_frame_ok sample_frame_fields
        complete_original_def outbox_run_defs)
qed

theorem redelivery_is_recognised_witness:
  "\<exists>db1 q'. receive_inbox ''dev'' (sample_frame\<lparr>pf_attempt := 2\<rparr>) 30 db1 = Inr ((q', False), db1)"
proof -
  obtain q db1 where r: "receive_inbox ''dev'' sample_frame 20 sample_task_db = Inr ((q, True), db1)"
    using sample_received by blast
  have "frame_ok (sample_frame\<lparr>pf_attempt := 2\<rparr>)"
    by (simp add: frame_ok_def sample_frame_def optional_text_ok_def max_safe_integer_def body_ok_def)
  from redelivery_is_recognised[OF r, of "[]", OF _ HOL.refl, of "sample_frame\<lparr>pf_attempt := 2\<rparr>" 30] this show ?thesis
    by (auto simp: same_frame_def)
qed

section \<open>Recovery\<close>

lemma mem_outbox_iff: "proto_inv db \<Longrightarrow> r \<in> set (pd_outbox db) \<longleftrightarrow> find_outbox db (ob_id r) = Some r"
  unfolding proto_inv_def proto_keys_ok_def using find_unique_key[of ob_id "pd_outbox db" r] find_outbox_Some[of db "ob_id r" r]
  by (metis find_outbox_def)

lemma mem_inbox_iff: "proto_inv db \<Longrightarrow> r \<in> set (pd_inbox db) \<longleftrightarrow> find_inbox db (ib_key r) = Some r"
  unfolding proto_inv_def proto_keys_ok_def using find_unique_key[of ib_key "pd_inbox db" r] find_inbox_Some[of db "ib_key r" r]
  by (metis find_inbox_def)

definition outbox_due :: "timestamp \<Rightarrow> outbox_record \<Rightarrow> bool" where
  "outbox_due now r \<longleftrightarrow> outbox_open r \<and> ob_next_attempt_at r \<le> now \<and> no_lease_at (ob_lease_expires_at r) now"

definition inbox_due :: "timestamp \<Rightarrow> inbox_record \<Rightarrow> bool" where
  "inbox_due now r \<longleftrightarrow> ib_status r = IbReceived \<or> ib_status r = IbProcessing \<and> expired (ib_lease_expires_at r) now"

lemma listed_outbox:
  assumes "proto_inv db"
  shows "(\<exists>r \<in> set (list_recoverable_outbox db now). ob_id r = i \<and> ob_revision r = n) \<longleftrightarrow>
    (\<exists>r. find_outbox db i = Some r \<and> ob_revision r = n \<and> outbox_due now r)"
proof
  assume "\<exists>r \<in> set (list_recoverable_outbox db now). ob_id r = i \<and> ob_revision r = n"
  then obtain r where r: "r \<in> set (pd_outbox db)" "outbox_due now r" "ob_id r = i" "ob_revision r = n"
    by (auto simp: list_recoverable_outbox_def outbox_due_def)
  with mem_outbox_iff[OF assms] show "\<exists>r. find_outbox db i = Some r \<and> ob_revision r = n \<and> outbox_due now r" by blast
next
  assume "\<exists>r. find_outbox db i = Some r \<and> ob_revision r = n \<and> outbox_due now r"
  then obtain r where r: "find_outbox db i = Some r" "ob_revision r = n" "outbox_due now r" by blast
  then have "read_outbox r \<in> set (list_recoverable_outbox db now)"
    using find_outbox_Some[OF r(1)] by (auto simp: list_recoverable_outbox_def outbox_due_def)
  then show "\<exists>r \<in> set (list_recoverable_outbox db now). ob_id r = i \<and> ob_revision r = n"
    using find_outbox_Some[OF r(1)] r(2) by (auto intro!: bexI[of _ "read_outbox r"])
qed

lemma listed_inbox:
  assumes "proto_inv db"
  shows "(\<exists>r \<in> set (list_recoverable_inbox db now). ib_key r = k \<and> ib_revision r = n) \<longleftrightarrow>
    (\<exists>r. find_inbox db k = Some r \<and> ib_revision r = n \<and> inbox_due now r)"
proof -
  have "(\<exists>r \<in> set (list_recoverable_inbox db now). ib_key r = k \<and> ib_revision r = n) \<longleftrightarrow>
    (\<exists>r \<in> set (pd_inbox db). inbox_due now r \<and> ib_key r = k \<and> ib_revision r = n)"
    by (auto simp: list_recoverable_inbox_def inbox_due_def)
  then show ?thesis using mem_inbox_iff[OF assms] find_inbox_Some by metis
qed

lemma claim_outbox_iff:
  assumes inv: "proto_inv db" and w: "w \<noteq> []" "now < until"
  shows "(\<exists>x db'. claim_outbox i w now until n db = Inr (Some x, db')) \<longleftrightarrow>
    (\<exists>r. find_outbox db i = Some r \<and> ob_revision r = n \<and> outbox_due now r)"
proof
  assume "\<exists>x db'. claim_outbox i w now until n db = Inr (Some x, db')"
  then show "\<exists>r. find_outbox db i = Some r \<and> ob_revision r = n \<and> outbox_due now r"
    by (auto simp: claim_outbox_def bindR_eq_Inr_conv outbox_due_def dest!: update_outbox_Some split: option.splits)
next
  assume "\<exists>r. find_outbox db i = Some r \<and> ob_revision r = n \<and> outbox_due now r"
  then obtain r where r: "find_outbox db i = Some r" "ob_revision r = n" "outbox_due now r" by blast
  let ?f = "\<lambda>r. r\<lparr>ob_status := ObPending, ob_lease_owner := Some w, ob_lease_expires_at := Some until,
    ob_attempt := ob_attempt r + 1, ob_revision := ob_revision r + 1\<rparr>"
  obtain db1 where u: "update_outbox i (\<lambda>r. ob_revision r = n \<and> ob_next_attempt_at r \<le> now \<and> outbox_open r \<and>
      no_lease_at (ob_lease_expires_at r) now) ?f db = Some db1"
    using r by (auto simp: update_outbox_def outbox_due_def)
  have f: "find_outbox db1 i = Some (?f r)" using find_updated_outbox[OF u, of i] r(1) by simp
  have "refers (pd_coord db1) (pf_task_id (ob_frame (read_outbox (?f r)))) (pf_run_id (ob_frame (read_outbox (?f r))))"
    using find_outbox_refers[OF inv r(1)] by (simp add: update_outbox_frame[OF u] read_outbox_def)
  then obtain db2 where "append_frame (ob_frame (read_outbox (?f r))) ''outbox.claimed''
      (outbox_status_name (ob_status (read_outbox (?f r)))) w now db1 = Inr db2"
    using append_frame_ok by blast
  with u f w show "\<exists>x db'. claim_outbox i w now until n db = Inr (Some x, db')"
    by (simp add: claim_outbox_def require_outbox_def get_outbox_def assert_lease_def)
qed

lemma claim_inbox_iff:
  assumes inv: "proto_inv db" and w: "w \<noteq> []" "now < until"
  shows "(\<exists>x db'. claim_inbox k w now until n db = Inr (Some x, db')) \<longleftrightarrow>
    (\<exists>r. find_inbox db k = Some r \<and> ib_revision r = n \<and> inbox_due now r)"
proof
  assume "\<exists>x db'. claim_inbox k w now until n db = Inr (Some x, db')"
  then show "\<exists>r. find_inbox db k = Some r \<and> ib_revision r = n \<and> inbox_due now r"
    by (auto simp: claim_inbox_def bindR_eq_Inr_conv inbox_due_def dest!: update_inbox_Some split: option.splits)
next
  assume "\<exists>r. find_inbox db k = Some r \<and> ib_revision r = n \<and> inbox_due now r"
  then obtain r where r: "find_inbox db k = Some r" "ib_revision r = n" "inbox_due now r" by blast
  let ?f = "\<lambda>r. r\<lparr>ib_status := IbProcessing, ib_lease_owner := Some w, ib_lease_expires_at := Some until,
    ib_revision := ib_revision r + 1\<rparr>"
  obtain db1 where u: "update_inbox k (\<lambda>r. ib_revision r = n \<and> (ib_status r = IbReceived \<or>
      ib_status r = IbProcessing \<and> expired (ib_lease_expires_at r) now)) ?f db = Some db1"
    using r by (auto simp: update_inbox_def inbox_due_def)
  have f: "find_inbox db1 k = Some (?f r)" using find_updated_inbox[OF u, of k] r(1) by simp
  have "refers (pd_coord db1) (pf_task_id (ib_frame r)) (pf_run_id (ib_frame r))"
    using find_inbox_refers[OF inv r(1)] by (simp add: update_inbox_frame[OF u])
  then obtain db2 where "append_frame (ib_frame r) ''inbox.claimed'' ''processing'' w now db1 = Inr db2"
    using append_frame_ok by blast
  with u f w show "\<exists>x db'. claim_inbox k w now until n db = Inr (Some x, db')"
    by (simp add: claim_inbox_def require_inbox_def get_inbox_def assert_lease_def)
qed

lemma claimed_is_due_later:
  assumes "claim_outbox i w now until n db = Inr (Some x, db')" and "until \<le> later"
  shows "\<exists>r. find_outbox db' i = Some r \<and> ob_revision r = n + 1 \<and> outbox_due later r"
proof -
  from assms(1) obtain db1 f where u: "update_outbox i (\<lambda>r. ob_revision r = n \<and> ob_next_attempt_at r \<le> now \<and> outbox_open r \<and>
      no_lease_at (ob_lease_expires_at r) now) f db = Some db1"
    and f: "f = (\<lambda>r. r\<lparr>ob_status := ObPending, ob_lease_owner := Some w, ob_lease_expires_at := Some until,
      ob_attempt := ob_attempt r + 1, ob_revision := ob_revision r + 1\<rparr>)"
    and a: "append_frame (ob_frame x) ''outbox.claimed'' (outbox_status_name (ob_status x)) w now db1 = Inr db'"
    and now: "now < until"
    by (auto simp: claim_outbox_def bindR_eq_Inr_conv split: option.splits)
  from update_outbox_Some[OF u] obtain r where r: "find_outbox db i = Some r" "ob_revision r = n" "ob_next_attempt_at r \<le> now"
    by blast
  have "find_outbox db' i = Some (f r)"
    using a find_updated_outbox[OF u, of i] r(1) by (auto simp: append_frame_frame f)
  then show ?thesis
    using r now assms(2) by (auto simp: f outbox_due_def outbox_open_def no_lease_at_def expired_def)
qed

text \<open>
  C14. Recovery lists exactly what can be claimed: an outbox or inbox row is listed under a revision if and
  only if a claim under that revision by any owner succeeds. A holder that disappears loses nothing: once
  its lease has ended, the row it claimed is listed again under its new revision.
\<close>

theorem recovery_lists_the_claimable:
  assumes "proto_inv db" and "w \<noteq> []" and "now < until"
  shows "((\<exists>r \<in> set (list_recoverable_outbox db now). ob_id r = i \<and> ob_revision r = n) \<longleftrightarrow>
      (\<exists>x db'. claim_outbox i w now until n db = Inr (Some x, db'))) \<and>
    ((\<exists>r \<in> set (list_recoverable_inbox db now). ib_key r = k \<and> ib_revision r = n) \<longleftrightarrow>
      (\<exists>x db'. claim_inbox k w now until n db = Inr (Some x, db'))) \<and>
    (claim_outbox i w now until n db = Inr (Some x, db') \<and> until \<le> later \<longrightarrow>
      (\<exists>r \<in> set (list_recoverable_outbox db' later). ob_id r = i \<and> ob_revision r = n + 1))"
proof (intro conjI impI; (elim conjE)?)
  show "(\<exists>r \<in> set (list_recoverable_outbox db now). ob_id r = i \<and> ob_revision r = n) \<longleftrightarrow>
      (\<exists>x db'. claim_outbox i w now until n db = Inr (Some x, db'))"
    by (simp only: listed_outbox[OF assms(1)] claim_outbox_iff[OF assms])
  show "(\<exists>r \<in> set (list_recoverable_inbox db now). ib_key r = k \<and> ib_revision r = n) \<longleftrightarrow>
      (\<exists>x db'. claim_inbox k w now until n db = Inr (Some x, db'))"
    by (simp only: listed_inbox[OF assms(1)] claim_inbox_iff[OF assms])
  show "\<exists>r \<in> set (list_recoverable_outbox db' later). ob_id r = i \<and> ob_revision r = n + 1"
    if "claim_outbox i w now until n db = Inr (Some x, db')" "until \<le> later"
    using claimed_is_due_later[OF that] listed_outbox[OF claim_outbox_keeps[OF assms(1) that(1)]] by blast
qed

theorem recovery_lists_the_claimable_witness:
  "\<exists>x db'. claim_outbox ''o'' ''v'' 60 90 2 sample_claimed = Inr (Some x, db')"
proof -
  have "outbox_due 60 sample_row"
    by (simp add: outbox_due_def sample_row_def outbox_open_def no_lease_at_def expired_def)
  then have "\<exists>r. find_outbox sample_claimed ''o'' = Some r \<and> ob_revision r = 2 \<and> outbox_due 60 r"
    by (simp add: sample_claimed_row sample_row_def)
  then have "\<exists>r \<in> set (list_recoverable_outbox sample_claimed 60). ob_id r = ''o'' \<and> ob_revision r = 2"
    by (simp only: listed_outbox[OF sample_claimed_inv])
  with recovery_lists_the_claimable[OF sample_claimed_inv, of "''v''" 60 90 "''o''" 2] show ?thesis by simp
qed

section \<open>Receipts\<close>

text \<open>
  C13. The first arrival of a receipt settles the exchange that caused it: the outbox row of that exchange
  is complete, or had failed before, and no operation but archiving and deletion changes it or lists it for
  delivery again.
\<close>

theorem receipt_settles_its_exchange:
  assumes "proto_inv db" and "receive_inbox c f now db = Inr ((q, True), db1)" and "is_receipt f"
    and "pf_causation_id f = Some cause" "cause \<noteq> []"
    and "find_outbox db i = Some r" "ob_exchange r = (pf_protocol f, cause)" "pf_task_id (ob_frame r) = pf_task_id f"
    and "list_all keeps_rows ops"
  shows "\<exists>r'. find_outbox (proto_run ops db1) i = Some r' \<and> ob_status r' \<in> {ObComplete, ObFailed} \<and>
    (\<forall>x \<in> set (list_recoverable_outbox (proto_run ops db1) later). ob_id x \<noteq> i)"
proof -
  from assms(2) obtain db0 where a: "append_frame f ''inbox.received'' ''received'' c now (db\<lparr>pd_inbox := pd_inbox db @ [q]\<rparr>) = Inr db0"
    and co: "complete_original f now db0 = Inr db1"
    by (auto simp: receive_inbox_def get_inbox_def bindR_eq_Inr_conv Let_def split: option.splits if_splits)
  have same: "pd_outbox db0 = pd_outbox db" "find_outbox db0 j = find_outbox db j" for j
    using append_frame_frame(2,5)[OF a] by simp_all
  have unique: "x = r" if "x \<in> set (pd_outbox db)" "ob_exchange x = ob_exchange r" for x
    using assms(1,6) that find_outbox_Some by (auto simp: proto_inv_def proto_keys_ok_def distinct_map inj_on_def)
  have "find (\<lambda>x. ob_exchange x = (pf_protocol f, cause) \<and> pf_task_id (ob_frame x) = pf_task_id f) (pd_outbox db) = Some r"
  proof (cases "find (\<lambda>x. ob_exchange x = (pf_protocol f, cause) \<and> pf_task_id (ob_frame x) = pf_task_id f) (pd_outbox db)")
    case None
    then show ?thesis using find_outbox_Some[OF assms(6)] assms(7,8) by (auto simp: find_None_iff)
  next
    case (Some x)
    then have "x \<in> set (pd_outbox db)" "ob_exchange x = ob_exchange r" using assms(7) by (auto simp: find_Some_iff)
    with unique Some show ?thesis by blast
  qed
  moreover have id: "ob_id r = i" using find_outbox_Some[OF assms(6)] by simp
  ultimately have co': "(case update_outbox i (\<lambda>r. ob_status r \<in> {ObHeld, ObPending, ObSent})
        (\<lambda>r. r\<lparr>ob_status := ObComplete, ob_completed_at := Some now, ob_lease_owner := None,
                ob_lease_expires_at := None, ob_revision := ob_revision r + 1\<rparr>) db0 of
       None \<Rightarrow> Inr db0 | Some db2 \<Rightarrow> append_frame f ''outbox.completed'' ''complete'' i now db2) = Inr db1"
    using co assms(3-5) same by (simp add: complete_original_def non_empty_def cong: option.case_cong)
  have "\<exists>r'. find_outbox db1 i = Some r' \<and> ob_status r' \<in> {ObComplete, ObFailed}"
  proof (cases "ob_status r \<in> {ObHeld, ObPending, ObSent}")
    case True
    let ?f = "\<lambda>r. r\<lparr>ob_status := ObComplete, ob_completed_at := Some now, ob_lease_owner := None,
      ob_lease_expires_at := None, ob_revision := ob_revision r + 1\<rparr>"
    from True obtain db2 where u: "update_outbox i (\<lambda>r. ob_status r \<in> {ObHeld, ObPending, ObSent}) ?f db0 = Some db2"
      using assms(6) same by (auto simp: update_outbox_def)
    with co' have "append_frame f ''outbox.completed'' ''complete'' i now db2 = Inr db1" by simp
    from append_frame_frame(5)[OF this] find_updated_outbox[OF u, of i] assms(6) same
    show ?thesis by simp
  next
    case False
    then have "ob_status r \<in> {ObComplete, ObFailed}" by (cases "ob_status r") simp_all
    moreover from False have "update_outbox i (\<lambda>r. ob_status r \<in> {ObHeld, ObPending, ObSent}) f db0 = None" for f
      using assms(6) same by (simp add: update_outbox_def)
    with co' have "db1 = db0" by simp
    ultimately show ?thesis using assms(6) same by simp
  qed
  then obtain r1 where r1: "find_outbox db1 i = Some r1" "ob_status r1 \<in> {ObComplete, ObFailed}" by blast
  from grows_outboxD[OF run_grows[OF assms(9)] r1(1)] r1(2) have r2: "find_outbox (proto_run ops db1) i = Some r1"
    by (auto simp: outbox_grows_def)
  have inv: "proto_inv (proto_run ops db1)" using receive_keeps[OF assms(1,2)] by (rule proto_inv_run)
  have "ob_id x \<noteq> i" if "x \<in> set (list_recoverable_outbox (proto_run ops db1) later)" for x
    using that listed_outbox[OF inv, of later i "ob_revision x"] r2 r1(2) by (auto simp: outbox_due_def outbox_open_def)
  with r1(2) r2 show ?thesis by blast
qed

definition sample_receipt :: protocol_frame where
  "sample_receipt = sample_frame\<lparr>pf_exchange_id := ''y'', pf_causation_id := Some ''x'',
     pf_producer := pf_consumer sample_frame, pf_consumer := pf_producer sample_frame,
     pf_body := Receipt RsCompleted ''done'' None\<rparr>"

lemma sample_receipt_ok: "frame_ok sample_receipt \<and> is_receipt sample_receipt"
  by (simp add: frame_ok_def sample_receipt_def sample_frame_def optional_text_ok_def max_safe_integer_def body_ok_def
      is_receipt_def statuses_def)

lemma complete_original_ok:
  assumes "proto_inv db" and "refers (pd_coord db) (pf_task_id f) (pf_run_id f)"
  shows "\<exists>db'. complete_original f now db = Inr db'"
  using append_frame_ok assms(2)
  by (auto simp: complete_original_def update_outbox_frame split: bool.split option.split)

lemma receive_ok:
  assumes "proto_inv db" and "frame_ok f" "c \<noteq> []" and "refers (pd_coord db) (pf_task_id f) (pf_run_id f)"
    and "find_inbox db (inbox_key_of c f) = None"
  shows "\<exists>q db'. receive_inbox c f now db = Inr ((q, True), db')"
proof -
  define q where "q = \<lparr>ib_key = inbox_key_of c f, ib_frame = f, ib_status = IbReceived, ib_received_at = now,
    ib_completed_at = None, ib_lease_owner = None, ib_lease_expires_at = None, ib_reply_exchange_id = None, ib_revision = 1\<rparr>"
  have "proto_inv (db\<lparr>pd_inbox := pd_inbox db @ [q]\<rparr>)"
    by (rule inv_new_inbox[OF assms(1)]) (use assms in \<open>simp_all add: q_def inbox_ok_def inbox_key_of_def\<close>)
  moreover obtain db1 where a: "append_frame f ''inbox.received'' ''received'' c now (db\<lparr>pd_inbox := pd_inbox db @ [q]\<rparr>) = Inr db1"
    using append_frame_ok[of "db\<lparr>pd_inbox := pd_inbox db @ [q]\<rparr>" f "''inbox.received''" "''received''" c now] assms(4) by auto
  ultimately obtain db2 where "complete_original f now db1 = Inr db2"
    using complete_original_ok[of db1 f] inv_append_frame[OF a] assms(4) append_frame_frame(1)[OF a] by auto
  with a assms have "receive_inbox c f now db = Inr ((q, True), db2)"
    by (simp add: receive_inbox_def get_inbox_def q_def refers_def Let_def)
  then show ?thesis by blast
qed

theorem receipt_settles_its_exchange_witness:
  "\<exists>q db1. receive_inbox ''sys'' sample_receipt 20 sample_claimed = Inr ((q, True), db1) \<and>
    list_all (\<lambda>x. ob_id x \<noteq> ''o'') (list_recoverable_outbox (proto_run [POClaimOut ''o'' ''v'' 60 90 2] db1) 70)"
proof -
  have refs: "refers (pd_coord sample_claimed) (pf_task_id sample_receipt) (pf_run_id sample_receipt)"
    using find_outbox_refers[OF sample_claimed_inv sample_claimed_row] by (simp add: sample_row_def sample_receipt_def)
  have none: "find_inbox sample_claimed (inbox_key_of ''sys'' sample_receipt) = None"
    using sample_task_found
    by (auto simp: sample_claimed_def sample_task_db_def sample_enqueue_def sample_frame_ok sample_frame_fields
        find_inbox_def outbox_run_defs)
  obtain q db1 where r: "receive_inbox ''sys'' sample_receipt 20 sample_claimed = Inr ((q, True), db1)"
    using receive_ok[OF sample_claimed_inv _ _ refs none] sample_receipt_ok by blast
  from receipt_settles_its_exchange[OF sample_claimed_inv r _ _ _ sample_claimed_row, of "''x''" "[POClaimOut ''o'' ''v'' 60 90 2]" 70]
  have "\<forall>x \<in> set (list_recoverable_outbox (proto_run [POClaimOut ''o'' ''v'' 60 90 2] db1) 70). ob_id x \<noteq> ''o''"
    using sample_receipt_ok by (auto simp: sample_receipt_def sample_row_def sample_frame_fields)
  with r show ?thesis by (auto simp: list_all_iff)
qed

end
