(* ===== verification/ProtocolBridges.thy ===== *)
theory ProtocolBridges
  imports ProtocolProperties
begin

text \<open>
  The host's side of two protocols over the delivery tables: the SAP bridge
  (\<open>src/coordination/sap-task-bridge.ts\<close>), which hands an execution to an agent and takes its result,
  and the AAP bridge (\<open>src/coordination/aap-mailbox-bridge.ts\<close>), which does the same for a question of
  one agent to another. Each operation is one transaction: a function of the database that raises
  (\<open>Inl\<close>, rolled back) or returns with the new database. Fresh identifiers and the clock are arguments.
\<close>

section \<open>Transactions\<close>

type_synonym 'a transaction = "protocol_db \<Rightarrow> protocol_error_kind + 'a \<times> protocol_db"

definition bindT :: "'a transaction \<Rightarrow> ('a \<Rightarrow> 'b transaction) \<Rightarrow> 'b transaction" where
  "bindT m f db = bindR (m db) (\<lambda>(x, db'). f x db')"

definition returnT :: "'a \<Rightarrow> 'a transaction" where
  "returnT x db = Inr (x, db)"

definition readT :: "(protocol_db \<Rightarrow> protocol_error_kind + 'a) \<Rightarrow> 'a transaction" where
  "readT f db = bindR (f db) (\<lambda>x. Inr (x, db))"

definition ensureT :: "bool \<Rightarrow> protocol_error_kind \<Rightarrow> unit transaction" where
  "ensureT b e db = bindR (ensure b e) (\<lambda>x. Inr (x, db))"

lemma bindT_Inr: "bindT m f db = Inr y \<longleftrightarrow> (\<exists>x db'. m db = Inr (x, db') \<and> f x db' = Inr y)"
  by (auto simp: bindT_def bindR_eq_Inr_conv)

lemma returnT_Inr [simp]: "returnT x db = Inr y \<longleftrightarrow> y = (x, db)"
  by (auto simp: returnT_def)

lemma readT_Inr [simp]: "readT f db = Inr y \<longleftrightarrow> (\<exists>x. f db = Inr x \<and> y = (x, db))"
  by (auto simp: readT_def bindR_eq_Inr_conv)

lemma ensureT_Inr [simp]: "ensureT b e db = Inr y \<longleftrightarrow> b \<and> y = ((), db)"
  by (auto simp: ensureT_def bindR_eq_Inr_conv)

lemma bindT_step: "m db = Inr (x, db') \<Longrightarrow> bindT m f db = f x db'"
  by (simp add: bindT_def)

section \<open>The SAP bridge\<close>

record bridge =
  bg_lease_ms :: int
  bg_deadline_ms :: int

definition positive_duration :: "int option \<Rightarrow> int \<Rightarrow> string + int" where
  "positive_duration v fallback = (case v of None \<Rightarrow> Inr fallback
     | Some ms \<Rightarrow> if ms \<le> 0 then Inl ''SAP duration must be positive'' else Inr ms)"

definition sap_bridge :: "int option \<Rightarrow> int option \<Rightarrow> string + bridge" where
  "sap_bridge lease deadline =
    bindR (positive_duration lease (30 * 60000)) (\<lambda>l.
    bindR (positive_duration deadline (24 * 60 * 60000)) (\<lambda>d. Inr \<lparr>bg_lease_ms = l, bg_deadline_ms = d\<rparr>))"

record execute_dispatch =
  xd_outbox_id :: ident
  xd_destination :: ident
  xd_frame :: protocol_frame

record admission =
  ad_should_execute :: bool
  ad_inbox :: inbox_record
  ad_outbox :: outbox_record
  ad_lease_owner :: ident

datatype disposition = ResultAccepted | ResultDuplicate | ResultLate

definition disposition_name :: "disposition \<Rightarrow> string" where
  "disposition_name d = (case d of ResultAccepted \<Rightarrow> ''accepted'' | ResultDuplicate \<Rightarrow> ''duplicate'' | ResultLate \<Rightarrow> ''late'')"

record execute_input =
  xi_task_id :: ident
  xi_run_id :: ident
  xi_role_id :: ident
  xi_instruction :: string
  xi_instruction_ref :: "string option"
  xi_council_seat :: "string option"
  xi_deadline_at :: "timestamp option"
  xi_exchange_id :: "ident option"

definition outbox_name :: "ident \<Rightarrow> ident" where
  "outbox_name exchange = ''outbox_'' @ exchange"

definition parsed :: "protocol_frame \<Rightarrow> protocol_error_kind + protocol_frame" where
  \<comment> \<open>the schema of a frame, whose kind its literals fix\<close>
  "parsed f = (if frame_ok f then Inr f else Inl InvalidFrame)"

definition create_execute ::
  "bridge \<Rightarrow> ident \<Rightarrow> timestamp \<Rightarrow> execute_input \<Rightarrow> protocol_error_kind + execute_dispatch" where
  "create_execute bg fresh now inp =
    (let exchange = or_default (xi_exchange_id inp) fresh in
     bindR (parsed \<lparr>pf_protocol = SystemAgent, pf_exchange_id = exchange, pf_causation_id = None,
        pf_task_id = xi_task_id inp, pf_run_id = xi_run_id inp,
        pf_producer = \<lparr>pr_kind = KSystem, pr_role_id = None\<rparr>,
        pf_consumer = \<lparr>pr_kind = KAgent, pr_role_id = Some (xi_role_id inp)\<rparr>,
        pf_attempt = 1, pf_created_at = now,
        pf_deadline_at = or_default (xi_deadline_at inp) (now + bg_deadline_ms bg),
        pf_body = Execute (xi_council_seat inp) \<lparr>ins_text = xi_instruction inp, ins_ref = xi_instruction_ref inp\<rparr>\<rparr>)
       (\<lambda>f. Inr \<lparr>xd_outbox_id = outbox_name exchange, xd_destination = xi_role_id inp, xd_frame = f\<rparr>))"

definition plain_enqueue :: "ident \<Rightarrow> ident \<Rightarrow> protocol_frame \<Rightarrow> enqueue_input" where
  "plain_enqueue i destination f = \<lparr>en_id = i, en_destination = destination, en_frame = f, en_held = None,
     en_activated_at = None, en_next_attempt_at = None\<rparr>"

definition enqueue_execute :: "execute_dispatch \<Rightarrow> outbox_record transaction" where
  "enqueue_execute d db =
    (case get_outbox db (xd_outbox_id d) of
       Some existing \<Rightarrow>
         (if pf_exchange_id (ob_frame existing) \<noteq> pf_exchange_id (xd_frame d)
          then Inl (OutboxOfOtherExchange (xd_outbox_id d)) else Inr (existing, db))
     | None \<Rightarrow> enqueue_outbox (plain_enqueue (xd_outbox_id d) (xd_destination d) (xd_frame d)) db)"

definition commit_dispatch :: "coord_commit \<Rightarrow> execute_dispatch \<Rightarrow> stored_event list transaction" where
  "commit_dispatch c d =
    bindT (commit_protocol_state c) (\<lambda>evs. bindT (enqueue_execute d) (\<lambda>_. returnT evs))"

definition null_text :: "string option \<Rightarrow> string" where
  \<comment> \<open>a nullable string in a template literal\<close>
  "null_text s = or_default s ''null''"

definition sap_owner :: "execute_dispatch \<Rightarrow> ident" where
  "sap_owner d = ''sap-agent:'' @ null_text (pr_role_id (pf_consumer (xd_frame d))) @ '':'' @ pf_exchange_id (xd_frame d)"

definition execute_key :: "execute_dispatch \<Rightarrow> inbox_key" where
  "execute_key d = inbox_key_of (xd_destination d) (xd_frame d)"

definition lease_end :: "bridge \<Rightarrow> timestamp \<Rightarrow> execute_dispatch \<Rightarrow> timestamp" where
  "lease_end bg now d = min (now + bg_lease_ms bg) (pf_deadline_at (xd_frame d))"

definition begin_execute :: "bridge \<Rightarrow> timestamp \<Rightarrow> execute_dispatch \<Rightarrow> admission transaction" where
  "begin_execute bg now d =
    (let f = xd_frame d; owner = sap_owner d; until = lease_end bg now d; k = execute_key d;
         refuse = (\<lambda>ib ob. returnT \<lparr>ad_should_execute = False, ad_inbox = ib, ad_outbox = ob, ad_lease_owner = owner\<rparr>)
     in bindT (readT (\<lambda>db. Inr (get_inbox db k))) (\<lambda>existing.
        bindT (readT (\<lambda>db. Inr (get_outbox db (''outbox_sap_cancel_'' @ pf_exchange_id f)))) (\<lambda>cancelled.
        bindT (readT (\<lambda>db. require_outbox db (xd_outbox_id d))) (\<lambda>outbox.
          case existing of
            Some ib \<Rightarrow>
              (if ib_status ib = IbComplete \<or> cancelled \<noteq> None then refuse ib outbox
               else bindT (claim_inbox (ib_key ib) owner now until (ib_revision ib)) (\<lambda>reclaimed.
                 returnT \<lparr>ad_should_execute = (reclaimed \<noteq> None), ad_inbox = or_default reclaimed ib,
                          ad_outbox = outbox, ad_lease_owner = owner\<rparr>))
          | None \<Rightarrow>
              bindT (claim_outbox (xd_outbox_id d) owner now until (ob_revision outbox)) (\<lambda>claimed.
              bindT (receive_inbox (xd_destination d) f now) (\<lambda>(received, _).
                case claimed of
                  None \<Rightarrow> refuse received outbox
                | Some claimed_outbox \<Rightarrow>
                    bindT (claim_inbox (ib_key received) owner now until (ib_revision received)) (\<lambda>claimed_inbox.
                      case claimed_inbox of
                        None \<Rightarrow> refuse received claimed_outbox
                      | Some ib \<Rightarrow>
                          bindT (mark_outbox_sent (xd_outbox_id d) owner (ob_revision claimed_outbox) now) (\<lambda>sent.
                            returnT \<lparr>ad_should_execute = True, ad_inbox = ib, ad_outbox = sent,
                                     ad_lease_owner = owner\<rparr>))))))))"

record result_input =
  ri_status :: receipt_status
  ri_summary :: string
  ri_error :: "protocol_error option"
  ri_exchange_id :: "ident option"

definition create_result ::
  "ident \<Rightarrow> timestamp \<Rightarrow> protocol_frame \<Rightarrow> result_input \<Rightarrow> protocol_error_kind + protocol_frame" where
  "create_result fresh now ex inp =
    parsed \<lparr>pf_protocol = SystemAgent, pf_exchange_id = or_default (ri_exchange_id inp) fresh,
      pf_causation_id = Some (pf_exchange_id ex), pf_task_id = pf_task_id ex, pf_run_id = pf_run_id ex,
      pf_producer = \<lparr>pr_kind = KAgent, pr_role_id = pr_role_id (pf_consumer ex)\<rparr>,
      pf_consumer = \<lparr>pr_kind = KSystem, pr_role_id = None\<rparr>, pf_attempt = 1, pf_created_at = now,
      pf_deadline_at = pf_deadline_at ex, pf_body = Receipt (ri_status inp) (ri_summary inp) (ri_error inp)\<rparr>"

definition create_cancel :: "ident option \<Rightarrow> timestamp \<Rightarrow> protocol_frame \<Rightarrow> protocol_error_kind + protocol_frame" where
  "create_cancel exchange now ex =
    parsed \<lparr>pf_protocol = SystemAgent, pf_exchange_id = or_default exchange (''sap_cancel_'' @ pf_exchange_id ex),
      pf_causation_id = Some (pf_exchange_id ex), pf_task_id = pf_task_id ex, pf_run_id = pf_run_id ex,
      pf_producer = \<lparr>pr_kind = KSystem, pr_role_id = None\<rparr>,
      pf_consumer = \<lparr>pr_kind = KAgent, pr_role_id = pr_role_id (pf_consumer ex)\<rparr>, pf_attempt = 1, pf_created_at = now,
      pf_deadline_at = pf_deadline_at ex, pf_body = Cancel (pf_exchange_id ex)\<rparr>"

definition get_dispatch :: "protocol_db \<Rightarrow> ident \<Rightarrow> execute_dispatch option" where
  "get_dispatch db i =
    (case get_outbox db i of
       None \<Rightarrow> None
     | Some ob \<Rightarrow>
         (case pf_body (ob_frame ob) of
            Execute _ _ \<Rightarrow> Some \<lparr>xd_outbox_id = ob_id ob, xd_destination = ob_destination ob, xd_frame = ob_frame ob\<rparr>
          | _ \<Rightarrow> None))"

definition classify_result :: "admission \<Rightarrow> protocol_frame \<Rightarrow> disposition transaction" where
  "classify_result adm res =
    (let k = ib_key (ad_inbox adm); exchange = ik_exchange_id k in
     bindT (ensureT (pf_causation_id res = Some exchange) ResultOfOtherExchange) (\<lambda>_.
     bindT (readT (\<lambda>db. Inr (get_inbox db k))) (\<lambda>current.
     bindT (readT (\<lambda>db. Inr (get_outbox db (''outbox_sap_cancel_'' @ exchange)))) (\<lambda>cancelled.
       returnT (case current of
           Some ib \<Rightarrow>
             (if ib_status ib = IbComplete
              then (if ib_reply_exchange_id ib = Some (pf_exchange_id res) then ResultDuplicate else ResultLate)
              else if cancelled \<noteq> None then ResultLate
              else if pf_created_at res > pf_deadline_at (ib_frame (ad_inbox adm)) then ResultLate else ResultAccepted)
         | None \<Rightarrow>
             (if cancelled \<noteq> None then ResultLate
              else if pf_created_at res > pf_deadline_at (ib_frame (ad_inbox adm)) then ResultLate
              else ResultAccepted))))))"

definition plain_complete :: "inbox_key \<Rightarrow> ident \<Rightarrow> nat \<Rightarrow> timestamp \<Rightarrow> enqueue_input option \<Rightarrow> complete_input" where
  "plain_complete k owner n now reply = \<lparr>cpl_key = k, cpl_lease_owner = owner, cpl_expected_revision = n,
     cpl_completed_at = now, cpl_reply = reply\<rparr>"

definition complete_result :: "bridge \<Rightarrow> admission \<Rightarrow> protocol_frame \<Rightarrow> unit transaction" where
  "complete_result bg adm res =
    (let now = pf_created_at res; i = outbox_name (pf_exchange_id res);
         owner = ''sap-system:'' @ pf_exchange_id res; until = min (now + bg_lease_ms bg) (pf_deadline_at res)
     in bindT (ensureT (pf_causation_id res = Some (ik_exchange_id (ib_key (ad_inbox adm)))) ResultOfOtherExchange) (\<lambda>_.
        bindT (complete_inbox (plain_complete (ib_key (ad_inbox adm)) (ad_lease_owner adm) (ib_revision (ad_inbox adm)) now
            (Some (plain_enqueue i ''system'' res)))) (\<lambda>_.
        bindT (readT (\<lambda>db. require_outbox db i)) (\<lambda>reply.
        bindT (claim_outbox (ob_id reply) owner now until (ob_revision reply)) (\<lambda>claimed.
          case claimed of
            None \<Rightarrow> (\<lambda>_. Inl (ResultNotClaimed (pf_exchange_id res)))
          | Some c \<Rightarrow>
              bindT (mark_outbox_sent (ob_id c) owner (ob_revision c) now) (\<lambda>_.
              bindT (receive_inbox ''system'' res now) (\<lambda>(system, _).
              bindT (claim_inbox (ib_key system) owner now until (ib_revision system)) (\<lambda>claimed_inbox.
                case claimed_inbox of
                  None \<Rightarrow> (\<lambda>_. Inl (ResultAlreadyProcessed (pf_exchange_id res)))
                | Some ib \<Rightarrow>
                    bindT (complete_inbox (plain_complete (ib_key ib) owner (ib_revision ib) now None)) (\<lambda>_.
                      returnT ())))))))))"

definition deliver_sap_result :: "bridge \<Rightarrow> protocol_frame \<Rightarrow> unit transaction" where
  "deliver_sap_result bg res =
    (let now = pf_created_at res; i = outbox_name (pf_exchange_id res);
         owner = ''sap-system:'' @ pf_exchange_id res; until = now + bg_lease_ms bg
     in bindT (readT (\<lambda>db. require_outbox db i)) (\<lambda>reply.
        bindT (if ob_status reply = ObPending
               then bindT (claim_outbox (ob_id reply) owner now until (ob_revision reply)) (\<lambda>claimed.
                 case claimed of None \<Rightarrow> returnT ()
                 | Some c \<Rightarrow> bindT (mark_outbox_sent (ob_id c) owner (ob_revision c) now) (\<lambda>_. returnT ()))
               else returnT ()) (\<lambda>_.
        bindT (receive_inbox ''system'' res now) (\<lambda>(received, _).
          if ib_status received = IbComplete then returnT ()
          else bindT (claim_inbox (ib_key received) owner now until (ib_revision received)) (\<lambda>claimed_inbox.
            case claimed_inbox of None \<Rightarrow> returnT ()
            | Some ib \<Rightarrow>
                bindT (complete_inbox (plain_complete (ib_key ib) owner (ib_revision ib) now None)) (\<lambda>_. returnT ()))))))"

definition enqueue_once :: "ident \<Rightarrow> ident \<Rightarrow> protocol_frame \<Rightarrow> unit transaction" where
  \<comment> \<open>\<open>if (!transaction.getOutbox(id)) transaction.enqueueOutbox(...)\<close>\<close>
  "enqueue_once i destination f db =
    (if get_outbox db i = None then bindT (enqueue_outbox (plain_enqueue i destination f)) (\<lambda>_. returnT ()) db
     else Inr ((), db))"

definition complete_late_result :: "bridge \<Rightarrow> protocol_frame \<Rightarrow> unit transaction" where
  "complete_late_result bg res =
    bindT (enqueue_once (outbox_name (pf_exchange_id res)) ''system'' res) (\<lambda>_. deliver_sap_result bg res)"

definition commit_result :: "bridge \<Rightarrow> coord_commit \<Rightarrow> admission \<Rightarrow> protocol_frame \<Rightarrow> stored_event list transaction" where
  "commit_result bg c adm res =
    bindT (classify_result adm res) (\<lambda>disposition.
    bindT (ensureT (disposition = ResultAccepted)
        (ResultNotAccepted (pf_exchange_id res) (disposition_name disposition))) (\<lambda>_.
    bindT (commit_protocol_state c) (\<lambda>evs.
    bindT (complete_result bg adm res) (\<lambda>_. returnT evs))))"

definition accept_result :: "bridge \<Rightarrow> admission \<Rightarrow> protocol_frame \<Rightarrow> disposition transaction" where
  "accept_result bg adm res =
    bindT (classify_result adm res) (\<lambda>disposition.
    bindT (if disposition = ResultLate then complete_late_result bg res else returnT ()) (\<lambda>_.
    bindT (if disposition = ResultAccepted then complete_result bg adm res else returnT ()) (\<lambda>_.
      returnT disposition)))"

definition record_late_result :: "bridge \<Rightarrow> admission \<Rightarrow> protocol_frame \<Rightarrow> unit transaction" where
  "record_late_result bg adm res =
    bindT (classify_result adm res) (\<lambda>disposition.
      if disposition = ResultLate then complete_late_result bg res else returnT ())"

definition enqueue_cancel :: "execute_dispatch \<Rightarrow> protocol_frame \<Rightarrow> unit transaction" where
  "enqueue_cancel d cancel = enqueue_once (outbox_name (pf_exchange_id cancel)) (xd_destination d) cancel"

definition commit_cancel :: "coord_commit \<Rightarrow> execute_dispatch \<Rightarrow> protocol_frame \<Rightarrow> stored_event list transaction" where
  "commit_cancel c d cancel =
    bindT (commit_protocol_state c) (\<lambda>evs. bindT (enqueue_cancel d cancel) (\<lambda>_. returnT evs))"

section \<open>The AAP bridge\<close>

definition aap_bridge :: "int option \<Rightarrow> int option \<Rightarrow> bridge" where
  \<comment> \<open>a duration that is not positive is replaced by the default\<close>
  "aap_bridge lease deadline =
    (let positive = (\<lambda>v fallback. case v of Some ms \<Rightarrow> if 0 < ms then ms else fallback | None \<Rightarrow> fallback)
     in \<lparr>bg_lease_ms = positive lease (30 * 60000), bg_deadline_ms = positive deadline (10 * 60000)\<rparr>)"

record ask_dispatch =
  ak_outbox_id :: ident
  ak_destination :: ident
  ak_message_id :: ident
  ak_delivery_id :: ident
  ak_frame :: protocol_frame

record ask_input =
  ai_task_id :: ident
  ai_run_id :: ident
  ai_from_role_id :: ident
  ai_to_role_id :: ident
  ai_message_id :: ident
  ai_delivery_id :: ident
  ai_content :: string
  ai_deadline_at :: "timestamp option"
  ai_causation_id :: "ident option"
  ai_exchange_id :: "ident option"

definition create_ask :: "bridge \<Rightarrow> ident \<Rightarrow> timestamp \<Rightarrow> ask_input \<Rightarrow> protocol_error_kind + ask_dispatch" where
  "create_ask bg fresh now inp =
    (let exchange = or_default (ai_exchange_id inp) fresh in
     bindR (parsed \<lparr>pf_protocol = AgentAgent, pf_exchange_id = exchange, pf_causation_id = ai_causation_id inp,
        pf_task_id = ai_task_id inp, pf_run_id = ai_run_id inp,
        pf_producer = \<lparr>pr_kind = KAgent, pr_role_id = Some (ai_from_role_id inp)\<rparr>,
        pf_consumer = \<lparr>pr_kind = KAgent, pr_role_id = Some (ai_to_role_id inp)\<rparr>,
        pf_attempt = 1, pf_created_at = now,
        pf_deadline_at = or_default (ai_deadline_at inp) (now + bg_deadline_ms bg),
        pf_body = Ask \<lparr>ins_text = ai_content inp, ins_ref = None\<rparr>\<rparr>)
       (\<lambda>f. Inr \<lparr>ak_outbox_id = outbox_name exchange, ak_destination = ai_to_role_id inp,
          ak_message_id = ai_message_id inp, ak_delivery_id = ai_delivery_id inp, ak_frame = f\<rparr>))"

definition enqueue_ask :: "ask_dispatch \<Rightarrow> outbox_record transaction" where
  "enqueue_ask d db =
    (case get_outbox db (ak_outbox_id d) of
       Some existing \<Rightarrow>
         (if pf_exchange_id (ob_frame existing) \<noteq> pf_exchange_id (ak_frame d)
          then Inl (OutboxOfOtherExchange (ak_outbox_id d)) else Inr (existing, db))
     | None \<Rightarrow> enqueue_outbox ((plain_enqueue (ak_outbox_id d) (ak_destination d) (ak_frame d))\<lparr>en_held := Some True\<rparr>) db)"

definition activate_ask :: "ask_dispatch \<Rightarrow> outbox_record transaction" where
  "activate_ask d =
    bindT (enqueue_ask d) (\<lambda>ob.
      if ob_status ob = ObHeld \<and> ob_activated_at ob = None
      then activate_outbox (ob_id ob) (ob_revision ob) (pf_created_at (ak_frame d))
      else returnT ob)"

definition commit_wait :: "coord_commit \<Rightarrow> ask_dispatch \<Rightarrow> stored_event list transaction" where
  "commit_wait c d = bindT (commit_protocol_state c) (\<lambda>evs. bindT (activate_ask d) (\<lambda>_. returnT evs))"

definition begin_ask :: "bridge \<Rightarrow> timestamp \<Rightarrow> ask_dispatch \<Rightarrow> admission transaction" where
  "begin_ask bg now d =
    (let f = ak_frame d;
         owner = ''aap-agent:'' @ ak_destination d @ '':'' @ pf_exchange_id f;
         until = min (now + bg_lease_ms bg) (pf_deadline_at f);
         k = inbox_key_of (ak_destination d) f;
         refuse = (\<lambda>ib ob. returnT \<lparr>ad_should_execute = False, ad_inbox = ib, ad_outbox = ob, ad_lease_owner = owner\<rparr>)
     in bindT (readT (\<lambda>db. Inr (get_inbox db k))) (\<lambda>existing.
        bindT (readT (\<lambda>db. require_outbox db (ak_outbox_id d))) (\<lambda>outbox.
          case existing of
            Some ib \<Rightarrow>
              (if ib_status ib = IbComplete then refuse ib outbox
               else bindT (claim_inbox (ib_key ib) owner now until (ib_revision ib)) (\<lambda>reclaimed.
                 returnT \<lparr>ad_should_execute = (reclaimed \<noteq> None), ad_inbox = or_default reclaimed ib,
                          ad_outbox = outbox, ad_lease_owner = owner\<rparr>))
          | None \<Rightarrow>
              bindT (claim_outbox (ak_outbox_id d) owner now until (ob_revision outbox)) (\<lambda>claimed.
              bindT (receive_inbox (ak_destination d) f now) (\<lambda>(received, _).
                if claimed = None \<and> ob_status outbox \<noteq> ObSent then refuse received outbox
                else
                  bindT (claim_inbox (ib_key received) owner now until (ib_revision received)) (\<lambda>claimed_inbox.
                    case claimed_inbox of
                      None \<Rightarrow> refuse received (or_default claimed outbox)
                    | Some ib \<Rightarrow>
                        bindT (case claimed of
                            None \<Rightarrow> returnT outbox
                          | Some c \<Rightarrow> mark_outbox_sent (ak_outbox_id d) owner (ob_revision c) now) (\<lambda>sent.
                          returnT \<lparr>ad_should_execute = True, ad_inbox = ib, ad_outbox = sent,
                                   ad_lease_owner = owner\<rparr>)))))))"

definition create_reply ::
  "ident \<Rightarrow> timestamp \<Rightarrow> protocol_frame \<Rightarrow> result_input \<Rightarrow> protocol_error_kind + protocol_frame" where
  "create_reply fresh now ask inp =
    parsed \<lparr>pf_protocol = AgentAgent, pf_exchange_id = or_default (ri_exchange_id inp) fresh,
      pf_causation_id = Some (pf_exchange_id ask), pf_task_id = pf_task_id ask, pf_run_id = pf_run_id ask,
      pf_producer = \<lparr>pr_kind = KAgent, pr_role_id = pr_role_id (pf_consumer ask)\<rparr>,
      pf_consumer = \<lparr>pr_kind = KAgent, pr_role_id = pr_role_id (pf_producer ask)\<rparr>, pf_attempt = 1, pf_created_at = now,
      pf_deadline_at = pf_deadline_at ask, pf_body = Receipt (ri_status inp) (ri_summary inp) (ri_error inp)\<rparr>"

definition classify_reply :: "admission \<Rightarrow> protocol_frame \<Rightarrow> disposition transaction" where
  "classify_reply adm reply =
    bindT (ensureT (pf_causation_id reply = Some (ik_exchange_id (ib_key (ad_inbox adm)))) ResultOfOtherExchange) (\<lambda>_.
    bindT (readT (\<lambda>db. Inr (get_inbox db (ib_key (ad_inbox adm))))) (\<lambda>current.
      let in_time = (if pf_created_at reply > pf_deadline_at (ib_frame (ad_inbox adm)) then ResultLate else ResultAccepted)
      in returnT (case current of
           Some ib \<Rightarrow>
             (if ib_status ib = IbComplete
              then (if ib_reply_exchange_id ib = Some (pf_exchange_id reply) then ResultDuplicate else ResultLate)
              else in_time)
         | None \<Rightarrow> in_time)))"

definition deliver_reply :: "bridge \<Rightarrow> protocol_frame \<Rightarrow> unit transaction" where
  "deliver_reply bg reply =
    (let now = pf_created_at reply; owner = ''aap-system:'' @ pf_exchange_id reply; until = now + bg_lease_ms bg
     in bindT (readT (\<lambda>db. require_outbox db (outbox_name (pf_exchange_id reply)))) (\<lambda>outbox.
        bindT (if ob_status outbox = ObPending then claim_outbox (ob_id outbox) owner now until (ob_revision outbox)
               else returnT (Some outbox)) (\<lambda>claimed.
        bindT (case claimed of
            Some c \<Rightarrow> if ob_status c = ObPending
              then bindT (mark_outbox_sent (ob_id c) owner (ob_revision c) now) (\<lambda>_. returnT ()) else returnT ()
          | None \<Rightarrow> returnT ()) (\<lambda>_.
        bindT (receive_inbox ''system'' reply now) (\<lambda>(received, _).
          if ib_status received = IbComplete then returnT ()
          else bindT (claim_inbox (ib_key received) owner now until (ib_revision received)) (\<lambda>claimed_inbox.
            case claimed_inbox of None \<Rightarrow> returnT ()
            | Some ib \<Rightarrow>
                bindT (complete_inbox (plain_complete (ib_key ib) owner (ib_revision ib) now None)) (\<lambda>_. returnT ())))))))"

definition complete_reply :: "bridge \<Rightarrow> admission \<Rightarrow> protocol_frame \<Rightarrow> unit transaction" where
  "complete_reply bg adm reply =
    bindT (complete_inbox (plain_complete (ib_key (ad_inbox adm)) (ad_lease_owner adm) (ib_revision (ad_inbox adm))
        (pf_created_at reply)
        (Some (plain_enqueue (outbox_name (pf_exchange_id reply)) (or_default (pr_role_id (pf_consumer reply)) ''system'') reply))))
      (\<lambda>_. deliver_reply bg reply)"

definition record_late_reply :: "bridge \<Rightarrow> protocol_frame \<Rightarrow> unit transaction" where
  "record_late_reply bg reply =
    bindT (enqueue_once (outbox_name (pf_exchange_id reply)) ''system'' reply) (\<lambda>_. deliver_reply bg reply)"

definition accept_reply :: "bridge \<Rightarrow> admission \<Rightarrow> protocol_frame \<Rightarrow> disposition transaction" where
  "accept_reply bg adm reply =
    bindT (classify_reply adm reply) (\<lambda>disposition.
    bindT (if disposition = ResultAccepted then complete_reply bg adm reply else returnT ()) (\<lambda>_.
    bindT (if disposition = ResultLate then record_late_reply bg reply else returnT ()) (\<lambda>_.
      returnT disposition)))"

section \<open>What every transaction keeps\<close>

definition soundT :: "'a transaction \<Rightarrow> bool" where
  \<comment> \<open>rows only grow and the invariant is kept\<close>
  "soundT m \<longleftrightarrow> (\<forall>db x db'. m db = Inr (x, db') \<longrightarrow> grows db db' \<and> (proto_inv db \<longrightarrow> proto_inv db'))"

named_theorems sound_rules \<open>transactions that are sound\<close>

lemma soundT_bind [sound_rules]: "soundT m \<Longrightarrow> (\<And>x. soundT (f x)) \<Longrightarrow> soundT (bindT m f)"
  unfolding soundT_def bindT_Inr by (meson grows_trans)

lemma soundT_pure [sound_rules]:
  "soundT (returnT x)" "soundT (readT g)" "soundT (ensureT b e)" "soundT (\<lambda>_. Inl e)"
  by (auto simp: soundT_def)

lemma soundT_store [sound_rules]:
  "soundT (commit_protocol_state c)" "soundT (enqueue_outbox inp)" "soundT (activate_outbox i n now)"
  "soundT (claim_outbox i w now until n)" "soundT (mark_outbox_sent i w n now)" "soundT (receive_inbox con f now)"
  "soundT (claim_inbox k w now until n)" "soundT (complete_inbox cpl)"
  by (auto simp: soundT_def intro: commit_grows commit_keeps enqueue_grows enqueue_keeps activate_grows activate_keeps
      claim_outbox_grows claim_outbox_keeps sent_grows sent_keeps receive_grows receive_keeps claim_inbox_grows
      claim_inbox_keeps complete_inbox_grows complete_inbox_keeps)

lemma soundT_once [sound_rules]: "soundT (enqueue_once i destination f)"
  by (auto simp: soundT_def enqueue_once_def bindT_Inr intro: enqueue_grows enqueue_keeps)

lemma soundT_enqueue [sound_rules]: "soundT (enqueue_execute d)" "soundT (enqueue_ask a)"
  by (auto simp: soundT_def enqueue_execute_def enqueue_ask_def split: option.splits if_splits
      intro: enqueue_grows enqueue_keeps)

lemma soundT_if [sound_rules]: "soundT m \<Longrightarrow> soundT n \<Longrightarrow> soundT (if b then m else n)"
  by simp

lemma soundT_option [sound_rules]: "soundT m \<Longrightarrow> (\<And>x. soundT (f x)) \<Longrightarrow> soundT (case v of None \<Rightarrow> m | Some x \<Rightarrow> f x)"
  by (cases v) simp_all

lemma soundT_prod [sound_rules]: "(\<And>x y. soundT (f x y)) \<Longrightarrow> soundT (case p of (x, y) \<Rightarrow> f x y)"
  by (cases p) simp

lemma soundT_classify [sound_rules]: "soundT (classify_result adm res)" "soundT (classify_reply adm res)"
  unfolding classify_result_def classify_reply_def Let_def by (intro sound_rules)+

lemma soundT_deliver [sound_rules]: "soundT (deliver_sap_result bg res)" "soundT (deliver_reply bg res)"
  unfolding deliver_sap_result_def deliver_reply_def Let_def by (intro sound_rules)+

lemma soundT_complete [sound_rules]: "soundT (complete_result bg adm res)" "soundT (complete_reply bg adm res)"
  unfolding complete_result_def complete_reply_def Let_def by (intro sound_rules)+

lemma soundT_late [sound_rules]: "soundT (complete_late_result bg res)" "soundT (record_late_reply bg res)"
  unfolding complete_late_result_def record_late_reply_def by (intro sound_rules)+

lemma soundT_bridge:
  "soundT (commit_dispatch c d)" "soundT (begin_execute bg now d)" "soundT (commit_result bg c adm res)"
  "soundT (accept_result bg adm res)" "soundT (record_late_result bg adm res)" "soundT (enqueue_cancel d f)"
  "soundT (commit_cancel c d f)" "soundT (activate_ask a)" "soundT (commit_wait c a)" "soundT (begin_ask bg now a)"
  "soundT (accept_reply bg adm res)"
  unfolding commit_dispatch_def begin_execute_def commit_result_def accept_result_def record_late_result_def
    enqueue_cancel_def commit_cancel_def activate_ask_def commit_wait_def begin_ask_def accept_reply_def Let_def
  by (intro sound_rules)+

end
