(* ===== verification/BridgeProperties.thy ===== *)
theory BridgeProperties
  imports ProtocolBridges
begin

text \<open>
  What the bridges promise: an exchange takes one result, an admission excludes others while its lease
  lasts, and a result is taken when it was created before the lease ended.
\<close>

section \<open>Everything that may happen to an exchange\<close>

inductive delivers :: "protocol_db \<Rightarrow> protocol_db \<Rightarrow> bool" where
  Same: "delivers db db"
| Store: "delivers db db1 \<Longrightarrow> keeps_rows op \<Longrightarrow> proto_apply op db1 = Inr db2 \<Longrightarrow> delivers db db2"
| Dispatch: "delivers db db1 \<Longrightarrow> commit_dispatch c d db1 = Inr (evs, db2) \<Longrightarrow> delivers db db2"
| Begin: "delivers db db1 \<Longrightarrow> begin_execute bg now d db1 = Inr (adm, db2) \<Longrightarrow> delivers db db2"
| Result: "delivers db db1 \<Longrightarrow> commit_result bg c adm res db1 = Inr (evs, db2) \<Longrightarrow> delivers db db2"
| Accept: "delivers db db1 \<Longrightarrow> accept_result bg adm res db1 = Inr (di, db2) \<Longrightarrow> delivers db db2"
| Late: "delivers db db1 \<Longrightarrow> record_late_result bg adm res db1 = Inr (u, db2) \<Longrightarrow> delivers db db2"
| Cancelled: "delivers db db1 \<Longrightarrow> commit_cancel c d res db1 = Inr (evs, db2) \<Longrightarrow> delivers db db2"
| CancelOnly: "delivers db db1 \<Longrightarrow> enqueue_cancel d res db1 = Inr (u, db2) \<Longrightarrow> delivers db db2"
| Persist: "delivers db db1 \<Longrightarrow> activate_ask a db1 = Inr (ob, db2) \<Longrightarrow> delivers db db2"
| Wait: "delivers db db1 \<Longrightarrow> commit_wait c a db1 = Inr (evs, db2) \<Longrightarrow> delivers db db2"
| BeginAsk: "delivers db db1 \<Longrightarrow> begin_ask bg now a db1 = Inr (adm, db2) \<Longrightarrow> delivers db db2"
| Reply: "delivers db db1 \<Longrightarrow> accept_reply bg adm res db1 = Inr (di, db2) \<Longrightarrow> delivers db db2"

lemma soundT_grows: "soundT m \<Longrightarrow> m db = Inr (x, db') \<Longrightarrow> grows db db'"
  by (auto simp: soundT_def)

lemma soundT_inv: "soundT m \<Longrightarrow> m db = Inr (x, db') \<Longrightarrow> proto_inv db \<Longrightarrow> proto_inv db'"
  by (auto simp: soundT_def)

lemma delivers_grows: "delivers db db' \<Longrightarrow> grows db db'"
  by (induction rule: delivers.induct)
    (auto intro: grows_trans apply_grows grows_trans[OF _ soundT_grows[OF soundT_bridge(1)]]
      grows_trans[OF _ soundT_grows[OF soundT_bridge(2)]] grows_trans[OF _ soundT_grows[OF soundT_bridge(3)]]
      grows_trans[OF _ soundT_grows[OF soundT_bridge(4)]] grows_trans[OF _ soundT_grows[OF soundT_bridge(5)]]
      grows_trans[OF _ soundT_grows[OF soundT_bridge(6)]] grows_trans[OF _ soundT_grows[OF soundT_bridge(7)]]
      grows_trans[OF _ soundT_grows[OF soundT_bridge(8)]] grows_trans[OF _ soundT_grows[OF soundT_bridge(9)]]
      grows_trans[OF _ soundT_grows[OF soundT_bridge(10)]] grows_trans[OF _ soundT_grows[OF soundT_bridge(11)]])

section \<open>One result\<close>

lemma complete_inbox_row:
  assumes "complete_inbox inp db = Inr (x, db')"
  shows "find_inbox db' (cpl_key inp) = Some x \<and> ib_status x = IbComplete \<and>
    ib_reply_exchange_id x = map_option (\<lambda>reply. pf_exchange_id (en_frame reply)) (cpl_reply inp)"
proof -
  from complete_inbox_Inr[OF assms] obtain r db1 db2 where r: "find_inbox db (cpl_key inp) = Some r"
      "ib_revision r = cpl_expected_revision inp"
    and db1: "case cpl_reply inp of None \<Rightarrow> db1 = db
     | Some reply \<Rightarrow> reply_of r reply \<and> (\<exists>y. enqueue_outbox reply db = Inr (y, db1))"
    and db2: "db2 = or_default (update_inbox (cpl_key inp) (\<lambda>r. ib_revision r = cpl_expected_revision inp) (completed_row inp) db1) db1"
    and a: "append_frame (ib_frame r) ''inbox.completed'' ''complete'' (ik_consumer_id (cpl_key inp)) (cpl_completed_at inp) db2 = Inr db'"
    and x: "find_inbox db' (cpl_key inp) = Some x"
    by (auto simp: claimed_by_def)
  have "find_inbox db1 (cpl_key inp) = Some r"
    using db1 r by (auto simp: enqueue_finds split: option.splits)
  then obtain db3 where u: "update_inbox (cpl_key inp) (\<lambda>r. ib_revision r = cpl_expected_revision inp) (completed_row inp) db1 = Some db3"
    "find_inbox db3 (cpl_key inp) = Some (completed_row inp r)"
    using find_updated_inbox[of "cpl_key inp" _ "completed_row inp" db1 _ "cpl_key inp"] r(2)
    by (auto simp: update_inbox_def)
  with x append_frame_frame(4)[OF a] db2 show ?thesis by (auto simp: completed_row_def)
qed

definition settled_by :: "ident \<Rightarrow> inbox_key \<Rightarrow> protocol_db \<Rightarrow> bool" where
  \<comment> \<open>the exchange is complete, answered by the given exchange\<close>
  "settled_by exchange k db \<longleftrightarrow>
     (\<exists>x. find_inbox db k = Some x \<and> ib_status x = IbComplete \<and> ib_reply_exchange_id x = Some exchange)"

lemma settled_by_grows: "settled_by e k db \<Longrightarrow> grows db db' \<Longrightarrow> settled_by e k db'"
  unfolding settled_by_def using grows_inboxD by (metis inbox_grows_def)

lemma complete_then_settled:
  assumes "bindT (complete_inbox (plain_complete k w n now (Some (plain_enqueue i dest res)))) f db = Inr (u, db')"
    and "\<And>x. soundT (f x)"
  shows "settled_by (pf_exchange_id res) k db'"
proof -
  from assms(1) obtain x db1 where c: "complete_inbox (plain_complete k w n now (Some (plain_enqueue i dest res))) db = Inr (x, db1)"
    and rest: "f x db1 = Inr (u, db')"
    by (auto simp: bindT_Inr)
  from complete_inbox_row[OF c] have "settled_by (pf_exchange_id res) k db1"
    by (simp add: settled_by_def plain_complete_def plain_enqueue_def)
  then show ?thesis using soundT_grows[OF assms(2) rest] by (rule settled_by_grows)
qed

lemma complete_result_settles:
  assumes "complete_result bg adm res db = Inr (u, db')"
  shows "settled_by (pf_exchange_id res) (ib_key (ad_inbox adm)) db'"
proof -
  from assms[unfolded complete_result_def Let_def] show ?thesis
    by (subst (asm) bindT_Inr) (auto elim!: complete_then_settled intro!: sound_rules)
qed

lemma complete_reply_settles:
  assumes "complete_reply bg adm res db = Inr (u, db')"
  shows "settled_by (pf_exchange_id res) (ib_key (ad_inbox adm)) db'"
  using assms unfolding complete_reply_def by (rule complete_then_settled) (intro sound_rules)

lemma classify_settled:
  assumes "settled_by e (ib_key (ad_inbox adm)) db" and "pf_causation_id res = Some (ik_exchange_id (ib_key (ad_inbox adm)))"
  shows "classify_result adm res db = Inr (if pf_exchange_id res = e then ResultDuplicate else ResultLate, db)"
    and "classify_reply adm res db = Inr (if pf_exchange_id res = e then ResultDuplicate else ResultLate, db)"
  using assms by (auto simp: settled_by_def classify_result_def classify_reply_def bindT_def readT_def ensureT_def returnT_def
      get_inbox_def Let_def)

lemma accepted_settles:
  assumes "accept_result bg adm res db = Inr (ResultAccepted, db1)"
  shows "settled_by (pf_exchange_id res) (ib_key (ad_inbox adm)) db1"
  using assms by (auto simp: accept_result_def bindT_Inr dest: complete_result_settles)

lemma reply_settles:
  assumes "accept_reply bg adm res db = Inr (ResultAccepted, db1)"
  shows "settled_by (pf_exchange_id res) (ib_key (ad_inbox adm)) db1"
  using assms by (auto simp: accept_reply_def bindT_Inr dest: complete_reply_settles)

text \<open>
  C9. An execution takes one result: after a result has been accepted, and whatever the store and the
  bridges do from then on, every further result for the exchange is classified as a duplicate when it is
  the same exchange again and as late otherwise, and none is committed.
\<close>

theorem one_result_per_execute:
  assumes "accept_result bg adm res db = Inr (ResultAccepted, db1)" and "delivers db1 db2"
    and "pf_causation_id other = Some (ik_exchange_id (ib_key (ad_inbox adm)))"
  shows "classify_result adm other db2 =
      Inr (if pf_exchange_id other = pf_exchange_id res then ResultDuplicate else ResultLate, db2) \<and>
    \<not> is_ok (commit_result bg c adm other db2)"
proof
  have settled: "settled_by (pf_exchange_id res) (ib_key (ad_inbox adm)) db2"
    using settled_by_grows[OF accepted_settles[OF assms(1)] delivers_grows[OF assms(2)]] .
  show "classify_result adm other db2 =
      Inr (if pf_exchange_id other = pf_exchange_id res then ResultDuplicate else ResultLate, db2)"
    by (rule classify_settled(1)[OF settled assms(3)])
  note c = classify_settled(1)[OF settled assms(3)]
  show "\<not> is_ok (commit_result bg c adm other db2)"
    by (auto simp: commit_result_def is_ok_iff bindT_Inr c split: if_splits)
qed

section \<open>Progress of the store\<close>

lemma enqueue_ok:
  assumes "frame_ok f" "i \<noteq> []" "dest \<noteq> []" "pf_attempt f = 1" "find_outbox db i = None"
    "list_all (\<lambda>x. ob_exchange x \<noteq> (pf_protocol f, pf_exchange_id f)) (pd_outbox db)"
    "refers (pd_coord db) (pf_task_id f) (pf_run_id f)"
  shows "\<exists>x db' r. enqueue_outbox (plain_enqueue i dest f) db = Inr (x, db') \<and> find_outbox db' i = Some r \<and>
    outbox_due (pf_created_at f) r \<and> ob_revision r = 1 \<and> ob_frame r = f"
proof -
  let ?r = "\<lparr>ob_id = i, ob_destination = dest, ob_frame = f, ob_status = ObPending, ob_attempt = 0,
    ob_next_attempt_at = pf_created_at f, ob_activated_at = None, ob_created_at = pf_created_at f, ob_sent_at = None,
    ob_completed_at = None, ob_lease_owner = None, ob_lease_expires_at = None, ob_revision = 1\<rparr>"
  have "\<exists>db'. append_frame f ''outbox.enqueued'' (outbox_status_name ObPending) dest (pf_created_at f)
      (db\<lparr>pd_outbox := pd_outbox db @ [?r]\<rparr>) = Inr db'"
    by (rule append_frame_ok) (use assms(7) in simp)
  then obtain db' where a: "append_frame f ''outbox.enqueued'' (outbox_status_name ObPending) dest (pf_created_at f)
      (db\<lparr>pd_outbox := pd_outbox db @ [?r]\<rparr>) = Inr db'" by blast
  have "find_outbox db' i = Some ?r"
    using append_frame_frame(5)[OF a] assms(5) by (simp add: find_outbox_def find_append_one)
  then show ?thesis
    using a assms
    by (auto simp: enqueue_outbox_def plain_enqueue_def Let_def refers_def require_outbox_def get_outbox_def
        outbox_due_def outbox_open_def no_lease_at_def)
qed

lemma complete_inbox_ok:
  assumes inv: "proto_inv db" and r: "find_inbox db k = Some r" "claimed_by w n now r"
    and reply: "case v of None \<Rightarrow> db1 = db | Some inp \<Rightarrow> reply_of r inp \<and> frame_ok (en_frame inp) \<and> (\<exists>x. enqueue_outbox inp db = Inr (x, db1))"
  shows "\<exists>x db'. complete_inbox (plain_complete k w n now v) db = Inr (x, db') \<and> pd_outbox db' = pd_outbox db1 \<and>
    (\<forall>l. l \<noteq> k \<longrightarrow> find_inbox db' l = find_inbox db l)"
proof -
  let ?inp = "plain_complete k w n now v"
  have db1: "find_inbox db1 l = find_inbox db l" for l
    using reply by (auto simp: enqueue_finds split: option.splits)
  obtain db2 where u: "update_inbox k (\<lambda>r. ib_revision r = n) (completed_row ?inp) db1 = Some db2"
    using db1[of k] r by (auto simp: update_inbox_def claimed_by_def)
  have fk: "find_inbox db2 k = Some (completed_row ?inp r)"
    using find_updated_inbox[OF u, of k] db1[of k] r(1) by simp
  have "pd_coord db1 = pd_coord db"
    using reply by (auto simp: enqueue_outbox_def bindR_eq_Inr_conv Let_def append_frame_frame split: option.splits)
  then have "refers (pd_coord db2) (pf_task_id (ib_frame r)) (pf_run_id (ib_frame r))"
    using find_inbox_refers[OF inv r(1)] by (simp add: update_inbox_frame[OF u])
  then obtain db3 where a: "append_frame (ib_frame r) ''inbox.completed'' ''complete'' (ik_consumer_id k) now db2 = Inr db3"
    using append_frame_ok by blast
  have "complete_inbox ?inp db = Inr (completed_row ?inp r, db3)"
    using r reply u fk a
    by (auto simp: complete_inbox_def plain_complete_def require_inbox_def get_inbox_def claimed_by_def reply_of_def Let_def
        append_frame_frame split: option.splits)
  then show ?thesis
    using append_frame_frame[OF a] update_inbox_frame(2)[OF u] find_updated_inbox[OF u] db1
    by (auto simp: option.map_ident)
qed

lemma claimed_outbox_row:
  assumes "claim_outbox i w now until n db = Inr (Some x, db')"
  shows "\<exists>r. find_outbox db' i = Some r \<and> x = read_outbox r \<and> ob_lease_owner r = Some w \<and>
    ob_lease_expires_at r = Some until \<and> ob_revision r = n + 1 \<and> (\<forall>k. find_inbox db' k = find_inbox db k)"
proof -
  from assms obtain db1 f where u: "update_outbox i (\<lambda>r. ob_revision r = n \<and> ob_next_attempt_at r \<le> now \<and> outbox_open r \<and>
      no_lease_at (ob_lease_expires_at r) now) f db = Some db1"
    and f: "f = (\<lambda>r. r\<lparr>ob_status := ObPending, ob_lease_owner := Some w, ob_lease_expires_at := Some until,
      ob_attempt := ob_attempt r + 1, ob_revision := ob_revision r + 1\<rparr>)"
    and x: "require_outbox db1 i = Inr x"
    and a: "append_frame (ob_frame x) ''outbox.claimed'' (outbox_status_name (ob_status x)) w now db1 = Inr db'"
    by (auto simp: claim_outbox_def bindR_eq_Inr_conv split: option.splits)
  from update_outbox_Some[OF u] obtain r where r: "find_outbox db i = Some r" "ob_revision r = n" by blast
  then have "find_outbox db1 i = Some (f r)" using find_updated_outbox[OF u, of i] by (simp add: f)
  then show ?thesis
    using x r append_frame_frame(4,5)[OF a] update_outbox_frame(5)[OF u] by (auto simp: require_outbox_Inr f)
qed

lemma marked_sent_row:
  assumes "mark_outbox_sent i w n now db = Inr (x, db')"
  shows "find_inbox db' k = find_inbox db k"
  using assms by (auto simp: mark_outbox_sent_def update_claimed_outbox_def bindR_eq_Inr_conv append_frame_frame
      update_outbox_frame split: if_splits option.splits)

lemma claimed_inbox_row:
  assumes "claim_inbox k w now until n db = Inr (Some x, db')"
  shows "find_inbox db' k = Some x \<and> ib_key x = ib_key (the (find_inbox db k)) \<and> ib_status x = IbProcessing \<and>
    ib_lease_owner x = Some w \<and> ib_lease_expires_at x = Some until \<and> ib_revision x = n + 1 \<and> now < until \<and>
    ib_frame x = ib_frame (the (find_inbox db k))"
proof -
  from assms obtain db1 f where u: "update_inbox k (\<lambda>r. ib_revision r = n \<and> (ib_status r = IbReceived \<or>
      ib_status r = IbProcessing \<and> expired (ib_lease_expires_at r) now)) f db = Some db1"
    and f: "f = (\<lambda>r. r\<lparr>ib_status := IbProcessing, ib_lease_owner := Some w, ib_lease_expires_at := Some until,
      ib_revision := ib_revision r + 1\<rparr>)"
    and x: "require_inbox db1 k = Inr x" and now: "now < until"
    and a: "append_frame (ib_frame x) ''inbox.claimed'' ''processing'' w now db1 = Inr db'"
    by (auto simp: claim_inbox_def bindR_eq_Inr_conv split: option.splits)
  from update_inbox_Some[OF u] obtain r where r: "find_inbox db k = Some r" "ib_revision r = n" by blast
  then have "find_inbox db1 k = Some (f r)" using find_updated_inbox[OF u, of k] by (simp add: f)
  then show ?thesis
    using x r now append_frame_frame(4)[OF a] by (auto simp: require_inbox_Inr f)
qed

lemma received_fresh:
  assumes "receive_inbox c f now db = Inr ((q, b), db')" and "find_inbox db (inbox_key_of c f) = None"
  shows "find_inbox db' (inbox_key_of c f) = Some q \<and> ib_key q = inbox_key_of c f \<and> ib_status q = IbReceived \<and>
    ib_frame q = f"
proof -
  from assms obtain db1 where q: "ib_key q = inbox_key_of c f" "ib_status q = IbReceived" "ib_frame q = f"
    and a: "append_frame f ''inbox.received'' ''received'' c now (db\<lparr>pd_inbox := pd_inbox db @ [q]\<rparr>) = Inr db1"
    and 2: "complete_original f now db1 = Inr db'"
    by (auto simp: receive_inbox_def get_inbox_def bindR_eq_Inr_conv Let_def)
  have "find_inbox db1 (inbox_key_of c f) = Some q"
    using append_frame_frame(4)[OF a] find_new_inbox[OF assms(2) q(1)] by simp
  moreover have "find_inbox db' k = find_inbox db1 k" for k
    using 2 by (auto simp: complete_original_def append_frame_frame update_outbox_frame split: option.splits bool.splits)
  ultimately show ?thesis using q by simp
qed

section \<open>Admission\<close>

definition admitted :: "admission \<Rightarrow> inbox_key \<Rightarrow> timestamp \<Rightarrow> protocol_db \<Rightarrow> bool" where
  \<comment> \<open>the inbox row is leased to the admission until the given time\<close>
  "admitted adm k e db \<longleftrightarrow> find_inbox db k = Some (ad_inbox adm) \<and> ib_key (ad_inbox adm) = k \<and>
     ib_status (ad_inbox adm) = IbProcessing \<and> ib_lease_owner (ad_inbox adm) = Some (ad_lease_owner adm) \<and>
     ib_lease_expires_at (ad_inbox adm) = Some e"

lemma begin_execute_admits:
  assumes "begin_execute bg now d db = Inr (adm, db1)" and "ad_should_execute adm" and "proto_inv db"
  shows "admitted adm (execute_key d) (lease_end bg now d) db1 \<and> now < lease_end bg now d"
proof (cases "find_inbox db (execute_key d)")
  case (Some ib)
  then have key: "ib_key ib = execute_key d" using find_inbox_Some by blast
  from assms Some obtain w x where "claim_inbox (ib_key ib) w now (lease_end bg now d) (ib_revision ib) db = Inr (Some x, db1)"
    and adm: "ad_inbox adm = x" "ad_lease_owner adm = w"
    by (auto simp: begin_execute_def Let_def bindT_Inr get_inbox_def split: if_splits)
  from claimed_inbox_row[OF this(1)] key Some adm show ?thesis by (simp add: admitted_def)
next
  case None
  from assms None obtain w n i x m db2 db3 r b s c u where
      1: "receive_inbox (xd_destination d) (xd_frame d) now db2 = Inr ((r, b), db3)"
    and 2: "claim_inbox (ib_key r) w now (lease_end bg now d) (ib_revision r) db3 = Inr (Some x, m)"
    and 3: "mark_outbox_sent i w n now m = Inr (s, db1)"
    and 4: "claim_outbox i w now (lease_end bg now d) u db = Inr (Some c, db2)"
    and adm: "ad_inbox adm = x" "ad_lease_owner adm = w"
    by (auto simp: begin_execute_def Let_def bindT_Inr get_inbox_def
        split: if_splits option.splits)
  have "find_inbox db2 (execute_key d) = None"
    using claimed_outbox_row[OF 4] None by auto
  from received_fresh[OF 1 this[unfolded execute_key_def]] have r: "find_inbox db3 (execute_key d) = Some r" "ib_key r = execute_key d"
    by (simp_all add: execute_key_def)
  from claimed_inbox_row[OF 2] marked_sent_row[OF 3, of "execute_key d"] r adm show ?thesis by (simp add: admitted_def)
qed

text \<open>
  C12. An execution is admitted to one caller at a time: as long as the admitted inbox row stays as it is,
  a further begin before the end of the lease admits nothing and changes nothing. When the lease has ended
  before the deadline and nobody cancelled, a begin hands the execution over, and the result of the first
  admission is then refused.
\<close>

theorem admission_is_exclusive:
  assumes "proto_inv db0" "begin_execute bg now d db0 = Inr (adm, db1)" "ad_should_execute adm"
    and "find_inbox db (execute_key d) = Some (ad_inbox adm)" and "begin_execute bg later d db = Inr (adm2, db2)"
  shows "(later < lease_end bg now d \<longrightarrow> \<not> ad_should_execute adm2 \<and> db2 = db) \<and>
    (ad_should_execute adm2 \<longrightarrow> lease_end bg now d \<le> later \<and> \<not> is_ok (complete_result bg adm res db2))"
proof (intro conjI[of "_ \<longrightarrow> _" "_ \<longrightarrow> _"] impI)
  have a: "ib_status (ad_inbox adm) = IbProcessing" "ib_lease_expires_at (ad_inbox adm) = Some (lease_end bg now d)"
    "ib_key (ad_inbox adm) = execute_key d"
    using begin_execute_admits[OF assms(2,3,1)] by (auto simp: admitted_def)
  have claim: "claim_inbox (execute_key d) w later until (ib_revision (ad_inbox adm)) db = Inr (x, db') \<Longrightarrow> x \<noteq> None \<or> db' \<noteq> db \<Longrightarrow>
      lease_end bg now d \<le> later" for w until x db'
    using a assms(4) by (auto simp: claim_inbox_def update_inbox_def bindR_eq_Inr_conv expired_def split: if_splits)
  show "\<not> ad_should_execute adm2 \<and> db2 = db" if "later < lease_end bg now d"
    using assms(4,5) a that claim
    by (fastforce simp: begin_execute_def Let_def bindT_Inr get_inbox_def split: if_splits)
  show "lease_end bg now d \<le> later \<and> \<not> is_ok (complete_result bg adm res db2)"
    if "ad_should_execute adm2"
  proof
    from assms(4,5) a that obtain w x where c: "claim_inbox (execute_key d) w later (lease_end bg later d)
        (ib_revision (ad_inbox adm)) db = Inr (Some x, db2)"
      by (auto simp: begin_execute_def Let_def bindT_Inr get_inbox_def split: if_splits)
    then show "lease_end bg now d \<le> later" using claim by blast
    from claimed_inbox_row[OF c] have "find_inbox db2 (execute_key d) = Some x" "ib_revision x \<noteq> ib_revision (ad_inbox adm)"
      by simp_all
    then show "\<not> is_ok (complete_result bg adm res db2)"
      using a by (auto simp: complete_result_def is_ok_iff bindT_Inr Let_def plain_complete_def claimed_by_def
          dest!: complete_inbox_Inr)
  qed
qed

section \<open>The window of a result\<close>

definition result_fresh :: "protocol_frame \<Rightarrow> protocol_db \<Rightarrow> bool" where
  \<comment> \<open>neither sent nor received before\<close>
  "result_fresh res db \<longleftrightarrow> find_outbox db (outbox_name (pf_exchange_id res)) = None \<and>
     list_all (\<lambda>x. ob_exchange x \<noteq> (pf_protocol res, pf_exchange_id res)) (pd_outbox db) \<and>
     find_inbox db (inbox_key_of ''system'' res) = None"

definition result_of :: "admission \<Rightarrow> protocol_frame \<Rightarrow> bool" where
  \<comment> \<open>a first receipt for the admitted execution\<close>
  "result_of adm res \<longleftrightarrow> (let ex = ib_frame (ad_inbox adm) in frame_ok res \<and> is_receipt res \<and> pf_attempt res = 1 \<and>
     pf_causation_id res = Some (ik_exchange_id (ib_key (ad_inbox adm))) \<and> pf_protocol res = ik_protocol (ib_key (ad_inbox adm)) \<and>
     pf_task_id res = pf_task_id ex \<and> pf_run_id res = pf_run_id ex \<and> pf_deadline_at res = pf_deadline_at ex)"

lemma complete_result_ok:
  assumes inv: "proto_inv db" and adm: "admitted adm k e db" and res: "result_of adm res" "result_fresh res db"
    and time: "pf_created_at res < e" "e \<le> pf_deadline_at res" and lease: "0 < bg_lease_ms bg"
  shows "\<exists>db'. complete_result bg adm res db = Inr ((), db')"
proof -
  let ?now = "pf_created_at res" and ?i = "outbox_name (pf_exchange_id res)" and ?w = "''sap-system:'' @ pf_exchange_id res"
  let ?until = "min (?now + bg_lease_ms bg) (pf_deadline_at res)" and ?s = "inbox_key_of ''system'' res"
  have until: "?now < ?until" using time lease by simp
  have ok: "frame_ok res" using res(1) by (simp add: result_of_def Let_def)
  have r: "find_inbox db k = Some (ad_inbox adm)" "claimed_by (ad_lease_owner adm) (ib_revision (ad_inbox adm)) ?now (ad_inbox adm)"
    and k: "ib_key (ad_inbox adm) = k"
    using adm time by (auto simp: admitted_def claimed_by_def lease_holds_def)
  have refs: "refers (pd_coord db) (pf_task_id res) (pf_run_id res)"
    using find_inbox_refers[OF inv r(1)] res(1) by (simp add: result_of_def Let_def)
  obtain y db1 row where enq: "enqueue_outbox (plain_enqueue ?i ''system'' res) db = Inr (y, db1)"
    and row: "find_outbox db1 ?i = Some row" "outbox_due ?now row" "ob_revision row = 1" "ob_frame row = res"
    using enqueue_ok[of res ?i "''system''" db] res refs
    by (auto simp: result_of_def result_fresh_def outbox_name_def Let_def)
  have "reply_of (ad_inbox adm) (plain_enqueue ?i ''system'' res)"
    using res(1) by (simp add: reply_of_def plain_enqueue_def result_of_def Let_def)
  then have rep: "case Some (plain_enqueue ?i ''system'' res) of None \<Rightarrow> db1 = db
    | Some inp \<Rightarrow> reply_of (ad_inbox adm) inp \<and> frame_ok (en_frame inp) \<and> (\<exists>x. enqueue_outbox inp db = Inr (x, db1))"
    using enq res(1) by (auto simp: plain_enqueue_def result_of_def Let_def)
  obtain x db2 where c: "complete_inbox (plain_complete k (ad_lease_owner adm) (ib_revision (ad_inbox adm)) ?now
        (Some (plain_enqueue ?i ''system'' res))) db = Inr (x, db2)"
    and db2: "pd_outbox db2 = pd_outbox db1" "\<forall>l. l \<noteq> k \<longrightarrow> find_inbox db2 l = find_inbox db l"
    using complete_inbox_ok[OF inv r rep] by blast
  have inv2: "proto_inv db2" using complete_inbox_keeps[OF inv c] .
  have row2: "find_outbox db2 ?i = Some row" using row(1) db2(1) by (simp add: find_outbox_def)
  have "?s \<noteq> k" using res(2) r(1) by (auto simp: result_fresh_def)
  then have none2: "find_inbox db2 ?s = None" using db2(2) res(2) by (simp add: result_fresh_def)
  obtain cl db3 where cl: "claim_outbox ?i ?w ?now ?until 1 db2 = Inr (Some cl, db3)"
    using claim_outbox_iff[OF inv2, of ?w ?now ?until ?i 1] until row2 row(2,3) by auto
  have inv3: "proto_inv db3" using claim_outbox_keeps[OF inv2 cl] .
  from claimed_outbox_row[OF cl] obtain row3 where row3: "find_outbox db3 ?i = Some row3" "cl = read_outbox row3"
      "ob_lease_owner row3 = Some ?w" "ob_lease_expires_at row3 = Some ?until"
    and none3: "find_inbox db3 ?s = None"
    using none2 by auto
  have cl_id: "ob_id cl = ?i" "ob_revision cl = ob_revision row3" using row3 find_outbox_Some by simp_all
  obtain s db4 where sent: "mark_outbox_sent ?i ?w (ob_revision row3) ?now db3 = Inr (s, db4)"
    using holder_marks_sent[OF inv3 row3(1,3,4) until] by blast
  have inv4: "proto_inv db4" and none4: "find_inbox db4 ?s = None"
    using sent_keeps[OF inv3 sent] marked_sent_row[OF sent] none3 by simp_all
  have "grows db db4"
    using grows_trans[OF complete_inbox_grows[OF c] grows_trans[OF claim_outbox_grows[OF cl] sent_grows[OF sent]]] .
  from grows_inboxD[OF this r(1)] obtain r4 where r4: "find_inbox db4 k = Some r4" "ib_frame r4 = ib_frame (ad_inbox adm)"
    by (auto simp: inbox_grows_def)
  have refs4: "refers (pd_coord db4) (pf_task_id res) (pf_run_id res)"
    using find_inbox_refers[OF inv4 r4(1)] r4(2) res(1) by (simp add: result_of_def Let_def)
  obtain q db5 where rc: "receive_inbox ''system'' res ?now db4 = Inr ((q, True), db5)"
    using receive_ok[OF inv4 ok _ refs4 none4] by blast
  have inv5: "proto_inv db5" using receive_keeps[OF inv4 rc] .
  from received_fresh[OF rc none4] have q: "find_inbox db5 ?s = Some q" "ib_key q = ?s" "ib_status q = IbReceived" by simp_all
  obtain ib db6 where ci: "claim_inbox ?s ?w ?now ?until (ib_revision q) db5 = Inr (Some ib, db6)"
    using claim_inbox_iff[OF inv5, of ?w ?now ?until ?s "ib_revision q"] until q by (auto simp: inbox_due_def)
  have inv6: "proto_inv db6" using claim_inbox_keeps[OF inv5 ci] .
  from claimed_inbox_row[OF ci] q have ib: "find_inbox db6 ?s = Some ib" "ib_key ib = ?s" "claimed_by ?w (ib_revision ib) ?now ib"
    using until by (auto simp: claimed_by_def lease_holds_def)
  have "case None of None \<Rightarrow> db6 = db6
    | Some inp \<Rightarrow> reply_of ib inp \<and> frame_ok (en_frame inp) \<and> (\<exists>x. enqueue_outbox inp db6 = Inr (x, db6))"
    by simp
  from complete_inbox_ok[OF inv6 ib(1,3) this] obtain z db7
    where "complete_inbox (plain_complete ?s ?w (ib_revision ib) ?now None) db6 = Inr (z, db7)"
    by blast
  with c enq row2 row cl cl_id sent rc q ci ib(2) res(1) k show ?thesis
    by (simp add: complete_result_def Let_def bindT_def readT_def ensureT_def returnT_def require_outbox_def get_outbox_def
        result_of_def find_outbox_Some[OF row2])
qed

lemma delivers_inv: "delivers db db' \<Longrightarrow> proto_inv db \<Longrightarrow> proto_inv db'"
  by (induction rule: delivers.induct)
    (blast intro: proto_inv_apply soundT_inv[OF soundT_bridge(1)] soundT_inv[OF soundT_bridge(2)]
      soundT_inv[OF soundT_bridge(3)] soundT_inv[OF soundT_bridge(4)] soundT_inv[OF soundT_bridge(5)]
      soundT_inv[OF soundT_bridge(6)] soundT_inv[OF soundT_bridge(7)] soundT_inv[OF soundT_bridge(8)]
      soundT_inv[OF soundT_bridge(9)] soundT_inv[OF soundT_bridge(10)] soundT_inv[OF soundT_bridge(11)])+

lemma classify_open:
  assumes "admitted adm k e db" and "pf_causation_id res = Some (ik_exchange_id k)"
    and "find_outbox db (''outbox_sap_cancel_'' @ ik_exchange_id k) = None"
  shows "classify_result adm res db =
    Inr (if pf_created_at res > pf_deadline_at (ib_frame (ad_inbox adm)) then ResultLate else ResultAccepted, db)"
  using assms by (simp add: admitted_def classify_result_def bindT_def readT_def ensureT_def returnT_def get_inbox_def
      get_outbox_def Let_def)

lemma complete_result_late:
  assumes "admitted adm k e db" and "pf_causation_id res = Some (ik_exchange_id k)" and "e \<le> pf_created_at res"
  shows "complete_result bg adm res db = Inl (InboxConflict (ik_exchange_id k))"
  using assms by (simp add: admitted_def complete_result_def bindT_def ensureT_def complete_inbox_def plain_complete_def
      require_inbox_def get_inbox_def lease_holds_def Let_def)

lemma accepted_in_time:
  assumes "proto_inv db" "admitted adm k e db" "result_of adm res" "result_fresh res db"
    and "pf_created_at res < e" "e \<le> pf_deadline_at res" "0 < bg_lease_ms bg"
    and "find_outbox db (''outbox_sap_cancel_'' @ ik_exchange_id k) = None"
  shows "\<exists>db2. accept_result bg adm res db = Inr (ResultAccepted, db2)"
proof -
  obtain db2 where c: "complete_result bg adm res db = Inr ((), db2)"
    using complete_result_ok[OF assms(1-7)] by blast
  have "pf_causation_id res = Some (ik_exchange_id k)" "pf_deadline_at (ib_frame (ad_inbox adm)) = pf_deadline_at res"
    using assms(2,3) by (simp_all add: result_of_def admitted_def Let_def)
  then show ?thesis
    using classify_open[OF assms(2) _ assms(8)] c assms(5,6) by (auto simp: accept_result_def bindT_def returnT_def)
qed

text \<open>
  C7. What becomes of the result of an admitted execution is decided by the time it was created: before
  the lease of the admission ends it is accepted and recorded; after the deadline it is late; in between
  it counts as accepted, and recording it raises. The lease ends at the deadline or before, by default
  after 30 minutes of 24 hours, and the bridge never renews it.
\<close>

theorem result_window:
  assumes "proto_inv db0" "begin_execute bg now d db0 = Inr (adm, db1)" "ad_should_execute adm" "delivers db1 db"
    and "find_inbox db (execute_key d) = Some (ad_inbox adm)" "ib_frame (ad_inbox adm) = xd_frame d"
    and "find_outbox db (''outbox_sap_cancel_'' @ pf_exchange_id (xd_frame d)) = None"
    and "result_of adm res" "result_fresh res db" "0 < bg_lease_ms bg"
  shows "(pf_created_at res < lease_end bg now d \<longrightarrow> (\<exists>db2. accept_result bg adm res db = Inr (ResultAccepted, db2))) \<and>
    (lease_end bg now d \<le> pf_created_at res \<and> pf_created_at res \<le> pf_deadline_at (xd_frame d) \<longrightarrow>
      classify_result adm res db = Inr (ResultAccepted, db) \<and>
      accept_result bg adm res db = Inl (InboxConflict (pf_exchange_id (xd_frame d)))) \<and>
    (pf_deadline_at (xd_frame d) < pf_created_at res \<longrightarrow> classify_result adm res db = Inr (ResultLate, db))"
proof (intro conjI[of "_ \<longrightarrow> _"] impI)
  have adm: "admitted adm (execute_key d) (lease_end bg now d) db"
    using begin_execute_admits[OF assms(2,3,1)] assms(5) by (simp add: admitted_def)
  have inv: "proto_inv db"
    using delivers_inv[OF assms(4)] soundT_inv[OF soundT_bridge(2) assms(2,1)] by blast
  have ex: "ik_exchange_id (execute_key d) = pf_exchange_id (xd_frame d)" by (simp add: execute_key_def inbox_key_of_def)
  have cause: "pf_causation_id res = Some (ik_exchange_id (execute_key d))"
    using assms(8) adm by (simp add: result_of_def admitted_def Let_def)
  have deadline: "pf_deadline_at res = pf_deadline_at (xd_frame d)"
    using assms(6,8) by (simp add: result_of_def Let_def)
  have open_case: "classify_result adm res db =
      Inr (if pf_created_at res > pf_deadline_at (xd_frame d) then ResultLate else ResultAccepted, db)"
    using classify_open[OF adm cause] assms(6,7) ex by simp
  have ends: "lease_end bg now d \<le> pf_deadline_at (xd_frame d)" by (simp add: lease_end_def)
  show "\<exists>db2. accept_result bg adm res db = Inr (ResultAccepted, db2)" if early: "pf_created_at res < lease_end bg now d"
    using accepted_in_time[OF inv adm assms(8,9) early _ assms(10)] ends deadline assms(7) ex by simp
  show "classify_result adm res db = Inr (ResultAccepted, db) \<and>
      accept_result bg adm res db = Inl (InboxConflict (pf_exchange_id (xd_frame d)))"
    if "lease_end bg now d \<le> pf_created_at res \<and> pf_created_at res \<le> pf_deadline_at (xd_frame d)"
    using open_case that complete_result_late[OF adm cause conjunct1[OF that]] ex
    by (simp add: accept_result_def bindT_def returnT_def)
  show "classify_result adm res db = Inr (ResultLate, db)" if "pf_deadline_at (xd_frame d) < pf_created_at res"
    using open_case that by simp
qed

section \<open>Examples\<close>

definition sample_bridge :: bridge where
  "sample_bridge = \<lparr>bg_lease_ms = 10, bg_deadline_ms = 90\<rparr>"

definition sample_dispatch :: execute_dispatch where
  "sample_dispatch = \<lparr>xd_outbox_id = ''o'', xd_destination = ''dev'', xd_frame = sample_frame\<rparr>"

definition sample_queued :: protocol_db where
  "sample_queued = proto_run [POEnqueue sample_enqueue] sample_task_db"

definition sample_result_at :: "timestamp \<Rightarrow> protocol_frame" where
  "sample_result_at t = sample_receipt\<lparr>pf_created_at := t\<rparr>"

lemma sample_queued_inv: "proto_inv sample_queued"
  unfolding sample_queued_def by (rule proto_inv_run[OF sample_task_db_inv])

lemma sample_admission:
  "\<exists>adm db1. begin_execute sample_bridge 20 sample_dispatch sample_queued = Inr (adm, db1) \<and> ad_should_execute adm \<and>
    map ib_key (pd_inbox db1) = [execute_key sample_dispatch] \<and>
    map (\<lambda>x. (ob_id x, ob_exchange x)) (pd_outbox db1) = [(''o'', (SystemAgent, ''x''))] \<and> ib_frame (ad_inbox adm) = sample_frame"
proof -
  have "\<not> is_receipt sample_frame" by (simp add: sample_frame_def is_receipt_def)
  moreover have "pf_deadline_at sample_frame = 100" by (simp add: sample_frame_def)
  ultimately show ?thesis
    using sample_task_found
    by (auto simp: begin_execute_def bindT_def readT_def returnT_def sample_bridge_def sample_dispatch_def lease_end_def
        execute_key_def inbox_key_of_def sap_owner_def get_inbox_def find_inbox_def receive_inbox_def claim_inbox_def update_inbox_def
        require_inbox_def mark_outbox_sent_def update_claimed_outbox_def outbox_held_by_def lease_holds_def complete_original_def
        sample_queued_def sample_task_db_def sample_enqueue_def sample_frame_ok sample_frame_fields outbox_run_defs)
qed

lemma sample_admitted:
  obtains adm db1 where "begin_execute sample_bridge 20 sample_dispatch sample_queued = Inr (adm, db1)" "ad_should_execute adm"
    "find_inbox db1 (execute_key sample_dispatch) = Some (ad_inbox adm)" "ib_key (ad_inbox adm) = execute_key sample_dispatch"
    "ib_frame (ad_inbox adm) = sample_frame"
    "find_outbox db1 (''outbox_sap_cancel_'' @ ''x'') = None"
    "\<And>t. result_of adm (sample_result_at t)" "\<And>t. result_fresh (sample_result_at t) db1"
proof -
  obtain adm db1 where b: "begin_execute sample_bridge 20 sample_dispatch sample_queued = Inr (adm, db1)" "ad_should_execute adm"
    and i: "map ib_key (pd_inbox db1) = [execute_key sample_dispatch]"
    and o: "map (\<lambda>x. (ob_id x, ob_exchange x)) (pd_outbox db1) = [(''o'', (SystemAgent, ''x''))]"
    and i2: "ib_frame (ad_inbox adm) = sample_frame"
    using sample_admission by (elim exE conjE) (rule that)
  have adm: "admitted adm (execute_key sample_dispatch) (lease_end sample_bridge 20 sample_dispatch) db1"
    using begin_execute_admits[OF b sample_queued_inv] by blast
  have key: "ik_exchange_id (execute_key sample_dispatch) = ''x''" "ik_protocol (execute_key sample_dispatch) = SystemAgent"
    by (simp_all add: execute_key_def inbox_key_of_def sample_dispatch_def sample_frame_fields)
  have result: "pf_protocol (sample_result_at t) = SystemAgent" "pf_exchange_id (sample_result_at t) = ''y''"
      "pf_causation_id (sample_result_at t) = Some ''x''" "pf_attempt (sample_result_at t) = 1"
      "pf_task_id (sample_result_at t) = pf_task_id sample_frame" "pf_run_id (sample_result_at t) = pf_run_id sample_frame"
      "pf_deadline_at (sample_result_at t) = pf_deadline_at sample_frame"
      "frame_ok (sample_result_at t)" "is_receipt (sample_result_at t)" for t
    using sample_receipt_ok by (simp_all add: sample_result_at_def sample_receipt_def sample_frame_fields frame_ok_def is_receipt_def)
  show thesis
  proof (rule that[OF b])
    show "find_inbox db1 (execute_key sample_dispatch) = Some (ad_inbox adm)" "ib_key (ad_inbox adm) = execute_key sample_dispatch"
      using adm by (simp_all add: admitted_def)
    show "ib_frame (ad_inbox adm) = sample_frame" by (rule i2)
    show "find_outbox db1 (''outbox_sap_cancel_'' @ ''x'') = None"
      using o by (auto simp: find_outbox_def)
    show "result_of adm (sample_result_at t)" for t
      using adm i2 key result by (simp add: result_of_def admitted_def Let_def)
    show "result_fresh (sample_result_at t) db1" for t
      using i o result key by (auto simp: result_fresh_def find_outbox_def find_inbox_def outbox_name_def inbox_key_of_def
          execute_key_def sample_frame_fields sample_dispatch_def)
  qed
qed

lemma sample_window:
  "lease_end sample_bridge 20 sample_dispatch = 30" "0 < bg_lease_ms sample_bridge" "xd_frame sample_dispatch = sample_frame"
  "pf_exchange_id sample_frame = ''x''" "pf_deadline_at sample_frame = 100" "pf_created_at (sample_result_at t) = t"
  by (simp_all add: sample_dispatch_def sample_frame_def lease_end_def sample_bridge_def sample_result_at_def)

theorem result_window_witness:
  "\<exists>adm db1 db2. accept_result sample_bridge adm (sample_result_at 25) db1 = Inr (ResultAccepted, db2) \<and>
    classify_result adm (sample_result_at 60) db1 = Inr (ResultAccepted, db1) \<and>
    accept_result sample_bridge adm (sample_result_at 60) db1 = Inl (InboxConflict ''x'')"
proof (rule sample_admitted)
  fix adm db1
  assume s: "begin_execute sample_bridge 20 sample_dispatch sample_queued = Inr (adm, db1)" "ad_should_execute adm"
    "find_inbox db1 (execute_key sample_dispatch) = Some (ad_inbox adm)" "ib_key (ad_inbox adm) = execute_key sample_dispatch"
    "ib_frame (ad_inbox adm) = sample_frame" "find_outbox db1 (''outbox_sap_cancel_'' @ ''x'') = None"
    "\<And>t. result_of adm (sample_result_at t)" "\<And>t. result_fresh (sample_result_at t) db1"
  note w = result_window[OF sample_queued_inv s(1,2) delivers.Same s(3), unfolded sample_window, OF s(5,6,7,8) sample_window(2),
      unfolded sample_window]
  from w[of 25] obtain db2 where "accept_result sample_bridge adm (sample_result_at 25) db1 = Inr (ResultAccepted, db2)"
    by auto
  with w[of 60] show ?thesis by (intro exI[of _ adm] exI[of _ db1] exI[of _ db2]) simp
qed

lemma sample_accepted:
  obtains adm db1 db2 where "begin_execute sample_bridge 20 sample_dispatch sample_queued = Inr (adm, db1)" "ad_should_execute adm"
    "find_inbox db1 (execute_key sample_dispatch) = Some (ad_inbox adm)"
    "accept_result sample_bridge adm (sample_result_at 25) db1 = Inr (ResultAccepted, db2)"
    "pf_causation_id (sample_result_at 25) = Some (ik_exchange_id (ib_key (ad_inbox adm)))"
proof (rule sample_admitted)
  fix adm db1
  assume s: "begin_execute sample_bridge 20 sample_dispatch sample_queued = Inr (adm, db1)" "ad_should_execute adm"
    "find_inbox db1 (execute_key sample_dispatch) = Some (ad_inbox adm)" "ib_key (ad_inbox adm) = execute_key sample_dispatch"
    "ib_frame (ad_inbox adm) = sample_frame" "find_outbox db1 (''outbox_sap_cancel_'' @ ''x'') = None"
    "\<And>t. result_of adm (sample_result_at t)" "\<And>t. result_fresh (sample_result_at t) db1"
  have adm: "admitted adm (execute_key sample_dispatch) 30 db1"
    using begin_execute_admits[OF s(1,2) sample_queued_inv] by (simp add: sample_window)
  have inv: "proto_inv db1" using soundT_inv[OF soundT_bridge(2) s(1) sample_queued_inv] .
  have key: "ik_exchange_id (execute_key sample_dispatch) = ''x''"
    by (simp add: execute_key_def inbox_key_of_def sample_window)
  have deadline: "pf_deadline_at (sample_result_at 25) = 100"
    by (simp add: sample_result_at_def sample_receipt_def sample_window)
  obtain db2 where acc: "accept_result sample_bridge adm (sample_result_at 25) db1 = Inr (ResultAccepted, db2)"
    using accepted_in_time[OF inv adm s(7,8), of 25 sample_bridge] s(6) deadline key by (auto simp: sample_window)
  show thesis
    by (rule that[OF s(1-3) acc]) (use s(7)[of 25] in \<open>simp add: result_of_def Let_def\<close>)
qed

theorem one_result_per_execute_witness:
  "\<exists>adm db2. classify_result adm (sample_result_at 25) db2 = Inr (ResultDuplicate, db2)"
proof (rule sample_accepted)
  fix adm db1 db2
  assume a: "accept_result sample_bridge adm (sample_result_at 25) db1 = Inr (ResultAccepted, db2)"
    "pf_causation_id (sample_result_at 25) = Some (ik_exchange_id (ib_key (ad_inbox adm)))"
  from one_result_per_execute[OF a(1) delivers.Same a(2)] show ?thesis by auto
qed

theorem admission_is_exclusive_witness:
  "\<exists>adm db1. begin_execute sample_bridge 20 sample_dispatch sample_queued = Inr (adm, db1) \<and> ad_should_execute adm \<and>
     (\<exists>adm2. begin_execute sample_bridge 25 sample_dispatch db1 = Inr (adm2, db1) \<and> \<not> ad_should_execute adm2)"
proof (rule sample_admitted)
  fix adm db1
  assume s: "begin_execute sample_bridge 20 sample_dispatch sample_queued = Inr (adm, db1)" "ad_should_execute adm"
    "find_inbox db1 (execute_key sample_dispatch) = Some (ad_inbox adm)" "ib_key (ad_inbox adm) = execute_key sample_dispatch"
    "find_outbox db1 (''outbox_sap_cancel_'' @ ''x'') = None"
  have adm: "admitted adm (execute_key sample_dispatch) 30 db1"
    using begin_execute_admits[OF s(1,2) sample_queued_inv] by (simp add: sample_window)
  have "\<exists>r. find_outbox sample_queued ''o'' = Some r"
    using sample_task_found
    by (auto simp: sample_queued_def sample_task_db_def sample_enqueue_def sample_frame_ok sample_frame_fields outbox_run_defs)
  then obtain r where "find_outbox db1 ''o'' = Some r"
    using grows_outboxD[OF soundT_grows[OF soundT_bridge(2) s(1)]] by blast
  moreover have "lease_end sample_bridge 25 sample_dispatch = 35" "xd_outbox_id sample_dispatch = ''o''"
    "sap_owner sample_dispatch \<noteq> []"
    by (simp_all add: lease_end_def sample_bridge_def sample_dispatch_def sample_frame_def sap_owner_def)
  ultimately have "\<exists>adm2 db2. begin_execute sample_bridge 25 sample_dispatch db1 = Inr (adm2, db2)"
    using adm s(5) by (simp add: begin_execute_def bindT_def readT_def returnT_def Let_def get_inbox_def get_outbox_def
        require_outbox_def admitted_def claim_inbox_def assert_lease_def update_inbox_def expired_def sample_window)
  then obtain adm2 db2 where b: "begin_execute sample_bridge 25 sample_dispatch db1 = Inr (adm2, db2)" by blast
  from admission_is_exclusive[OF sample_queued_inv s(1-3) b] s b show ?thesis by (auto simp: sample_window)
qed

end
