(* ===== verification/Market.thy ===== *)
theory Market
  imports JsText "HOL-Library.Word"
begin

text \<open>
  The agent market (\<open>src/src/market\<close>): the projection of agents into candidates, the score of a
  candidate for a task, and the auction that draws the winner from a softmax over the scores with
  a random number derived from the seed of the policy.

  Numbers are rationals: the arithmetic is exact, the rounding of doubles is not modelled. The
  random number is computed on 32-bit words as the code does with \<open>Math.imul\<close> and shifts. Letters
  and digits are those of Latin-1. Arguments of the definitions are what the code takes from
  outside or from the platform: \<open>Math.exp\<close> (\<open>expf\<close>), \<open>localeCompare\<close> (\<open>collate\<close>), the hexadecimal
  SHA-256 digest (\<open>digest\<close>), the ISO date check of the schema library (\<open>iso_date\<close>), \<open>Date.parse\<close>
  (\<open>parse_date\<close>) and the queries of the agent board.
\<close>

section \<open>Candidates, tasks and policies\<close>

record skill_ref =
  sk_name :: string
  sk_tags :: "string list"

datatype experience_type = PositiveExp | NegativeExp

record experience_ref =
  ex_name :: string
  ex_type :: experience_type
  ex_confidence :: rat
  ex_tags :: "string list"

record agent_projection =
  ap_agent_id :: ident
  ap_persona_ref :: string
  ap_persona_keywords :: "string list"
  ap_skills :: "skill_ref list"
  ap_experiences :: "experience_ref list"
  ap_total_tasks :: int
  ap_tasks_completed :: int
  ap_tasks_succeeded :: int
  ap_skill_count :: int
  ap_experience_count :: int
  ap_avg_confidence :: rat
  ap_active_task_count :: int
  ap_days_since_last_task :: rat

record market_task =
  mt_task_id :: ident
  mt_description :: string
  mt_persona_keywords :: "string list"
  mt_preferred_skill_tags :: "string list"
  mt_preferred_experience_tags :: "string list"
  mt_urgency :: rat
  mt_exploration_level :: rat

record market_policy =
  mp_policy_version :: string
  mp_seed :: string
  mp_tau :: rat

datatype market_error =
    MarketNoCandidates
  | MarketInvalid string \<comment> \<open>an exception of a schema, with the schema\<close>
  | DuplicateAgent ident
  | InvalidProbabilityTotal
  | EnsureHookRequired
  | UnsupportedExperience string

definition is_score :: "rat \<Rightarrow> bool" where
  "is_score v \<longleftrightarrow> 0 \<le> v \<and> v \<le> 1"

definition is_count :: "int \<Rightarrow> bool" where
  \<comment> \<open>\<open>z.number().int().nonnegative()\<close>: the schema library accepts safe integers only\<close>
  "is_count n \<longleftrightarrow> 0 \<le> n \<and> n \<le> int max_safe_integer"

definition projection_ok :: "agent_projection \<Rightarrow> bool" where
  "projection_ok a \<longleftrightarrow>
     ap_agent_id a \<noteq> [] \<and> ap_persona_ref a \<noteq> [] \<and>
     list_all (\<lambda>s. sk_name s \<noteq> []) (ap_skills a) \<and>
     list_all (\<lambda>e. ex_name e \<noteq> [] \<and> is_score (ex_confidence e)) (ap_experiences a) \<and>
     is_count (ap_total_tasks a) \<and> is_count (ap_tasks_completed a) \<and>
     is_count (ap_tasks_succeeded a) \<and> is_count (ap_skill_count a) \<and>
     is_count (ap_experience_count a) \<and> is_score (ap_avg_confidence a) \<and>
     is_count (ap_active_task_count a) \<and> 0 \<le> ap_days_since_last_task a"

definition market_task_ok :: "market_task \<Rightarrow> bool" where
  "market_task_ok t \<longleftrightarrow>
     mt_task_id t \<noteq> [] \<and> mt_description t \<noteq> [] \<and>
     is_score (mt_urgency t) \<and> is_score (mt_exploration_level t)"

definition policy_ok :: "market_policy \<Rightarrow> bool" where
  "policy_ok p \<longleftrightarrow>
     mp_policy_version p \<noteq> [] \<and> mp_seed p \<noteq> [] \<and> 3 / 10 \<le> mp_tau p \<and> mp_tau p \<le> 1"

section \<open>Scores\<close>

definition clamp01 :: "rat \<Rightarrow> rat" where
  "clamp01 v = max 0 (min 1 v)"

lemma clamp01_score [simp]: "is_score (clamp01 v)"
  by (simp add: is_score_def clamp01_def)

lemma clamp01_mono: "v \<le> w \<Longrightarrow> clamp01 v \<le> clamp01 w"
  by (simp add: clamp01_def max_def min_def)

definition letter_or_digit :: "char \<Rightarrow> bool" where
  \<comment> \<open>\<open>[\p{L}\p{N}]\<close> on Latin-1\<close>
  "letter_or_digit c =
    (let n = (of_char c :: nat) in
     48 \<le> n \<and> n \<le> 57 \<or> 65 \<le> n \<and> n \<le> 90 \<or> 97 \<le> n \<and> n \<le> 122 \<or>
     n = 170 \<or> n = 178 \<or> n = 179 \<or> n = 181 \<or> n = 185 \<or> n = 186 \<or> 188 \<le> n \<and> n \<le> 190 \<or>
     192 \<le> n \<and> n \<noteq> 215 \<and> n \<noteq> 247)"

fun word_runs :: "string \<Rightarrow> string \<Rightarrow> string list" where
  \<comment> \<open>split at every maximal run of other characters and drop the empty pieces; the first
      argument is the piece being read, reversed\<close>
  "word_runs acc [] = (if acc = [] then [] else [rev acc])"
| "word_runs acc (c # cs) =
     (if letter_or_digit c then word_runs (c # acc) cs
      else if acc = [] then word_runs [] cs else rev acc # word_runs [] cs)"

definition tokenize :: "string \<Rightarrow> string list" where
  "tokenize s = word_runs [] (js_to_lower s)"

definition keyword_coverage :: "string list \<Rightarrow> string list \<Rightarrow> rat" where
  "keyword_coverage required offered =
    (if required = [] then 1 / 2
     else let offered_tokens = set (concat (map tokenize offered));
              matched = length (filter (\<lambda>v. list_ex (\<lambda>t. t \<in> offered_tokens) (tokenize v)) required)
          in clamp01 (of_nat matched / of_nat (length required)))"

definition experience_match :: "agent_projection \<Rightarrow> market_task \<Rightarrow> rat" where
  "experience_match agent task =
    (let positive = filter (\<lambda>e. ex_type e = PositiveExp) (ap_experiences agent);
         required = mt_preferred_experience_tags task
     in if positive = [] then (if ap_experiences agent = [] then 1 / 2 else 0)
        else if required = []
        then clamp01 (foldl (\<lambda>sum e. sum + ex_confidence e) 0 positive / of_nat (length positive))
        else let matches = map (\<lambda>requirement.
                   foldl (\<lambda>best e.
                       let offered = set (concat (map tokenize (ex_name e # ex_tags e)))
                       in if list_ex (\<lambda>t. t \<in> offered) (tokenize requirement)
                          then max best (ex_confidence e) else best) 0 positive) required
             in clamp01 (foldl (+) 0 matches / of_nat (length matches)))"

definition success_rate :: "agent_projection \<Rightarrow> rat" where
  "success_rate a =
    (if ap_total_tasks a < 3 \<or> ap_tasks_completed a = 0 then 1 / 2
     else clamp01 (of_int (ap_tasks_succeeded a) / of_int (ap_tasks_completed a)))"

definition density :: "int \<Rightarrow> int \<Rightarrow> rat" where
  "density numerator denominator =
    (if denominator = 0 then 0 else clamp01 (of_int numerator / of_int denominator))"

record score_breakdown =
  sb_relevance :: rat
  sb_persona_match :: rat
  sb_skill_match :: rat
  sb_experience_match :: rat
  sb_quality :: rat
  sb_success_rate :: rat
  sb_avg_confidence :: rat
  sb_experience_density :: rat
  sb_skill_density :: rat
  sb_capacity :: rat
  sb_freshness :: rat
  sb_bonus :: rat
  sb_final_score :: rat

definition breakdown_ok :: "score_breakdown \<Rightarrow> bool" where
  "breakdown_ok b \<longleftrightarrow>
     list_all is_score [sb_relevance b, sb_persona_match b, sb_skill_match b,
       sb_experience_match b, sb_quality b, sb_success_rate b, sb_avg_confidence b,
       sb_experience_density b, sb_skill_density b, sb_capacity b, sb_freshness b,
       sb_final_score b] \<and>
     0 \<le> sb_bonus b \<and> sb_bonus b \<le> 15 / 100"

definition score_of :: "agent_projection \<Rightarrow> market_task \<Rightarrow> score_breakdown" where
  \<comment> \<open>the object \<open>calculateScore\<close> hands to the schema\<close>
  "score_of agent task =
    (let persona = keyword_coverage (mt_persona_keywords task) (ap_persona_keywords agent);
         skill = keyword_coverage (mt_preferred_skill_tags task)
                   (concat (map (\<lambda>s. sk_name s # sk_tags s) (ap_skills agent)));
         experience = experience_match agent task;
         relevance = clamp01 (4 / 10 * persona + 3 / 10 * skill + 3 / 10 * experience);
         success = success_rate agent;
         confidence = clamp01 (ap_avg_confidence agent);
         exp_density = density (ap_experience_count agent) (ap_total_tasks agent);
         skill_density = density (ap_skill_count agent) (ap_experience_count agent);
         quality = clamp01 (5 / 10 * success + 3 / 10 * confidence + 1 / 10 * exp_density +
                            1 / 10 * skill_density);
         capacity = clamp01 (1 - min 1 (of_int (ap_active_task_count agent) / 3));
         freshness = clamp01 (1 / (1 + ap_days_since_last_task agent / 14));
         bonus = (if ap_total_tasks agent < 5 then 15 / 100 else 0)
     in \<lparr>sb_relevance = relevance, sb_persona_match = persona, sb_skill_match = skill,
         sb_experience_match = experience, sb_quality = quality, sb_success_rate = success,
         sb_avg_confidence = confidence, sb_experience_density = exp_density,
         sb_skill_density = skill_density, sb_capacity = capacity, sb_freshness = freshness,
         sb_bonus = bonus,
         sb_final_score = clamp01 (4 / 10 * relevance + 3 / 10 * quality + 15 / 100 * capacity +
                                   15 / 100 * freshness + bonus)\<rparr>)"

definition calculate_score :: "agent_projection \<Rightarrow> market_task \<Rightarrow> market_error + score_breakdown"
  where
  "calculate_score agent task =
    (let b = score_of agent task in if breakdown_ok b then Inr b else Inl (MarketInvalid ''score''))"

section \<open>Bids\<close>

record bid =
  bd_bid_id :: ident
  bd_task_id :: ident
  bd_agent_id :: ident
  bd_score_breakdown :: score_breakdown
  bd_final_score :: rat
  bd_estimated_time_seconds :: int
  bd_strategy_summary :: string
  bd_created_at :: string

definition js_round :: "rat \<Rightarrow> int" where
  "js_round x = \<lfloor>x + 1 / 2\<rfloor>"

fun join_with :: "string \<Rightarrow> string list \<Rightarrow> string" where
  "join_with sep [] = []"
| "join_with sep [x] = x"
| "join_with sep (x # y # ys) = x @ sep @ join_with sep (y # ys)"

definition stable_id :: "(string \<Rightarrow> string) \<Rightarrow> string \<Rightarrow> string list \<Rightarrow> ident" where
  "stable_id digest prefix values =
     prefix @ ''_'' @ take 24 (digest (join_with [CHR 0x00] values))"

definition estimate_time :: "agent_projection \<Rightarrow> market_task \<Rightarrow> int" where
  "estimate_time agent task =
    (let urgency_factor = 1 - mt_urgency task;
         load_factor = 1 + of_int (ap_active_task_count agent) * (2 / 10);
         experience_factor = 1 - ap_avg_confidence agent * (2 / 10)
     in max 1 (js_round (3600 * urgency_factor * load_factor * experience_factor)))"

definition strategy :: "agent_projection \<Rightarrow> market_task \<Rightarrow> string" where
  "strategy agent task =
    (let skills = map sk_name (take 2 (ap_skills agent));
         experiences = map ex_name (take 2 (ap_experiences agent));
         parts = (if skills \<noteq> [] then [''leverage '' @ join_with '', '' skills] else []) @
                 (if experiences \<noteq> [] then [''apply experience in '' @ join_with '', '' experiences]
                  else []) @
                 (if mt_exploration_level task > 7 / 10 then [''explore new approaches''] else []);
         text = join_with '' + '' parts
     in if text = [] then ''standard execution'' else text)"

definition bid_ok :: "(string \<Rightarrow> bool) \<Rightarrow> bid \<Rightarrow> bool" where
  "bid_ok iso_date b \<longleftrightarrow>
     bd_bid_id b \<noteq> [] \<and> bd_task_id b \<noteq> [] \<and> bd_agent_id b \<noteq> [] \<and>
     breakdown_ok (bd_score_breakdown b) \<and> is_score (bd_final_score b) \<and>
     0 < bd_estimated_time_seconds b \<and> bd_estimated_time_seconds b \<le> int max_safe_integer \<and>
     bd_strategy_summary b \<noteq> [] \<and> iso_date (bd_created_at b)"

definition create_bid ::
  "(string \<Rightarrow> string) \<Rightarrow> (string \<Rightarrow> bool) \<Rightarrow> agent_projection \<Rightarrow> market_task \<Rightarrow> score_breakdown \<Rightarrow>
   string \<Rightarrow> string \<Rightarrow> market_error + bid" where
  "create_bid digest iso_date agent task breakdown created_at version =
    (let b = \<lparr>bd_bid_id = stable_id digest ''bid'' [mt_task_id task, ap_agent_id agent, version],
              bd_task_id = mt_task_id task, bd_agent_id = ap_agent_id agent,
              bd_score_breakdown = breakdown, bd_final_score = sb_final_score breakdown,
              bd_estimated_time_seconds = estimate_time agent task,
              bd_strategy_summary = strategy agent task, bd_created_at = created_at\<rparr>
     in if bid_ok iso_date b then Inr b else Inl (MarketInvalid ''bid''))"

section \<open>The draw\<close>

record probability_entry =
  pe_bid_id :: ident
  pe_agent_id :: ident
  pe_probability :: rat

definition softmax_weights :: "(rat \<Rightarrow> rat) \<Rightarrow> bid list \<Rightarrow> rat \<Rightarrow> rat list" where
  "softmax_weights expf bids tau =
    (let logits = map (\<lambda>b. bd_final_score b / tau) bids;
         max_logit = foldl max (hd logits) (tl logits)
     in map (\<lambda>l. expf (l - max_logit)) logits)"

definition softmax :: "(rat \<Rightarrow> rat) \<Rightarrow> bid list \<Rightarrow> rat \<Rightarrow> market_error + probability_entry list" where
  "softmax expf bids tau =
    (case bids of
       [b] \<Rightarrow> Inr [\<lparr>pe_bid_id = bd_bid_id b, pe_agent_id = bd_agent_id b, pe_probability = 1\<rparr>]
     | _ \<Rightarrow>
       (let weights = softmax_weights expf bids tau;
            total = foldl (+) 0 weights
        in if total \<le> 0 then Inl InvalidProbabilityTotal
           else Inr (map (\<lambda>(b, w). \<lparr>pe_bid_id = bd_bid_id b, pe_agent_id = bd_agent_id b,
                                    pe_probability = w / total\<rparr>) (zip bids weights))))"

fun select_from :: "rat \<Rightarrow> nat \<Rightarrow> rat list \<Rightarrow> rat \<Rightarrow> nat option" where
  \<comment> \<open>the loop of \<open>selectIndex\<close>: the sum so far, the index, the rest of the list\<close>
  "select_from cumulative index [] random = None"
| "select_from cumulative index (p # ps) random =
     (if random < cumulative + p then Some index
      else select_from (cumulative + p) (Suc index) ps random)"

definition select_index :: "rat list \<Rightarrow> rat \<Rightarrow> nat" where
  "select_index probabilities random =
    (if length probabilities = 1 then 0
     else case select_from 0 0 probabilities random of
            Some i \<Rightarrow> i | None \<Rightarrow> length probabilities - 1)"

unbundle bit_operations_syntax

definition seed_hash :: "string \<Rightarrow> 32 word" where
  "seed_hash seed = foldl (\<lambda>state c. (state XOR word_of_nat (of_char c)) * 0x01000193) 0x811c9dc5 seed"

definition mix_hash :: "32 word \<Rightarrow> 32 word" where
  "mix_hash state =
    (let value = state + 0x6d2b79f5;
         value = (value XOR drop_bit 15 value) * (value OR 1);
         value = value XOR (value + (value XOR drop_bit 7 value) * (value OR 61))
     in value XOR drop_bit 14 value)"


definition seeded_random :: "string \<Rightarrow> rat" where
  "seeded_random seed = of_int (uint (mix_hash (seed_hash seed))) / 4294967296"

section \<open>The auction\<close>

record bid_ledger =
  bl_ledger_id :: ident
  bl_task_id :: ident
  bl_policy_version :: string
  bl_seed :: string
  bl_bids :: "bid list"
  bl_winner_bid_id :: ident
  bl_winner_agent_id :: ident
  bl_created_at :: string

record market_audit =
  ma_audit_id :: ident
  ma_task_id :: ident
  ma_policy_version :: string
  ma_seed :: string
  ma_tau :: rat
  ma_ledger_id :: ident
  ma_bid_ids :: "ident list"
  ma_winner_bid_id :: ident
  ma_winner_agent_id :: ident
  ma_probabilities :: "probability_entry list"
  ma_created_at :: string

record auction_result =
  au_winner_agent_id :: ident
  au_winner_bid_id :: ident
  au_ledger :: bid_ledger
  au_audit :: market_audit
  au_score_breakdowns :: "(ident \<times> score_breakdown) list"

definition ledger_ok :: "(string \<Rightarrow> bool) \<Rightarrow> bid_ledger \<Rightarrow> bool" where
  "ledger_ok iso_date l \<longleftrightarrow>
     bl_ledger_id l \<noteq> [] \<and> bl_task_id l \<noteq> [] \<and> bl_policy_version l \<noteq> [] \<and> bl_seed l \<noteq> [] \<and>
     list_all (bid_ok iso_date) (bl_bids l) \<and> bl_bids l \<noteq> [] \<and> bl_winner_bid_id l \<noteq> [] \<and>
     bl_winner_agent_id l \<noteq> [] \<and> iso_date (bl_created_at l)"

definition audit_ok :: "(string \<Rightarrow> bool) \<Rightarrow> market_audit \<Rightarrow> bool" where
  "audit_ok iso_date a \<longleftrightarrow>
     ma_audit_id a \<noteq> [] \<and> ma_task_id a \<noteq> [] \<and> ma_policy_version a \<noteq> [] \<and> ma_seed a \<noteq> [] \<and>
     3 / 10 \<le> ma_tau a \<and> ma_tau a \<le> 1 \<and> ma_ledger_id a \<noteq> [] \<and>
     list_all (\<lambda>i. i \<noteq> []) (ma_bid_ids a) \<and> ma_bid_ids a \<noteq> [] \<and>
     ma_winner_bid_id a \<noteq> [] \<and> ma_winner_agent_id a \<noteq> [] \<and>
     list_all (\<lambda>p. pe_bid_id p \<noteq> [] \<and> pe_agent_id p \<noteq> [] \<and> is_score (pe_probability p))
       (ma_probabilities a) \<and>
     iso_date (ma_created_at a)"

definition create_engine :: "market_policy \<Rightarrow> market_error + market_policy" where
  \<comment> \<open>the constructor of the engine: its state is the policy it accepted\<close>
  "create_engine p = (if policy_ok p then Inr p else Inl (MarketInvalid ''policy''))"

fun assert_unique_from :: "ident set \<Rightarrow> agent_projection list \<Rightarrow> market_error + unit" where
  "assert_unique_from seen [] = Inr ()"
| "assert_unique_from seen (a # as) =
     (if ap_agent_id a \<in> seen then Inl (DuplicateAgent (ap_agent_id a))
      else assert_unique_from (insert (ap_agent_id a) seen) as)"

fun score_agents ::
  "(string \<Rightarrow> string) \<Rightarrow> (string \<Rightarrow> bool) \<Rightarrow> market_task \<Rightarrow> string \<Rightarrow> string \<Rightarrow> agent_projection list \<Rightarrow>
   market_error + (bid \<times> (ident \<times> score_breakdown)) list" where
  "score_agents digest iso_date task created_at version [] = Inr []"
| "score_agents digest iso_date task created_at version (a # as) =
     bindR (calculate_score a task) (\<lambda>breakdown.
     bindR (create_bid digest iso_date a task breakdown created_at version) (\<lambda>b.
     bindR (score_agents digest iso_date task created_at version as) (\<lambda>rest.
       Inr ((b, (ap_agent_id a, breakdown)) # rest))))"

definition sorted_agents ::
  "(string \<Rightarrow> string \<Rightarrow> int) \<Rightarrow> agent_projection list \<Rightarrow> agent_projection list" where
  "sorted_agents collate agents =
     sort_le (\<lambda>a b. collate (ap_agent_id a) (ap_agent_id b) \<le> 0) agents"

definition settle_auction ::
  "(string \<Rightarrow> string) \<Rightarrow> (string \<Rightarrow> bool) \<Rightarrow> market_policy \<Rightarrow> market_task \<Rightarrow> string \<Rightarrow>
   (bid \<times> (ident \<times> score_breakdown)) list \<Rightarrow> probability_entry list \<Rightarrow>
   market_error + auction_result" where
  \<comment> \<open>from the draw to the returned object\<close>
  "settle_auction digest iso_date policy task created_at scored probabilities =
    (let bids = map fst scored;
         index = select_index (map pe_probability probabilities)
                   (seeded_random (mp_seed policy @ [CHR 0x00] @ mt_task_id task));
         winner = bids ! index;
         ledger_id = stable_id digest ''ledger''
                       [mt_task_id task, mp_policy_version policy, mp_seed policy];
         ledger = \<lparr>bl_ledger_id = ledger_id, bl_task_id = mt_task_id task,
                   bl_policy_version = mp_policy_version policy, bl_seed = mp_seed policy,
                   bl_bids = bids, bl_winner_bid_id = bd_bid_id winner,
                   bl_winner_agent_id = bd_agent_id winner, bl_created_at = created_at\<rparr>;
         audit = \<lparr>ma_audit_id = stable_id digest ''market_audit'' [ledger_id, bd_bid_id winner],
                  ma_task_id = mt_task_id task, ma_policy_version = mp_policy_version policy,
                  ma_seed = mp_seed policy, ma_tau = mp_tau policy, ma_ledger_id = ledger_id,
                  ma_bid_ids = map bd_bid_id bids, ma_winner_bid_id = bd_bid_id winner,
                  ma_winner_agent_id = bd_agent_id winner, ma_probabilities = probabilities,
                  ma_created_at = created_at\<rparr>
     in bindR (ensure (ledger_ok iso_date ledger) (MarketInvalid ''ledger'')) (\<lambda>_.
        bindR (ensure (audit_ok iso_date audit) (MarketInvalid ''audit'')) (\<lambda>_.
          Inr \<lparr>au_winner_agent_id = bd_agent_id winner, au_winner_bid_id = bd_bid_id winner,
               au_ledger = ledger, au_audit = audit, au_score_breakdowns = map snd scored\<rparr>)))"

definition run_auction ::
  "(rat \<Rightarrow> rat) \<Rightarrow> (string \<Rightarrow> string \<Rightarrow> int) \<Rightarrow> (string \<Rightarrow> string) \<Rightarrow> (string \<Rightarrow> bool) \<Rightarrow>
   market_policy \<Rightarrow> string \<Rightarrow> market_task \<Rightarrow> agent_projection list \<Rightarrow> market_error + auction_result"
  where
  "run_auction expf collate digest iso_date policy created_at task agents =
    bindR (ensure (market_task_ok task) (MarketInvalid ''task'')) (\<lambda>_.
    bindR (ensure (list_all projection_ok agents) (MarketInvalid ''agents'')) (\<lambda>_.
    let agents = sorted_agents collate agents in
    bindR (ensure (agents \<noteq> []) MarketNoCandidates) (\<lambda>_.
    bindR (assert_unique_from {} agents) (\<lambda>_.
    bindR (score_agents digest iso_date task created_at (mp_policy_version policy) agents) (\<lambda>scored.
    bindR (softmax expf (map fst scored) (mp_tau policy)) (\<lambda>probabilities.
      settle_auction digest iso_date policy task created_at scored probabilities))))))"

end
