(* ===== verification/MarketProperties.thy ===== *)
theory MarketProperties
  imports Market
begin

text \<open>
  What the auction guarantees: every score is in its range, the probabilities form a distribution
  that follows the scores, the winner is the candidate whose interval the random number falls into,
  a request is refused for the listed reasons only, and the order of the candidates is irrelevant.
\<close>

section \<open>Scores\<close>

lemma is_score_simps [simp]: "is_score 0" "is_score (1 / 2)" "is_score 1"
  by (simp_all add: is_score_def)

lemma parts_are_scores [simp]:
  "is_score (keyword_coverage required offered)" "is_score (experience_match agent task)"
  "is_score (success_rate agent)" "is_score (density n d)"
  by (simp_all add: keyword_coverage_def experience_match_def success_rate_def density_def Let_def)

lemma breakdown_of_score [simp]: "breakdown_ok (score_of agent task)"
  by (simp add: breakdown_ok_def score_of_def Let_def)

lemma calculate_score_eq [simp]: "calculate_score agent task = Inr (score_of agent task)"
  by (simp add: calculate_score_def Let_def)

section \<open>Bids\<close>

lemma strategy_not_empty [simp]: "strategy agent task \<noteq> []"
  by (simp add: strategy_def Let_def)

lemma stable_id_not_empty [simp]: "stable_id digest prefix values \<noteq> []"
  by (simp add: stable_id_def)

lemma estimate_positive [simp]: "0 < estimate_time agent task"
  by (simp add: estimate_time_def Let_def)

definition bid_of ::
  "(string \<Rightarrow> string) \<Rightarrow> market_task \<Rightarrow> string \<Rightarrow> string \<Rightarrow> agent_projection \<Rightarrow> bid" where
  "bid_of digest task created_at version a =
    \<lparr>bd_bid_id = stable_id digest ''bid'' [mt_task_id task, ap_agent_id a, version],
     bd_task_id = mt_task_id task, bd_agent_id = ap_agent_id a, bd_score_breakdown = score_of a task,
     bd_final_score = sb_final_score (score_of a task), bd_estimated_time_seconds = estimate_time a task,
     bd_strategy_summary = strategy a task, bd_created_at = created_at\<rparr>"

lemma bid_of_simps [simp]:
  "bd_agent_id (bid_of digest task created_at version a) = ap_agent_id a"
  "bd_final_score (bid_of digest task created_at version a) = sb_final_score (score_of a task)"
  "bd_bid_id (bid_of digest task created_at version a) \<noteq> []"
  by (simp_all add: bid_of_def)

lemma final_score_ok [simp]: "is_score (sb_final_score (score_of a task))"
  using breakdown_of_score[of a task] by (simp add: breakdown_ok_def del: breakdown_of_score)

definition bid_admissible :: "(string \<Rightarrow> bool) \<Rightarrow> market_task \<Rightarrow> string \<Rightarrow> agent_projection \<Rightarrow> bool" where
  "bid_admissible iso_date task created_at a \<longleftrightarrow>
     mt_task_id task \<noteq> [] \<and> ap_agent_id a \<noteq> [] \<and> iso_date created_at \<and>
     estimate_time a task \<le> int max_safe_integer"

lemma bid_of_ok:
  "bid_ok iso_date (bid_of digest task created_at version a) \<longleftrightarrow> bid_admissible iso_date task created_at a"
  by (auto simp: bid_ok_def bid_of_def bid_admissible_def)

lemma score_agents_eq:
  "score_agents digest iso_date task created_at version as =
    (if list_all (bid_admissible iso_date task created_at) as
     then Inr (map (\<lambda>a. (bid_of digest task created_at version a, (ap_agent_id a, score_of a task))) as)
     else Inl (MarketInvalid ''bid''))"
proof (induction as)
  case (Cons a as)
  have "create_bid digest iso_date a task (score_of a task) created_at version =
      (if bid_admissible iso_date task created_at a then Inr (bid_of digest task created_at version a)
       else Inl (MarketInvalid ''bid''))"
    using bid_of_ok[of iso_date digest task created_at version a]
    by (simp add: create_bid_def bid_of_def Let_def)
  then show ?case using Cons by simp
qed simp

section \<open>Probabilities\<close>

lemma foldl_plus_rat: "foldl (+) (a :: rat) xs = a + sum_list xs"
  by (induction xs arbitrary: a) (simp_all add: add.assoc)

lemma sum_list_divide: "sum_list (map (\<lambda>w. w / (t :: rat)) ws) = sum_list ws / t"
  by (induction ws) (simp_all add: add_divide_distrib)

lemma sum_list_positive: "ws \<noteq> [] \<Longrightarrow> (\<And>w. w \<in> set ws \<Longrightarrow> 0 < w) \<Longrightarrow> 0 < (sum_list ws :: rat)"
proof (induction ws)
  case (Cons w ws)
  then show ?case by (cases "ws = []") (auto intro: add_pos_pos)
qed simp

definition probabilities_of :: "(rat \<Rightarrow> rat) \<Rightarrow> bid list \<Rightarrow> rat \<Rightarrow> rat list" where
  "probabilities_of expf bids tau =
    (if length bids = 1 then [1]
     else let ws = softmax_weights expf bids tau in map (\<lambda>w. w / sum_list ws) ws)"

lemma length_softmax_weights [simp]: "length (softmax_weights expf bids tau) = length bids"
  by (simp add: softmax_weights_def Let_def)

lemma length_probabilities_of [simp]: "length (probabilities_of expf bids tau) = length bids"
  by (simp add: probabilities_of_def Let_def)

lemma softmax_weights_positive:
  "\<forall>x. 0 < expf x \<Longrightarrow> w \<in> set (softmax_weights expf bids tau) \<Longrightarrow> 0 < w"
  by (auto simp: softmax_weights_def Let_def)

lemma softmax_total_positive:
  assumes "\<forall>x. 0 < expf x" and "bids \<noteq> []"
  shows "0 < sum_list (softmax_weights expf bids tau)"
proof (rule sum_list_positive)
  show "softmax_weights expf bids tau \<noteq> []"
    using assms(2) by (metis length_0_conv length_softmax_weights)
qed (use softmax_weights_positive[OF assms(1)] in blast)

definition entry_of :: "bid \<Rightarrow> rat \<Rightarrow> probability_entry" where
  "entry_of b p = \<lparr>pe_bid_id = bd_bid_id b, pe_agent_id = bd_agent_id b, pe_probability = p\<rparr>"

lemma entry_of_simps [simp]:
  "pe_bid_id (entry_of b p) = bd_bid_id b" "pe_agent_id (entry_of b p) = bd_agent_id b"
  "pe_probability (entry_of b p) = p"
  by (simp_all add: entry_of_def)

lemma softmax_eq:
  assumes "\<forall>x. 0 < expf x" and "bids \<noteq> []"
  shows "softmax expf bids tau = Inr (map2 entry_of bids (probabilities_of expf bids tau))"
proof (cases "length bids = 1")
  case True
  then obtain b where "bids = [b]" by (auto simp: length_Suc_conv)
  then show ?thesis by (simp add: softmax_def probabilities_of_def entry_of_def)
next
  case False
  let ?ws = "softmax_weights expf bids tau"
  from False have "softmax expf bids tau =
      (if foldl (+) 0 ?ws \<le> 0 then Inl InvalidProbabilityTotal
       else Inr (map (\<lambda>(b, w). entry_of b (w / foldl (+) 0 ?ws)) (zip bids ?ws)))"
    by (auto simp: softmax_def entry_of_def Let_def split: list.splits)
  moreover have "0 < foldl (+) 0 ?ws"
    using softmax_total_positive[OF assms] by (simp add: foldl_plus_rat)
  moreover have "map (\<lambda>(b, w). entry_of b (w / sum_list ?ws)) (zip bids ?ws) =
      map2 entry_of bids (map (\<lambda>w. w / sum_list ?ws) ?ws)"
    by (rule nth_equalityI) simp_all
  ultimately show ?thesis
    using False by (simp add: probabilities_of_def foldl_plus_rat Let_def)
qed

lemma probability_entries [simp]:
  "map pe_probability (map2 entry_of bids (probabilities_of expf bids tau)) = probabilities_of expf bids tau"
  by (rule nth_equalityI) simp_all

lemma probabilities_sum:
  assumes "\<forall>x. 0 < expf x" and "bids \<noteq> []"
  shows "sum_list (probabilities_of expf bids tau) = 1"
  using softmax_total_positive[OF assms, where tau = tau]
  by (simp add: probabilities_of_def sum_list_divide Let_def)

lemma probabilities_positive:
  assumes "\<forall>x. 0 < expf x" and "p \<in> set (probabilities_of expf bids tau)"
  shows "0 < p"
proof -
  have "bids \<noteq> []" using assms(2) by (auto simp: probabilities_of_def softmax_weights_def Let_def)
  then show ?thesis
    using assms softmax_total_positive[OF assms(1), where bids = bids and tau = tau]
      softmax_weights_positive[OF assms(1), where bids = bids and tau = tau]
    by (auto simp: probabilities_of_def Let_def split: if_splits)
qed

lemma member_le_sum:
  assumes "\<And>x. x \<in> set xs \<Longrightarrow> 0 < (x :: rat)" and "p \<in> set xs"
  shows "p \<le> sum_list xs"
  by (rule member_le_sum_list) (use assms in \<open>auto simp: less_imp_le\<close>)

lemma probabilities_scores:
  assumes "\<forall>x. 0 < expf x" and "p \<in> set (probabilities_of expf bids tau)"
  shows "is_score p"
proof -
  have "bids \<noteq> []" using assms(2) by (auto simp: probabilities_of_def softmax_weights_def Let_def)
  then show ?thesis
    using probabilities_positive[OF assms] probabilities_sum[OF assms(1), where bids = bids and tau = tau]
      member_le_sum[OF probabilities_positive[OF assms(1)], where p = p and xs = "probabilities_of expf bids tau"]
      assms(2) by (auto simp: is_score_def)
qed


section \<open>The draw\<close>

lemma seeded_random_bounds: "0 \<le> seeded_random s" "seeded_random s < 1"
proof -
  let ?w = "mix_hash (seed_hash s)"
  have "uint ?w < 2 ^ 32" using uint_lt2p[of ?w] by simp
  then have "(of_int (uint ?w) :: rat) < of_int (2 ^ 32)" by (simp only: of_int_less_iff)
  then show "seeded_random s < 1" by (simp add: seeded_random_def)
  have "0 \<le> uint ?w" by simp
  then have "(0 :: rat) \<le> of_int (uint ?w)" by (simp only: of_int_0_le_iff)
  then show "0 \<le> seeded_random s" by (simp add: seeded_random_def)
qed

lemma select_from_Some:
  "select_from c n ps r = Some i \<Longrightarrow> c \<le> r \<Longrightarrow>
   n \<le> i \<and> i - n < length ps \<and> c + sum_list (take (i - n) ps) \<le> r \<and> r < c + sum_list (take (Suc (i - n)) ps)"
proof (induction ps arbitrary: c n)
  case (Cons p ps)
  show ?case
  proof (cases "r < c + p")
    case False
    then have "select_from (c + p) (Suc n) ps r = Some i" and "c + p \<le> r"
      using Cons.prems by (auto split: if_splits)
    note IH = Cons.IH[OF this]
    then obtain k where "i = Suc n + k" using le_Suc_ex by blast
    then show ?thesis using IH by (simp add: add.assoc Suc_diff_le)
  qed (use Cons.prems in auto)
qed simp

lemma select_from_None: "select_from c n ps r = None \<Longrightarrow> c \<le> r \<Longrightarrow> c + sum_list ps \<le> r"
  by (induction ps arbitrary: c n) (auto simp: add.assoc[symmetric] split: if_splits)

lemma select_index_interval:
  assumes "sum_list ps = 1" and "0 \<le> r" and "r < 1"
  shows "select_index ps r < length ps" and "sum_list (take (select_index ps r) ps) \<le> r"
    and "r < sum_list (take (Suc (select_index ps r)) ps)"
proof -
  have "select_index ps r < length ps \<and> sum_list (take (select_index ps r) ps) \<le> r \<and>
      r < sum_list (take (Suc (select_index ps r)) ps)"
  proof (cases "length ps = 1")
    case True
    then show ?thesis using assms by (auto simp: select_index_def length_Suc_conv)
  next
    case False
    then show ?thesis
      using select_from_Some[of 0 0 ps r] select_from_None[of 0 0 ps r] assms
      by (cases "select_from 0 0 ps r") (auto simp: select_index_def)
  qed
  then show "select_index ps r < length ps" "sum_list (take (select_index ps r) ps) \<le> r"
    "r < sum_list (take (Suc (select_index ps r)) ps)" by blast+
qed

section \<open>The auction\<close>

lemma assert_unique_from_ok:
  "is_ok (assert_unique_from seen as) \<longleftrightarrow>
     distinct (map ap_agent_id as) \<and> ap_agent_id ` set as \<inter> seen = {}"
  by (induction seen as rule: assert_unique_from.induct) auto

lemma assert_unique_from_ids:
  "map ap_agent_id as = map ap_agent_id bs \<Longrightarrow> assert_unique_from seen as = assert_unique_from seen bs"
proof (induction as arbitrary: bs seen)
  case (Cons a as)
  then obtain b bs' where "bs = b # bs'" "ap_agent_id a = ap_agent_id b" "map ap_agent_id as = map ap_agent_id bs'"
    by (cases bs) auto
  then show ?case using Cons.IH by simp
qed simp

lemma mset_sorted_agents [simp]: "mset (sorted_agents collate agents) = mset agents"
  by (simp add: sorted_agents_def)

lemma set_sorted_agents [simp]: "set (sorted_agents collate agents) = set agents"
  by (simp add: sorted_agents_def)

lemma length_sorted_agents [simp]: "length (sorted_agents collate agents) = length agents"
  by (simp add: sorted_agents_def)

lemma sorted_agents_Nil [simp]: "sorted_agents collate agents = [] \<longleftrightarrow> agents = []"
  by (simp add: sorted_agents_def)

lemma distinct_sorted_ids [simp]:
  "distinct (map ap_agent_id (sorted_agents collate agents)) \<longleftrightarrow> distinct (map ap_agent_id agents)"
  by (metis mset_eq_imp_distinct_iff mset_map mset_sorted_agents)

lemma list_all_sorted [simp]: "list_all P (sorted_agents collate agents) \<longleftrightarrow> list_all P agents"
  by (simp add: list_all_iff)

definition auction_admissible ::
  "(string \<Rightarrow> bool) \<Rightarrow> string \<Rightarrow> market_task \<Rightarrow> agent_projection list \<Rightarrow> bool" where
  "auction_admissible iso_date created_at task agents \<longleftrightarrow>
     market_task_ok task \<and> list_all projection_ok agents \<and> agents \<noteq> [] \<and>
     distinct (map ap_agent_id agents) \<and> iso_date created_at \<and>
     list_all (\<lambda>a. estimate_time a task \<le> int max_safe_integer) agents"

definition bids_of where
  "bids_of collate digest policy created_at task agents =
     map (bid_of digest task created_at (mp_policy_version policy)) (sorted_agents collate agents)"

lemma settle_auction_ok:
  assumes ok: "auction_admissible iso_date created_at task agents" and p: "policy_ok policy"
    and e: "\<forall>x. 0 < expf x"
    and bids: "bids = bids_of collate digest policy created_at task agents"
    and scored: "map fst scored = bids"
    and ps: "ps = map2 entry_of bids (probabilities_of expf bids (mp_tau policy))"
  shows "\<exists>r. settle_auction digest iso_date policy task created_at scored ps = Inr r \<and>
    au_winner_agent_id r = bd_agent_id (bids ! select_index (probabilities_of expf bids (mp_tau policy))
       (seeded_random (mp_seed policy @ [CHR 0x00] @ mt_task_id task))) \<and>
    ma_probabilities (au_audit r) = ps \<and> bl_bids (au_ledger r) = bids"
proof -
  let ?i = "select_index (map pe_probability ps) (seeded_random (mp_seed policy @ [CHR 0x00] @ mt_task_id task))"
  have ne: "bids \<noteq> []" using ok by (simp add: bids bids_of_def auction_admissible_def)
  have mp: "map pe_probability ps = probabilities_of expf bids (mp_tau policy)"
    unfolding ps by (rule probability_entries)
  have i: "?i < length bids"
    using select_index_interval(1)[OF probabilities_sum[OF e ne, of "mp_tau policy"] seeded_random_bounds]
    unfolding mp by simp
  have ok_bids: "list_all (bid_ok iso_date) bids"
    using ok by (auto simp: bids bids_of_def list_all_iff bid_of_ok auction_admissible_def bid_admissible_def
        market_task_ok_def projection_ok_def)
  have w: "bid_ok iso_date (bids ! ?i)" using ok_bids i by (simp add: list_all_length)
  have ids: "bd_bid_id b \<noteq> [] \<and> bd_agent_id b \<noteq> []" if "b \<in> set bids" for b
    using ok_bids that by (auto simp: list_all_iff bid_ok_def)
  have "list_all (\<lambda>p. pe_bid_id p \<noteq> [] \<and> pe_agent_id p \<noteq> [] \<and> is_score (pe_probability p)) ps"
    using ids probabilities_scores[OF e] by (force simp: ps list_all_iff dest: set_zip_leftD set_zip_rightD)
  moreover have "list_all (\<lambda>i. i \<noteq> []) (map bd_bid_id bids)" using ids by (simp add: list_all_iff)
  ultimately show ?thesis
    using ok p w ok_bids ne scored unfolding mp
    by (simp add: settle_auction_def mp Let_def ledger_ok_def audit_ok_def auction_admissible_def market_task_ok_def
        policy_ok_def bid_ok_def)
qed

lemma run_auction_ok:
  assumes ok: "auction_admissible iso_date created_at task agents" and p: "policy_ok policy" and e: "\<forall>x. 0 < expf x"
    and bids: "bids = bids_of collate digest policy created_at task agents"
    and pr: "pr = probabilities_of expf bids (mp_tau policy)"
  shows "\<exists>r. run_auction expf collate digest iso_date policy created_at task agents = Inr r \<and>
    au_winner_agent_id r = bd_agent_id (bids ! select_index pr
       (seeded_random (mp_seed policy @ [CHR 0x00] @ mt_task_id task))) \<and>
    ma_probabilities (au_audit r) = map2 entry_of bids pr \<and> bl_bids (au_ledger r) = bids"
proof -
  have ne: "bids \<noteq> []" using ok by (simp add: bids bids_of_def auction_admissible_def)
  have u: "assert_unique_from {} (sorted_agents collate agents) = Inr ()"
    using assert_unique_from_ok[of "{}" "sorted_agents collate agents"] ok
    by (cases "assert_unique_from {} (sorted_agents collate agents)") (auto simp: auction_admissible_def)
  have adm: "list_all (bid_admissible iso_date task created_at) agents"
    using ok by (auto simp: list_all_iff auction_admissible_def bid_admissible_def market_task_ok_def projection_ok_def)
  let ?scored = "map (\<lambda>a. (bid_of digest task created_at (mp_policy_version policy) a,
      (ap_agent_id a, score_of a task))) (sorted_agents collate agents)"
  have fst: "map fst ?scored = bids" by (simp add: bids bids_of_def comp_def)
  have "run_auction expf collate digest iso_date policy created_at task agents =
      settle_auction digest iso_date policy task created_at ?scored (map2 entry_of bids pr)"
    using ok by (simp add: run_auction_def Let_def auction_admissible_def u score_agents_eq adm fst[unfolded comp_def]
        softmax_eq[OF e ne] pr comp_def fst del: map_map)
  then show ?thesis
    using settle_auction_ok[OF ok p e bids fst HOL.refl] by (simp add: pr)
qed

lemma run_auction_refused:
  assumes "\<not> auction_admissible iso_date created_at task agents"
  shows "\<not> is_ok (run_auction expf collate digest iso_date policy created_at task agents)"
proof
  assume "is_ok (run_auction expf collate digest iso_date policy created_at task agents)"
  then obtain scored where t: "market_task_ok task" "list_all projection_ok agents" "agents \<noteq> []"
    and u: "is_ok (assert_unique_from {} (sorted_agents collate agents))"
    and s: "score_agents digest iso_date task created_at (mp_policy_version policy) (sorted_agents collate agents) = Inr scored"
    by (auto simp: run_auction_def Let_def is_ok_iff bindR_eq_Inr_conv ensure_def split: if_splits)
  from s have "list_all (bid_admissible iso_date task created_at) agents"
    by (simp add: score_agents_eq split: if_splits)
  with t u assms show False
    by (cases agents) (auto simp: auction_admissible_def assert_unique_from_ok bid_admissible_def list_all_iff)
qed

lemma auction_ok_iff:
  assumes "policy_ok policy" and "\<forall>x. 0 < expf x"
  shows "is_ok (run_auction expf collate digest iso_date policy created_at task agents) \<longleftrightarrow>
    auction_admissible iso_date created_at task agents"
  using run_auction_ok[OF _ assms HOL.refl HOL.refl, of iso_date created_at task agents collate digest]
    run_auction_refused by (metis is_ok_iff)

section \<open>Independence of the order\<close>

definition ids_told_apart :: "(string \<Rightarrow> string \<Rightarrow> int) \<Rightarrow> ident set \<Rightarrow> bool" where
  "ids_told_apart collate ids \<longleftrightarrow> (\<forall>x \<in> ids. \<forall>y \<in> ids. collate x y \<le> 0 \<longrightarrow> collate y x \<le> 0 \<longrightarrow> x = y)"

lemma sorted_lists_equal:
  assumes "mset xs = mset ys" and "sorted_wrt le xs" and "sorted_wrt le ys"
    and "\<And>x y. x \<in> set xs \<Longrightarrow> y \<in> set xs \<Longrightarrow> le x y \<Longrightarrow> le y x \<Longrightarrow> x = y"
  shows "xs = ys"
  using assms
proof (induction xs arbitrary: ys)
  case (Cons x xs)
  then obtain y ys' where ys: "ys = y # ys'" by (cases ys) auto
  have s: "set (x # xs) = set ys" using Cons.prems(1) by (metis set_mset_mset)
  have "x = y"
  proof (rule ccontr)
    assume n: "x \<noteq> y"
    then have "x \<in> set ys'" "y \<in> set xs" using s ys by auto
    then have "le y x" "le x y" using Cons.prems(2,3) ys by auto
    then show False using Cons.prems(4)[of x y] \<open>y \<in> set xs\<close> n by simp
  qed
  moreover have "xs = ys'"
    by (rule Cons.IH) (use Cons.prems ys \<open>x = y\<close> in auto)
  ultimately show ?case by (simp add: ys)
qed simp

lemma sorted_ids_equal:
  assumes "is_comparator collate" and "ids_told_apart collate (ap_agent_id ` set agents)"
    and "mset agents = mset agents'"
  shows "map ap_agent_id (sorted_agents collate agents) = map ap_agent_id (sorted_agents collate agents')"
proof (rule sorted_lists_equal[where le = "\<lambda>x y. collate x y \<le> 0"])
  show "mset (map ap_agent_id (sorted_agents collate agents)) = mset (map ap_agent_id (sorted_agents collate agents'))"
    using assms(3) by (simp only: mset_map mset_sorted_agents)
  have cmp: "is_comparator (\<lambda>a b. collate (ap_agent_id a) (ap_agent_id b))"
    using assms(1) by (auto simp: is_comparator_def)
  have sorted: "sorted_wrt (\<lambda>x y. collate x y \<le> 0) (map ap_agent_id (sorted_agents collate as))" for as
    using sort_by_comparator_sorted[OF cmp, of as] by (simp add: sorted_agents_def sorted_wrt_map)
  show "sorted_wrt (\<lambda>x y. collate x y \<le> 0) (map ap_agent_id (sorted_agents collate agents))"
    "sorted_wrt (\<lambda>x y. collate x y \<le> 0) (map ap_agent_id (sorted_agents collate agents'))"
    by (rule sorted)+
  show "x = y" if "x \<in> set (map ap_agent_id (sorted_agents collate agents))"
    "y \<in> set (map ap_agent_id (sorted_agents collate agents))" "collate x y \<le> 0" "collate y x \<le> 0" for x y
    using assms(2) that by (auto simp: ids_told_apart_def)
qed

lemma sorted_agents_equal:
  assumes "is_comparator collate" and "ids_told_apart collate (ap_agent_id ` set agents)"
    and "mset agents = mset agents'" and "distinct (map ap_agent_id agents)"
  shows "sorted_agents collate agents = sorted_agents collate agents'"
proof (rule map_inj_on[OF sorted_ids_equal[OF assms(1-3)]])
  have "set agents' = set agents" using assms(3) by (metis set_mset_mset)
  then show "inj_on ap_agent_id (set (sorted_agents collate agents) \<union> set (sorted_agents collate agents'))"
    using assms(4) by (simp add: distinct_map)
qed

section \<open>Sample\<close>

definition sample_candidate :: "ident \<Rightarrow> agent_projection" where
  "sample_candidate i = \<lparr>ap_agent_id = i, ap_persona_ref = ''p'', ap_persona_keywords = [''rust''],
     ap_skills = [\<lparr>sk_name = ''Parser'', sk_tags = []\<rparr>], ap_experiences = [], ap_total_tasks = 4,
     ap_tasks_completed = 4, ap_tasks_succeeded = 3, ap_skill_count = 1, ap_experience_count = 2,
     ap_avg_confidence = 1 / 2, ap_active_task_count = 1, ap_days_since_last_task = 7\<rparr>"

definition sample_market_task :: market_task where
  "sample_market_task = \<lparr>mt_task_id = ''t'', mt_description = ''d'', mt_persona_keywords = [''Rust''],
     mt_preferred_skill_tags = [], mt_preferred_experience_tags = [], mt_urgency = 1 / 2,
     mt_exploration_level = 1\<rparr>"

definition sample_policy :: market_policy where
  "sample_policy = \<lparr>mp_policy_version = ''1'', mp_seed = ''s'', mp_tau = 1 / 2\<rparr>"

lemma sample_policy_ok: "policy_ok sample_policy"
  by (simp add: policy_ok_def sample_policy_def)


section \<open>Properties\<close>



text \<open>
  C23. An auction succeeds exactly when the task and every candidate satisfy their schemas, there is a
  candidate, the identifiers are distinct, the time stamp is an ISO date and no estimated time exceeds
  the safe integers; a task with an over-large estimate is refused by the schema of bids.
\<close>

theorem auction_accepts:
  assumes "policy_ok policy" and "\<forall>x. 0 < expf x"
  shows "is_ok (run_auction expf collate digest iso_date policy created_at task agents) \<longleftrightarrow>
    market_task_ok task \<and> list_all projection_ok agents \<and> agents \<noteq> [] \<and>
    distinct (map ap_agent_id agents) \<and> iso_date created_at \<and>
    list_all (\<lambda>a. estimate_time a task \<le> 2 ^ 53 - 1) agents"
  using auction_ok_iff[OF assms] by (simp add: auction_admissible_def max_safe_integer_def)

theorem auction_accepts_witness:
  "is_ok (run_auction (\<lambda>_. 1) code_unit_compare (\<lambda>_. ''x'') (\<lambda>_. True) sample_policy ''now'' sample_market_task
     [sample_candidate ''a'']) \<and>
   \<not> is_ok (run_auction (\<lambda>_. 1) code_unit_compare (\<lambda>_. ''x'') (\<lambda>_. True) sample_policy ''now'' sample_market_task
     [sample_candidate ''a'', sample_candidate ''a''])"
  using auction_accepts[OF sample_policy_ok, of "\<lambda>_. 1"]
  by (simp add: market_task_ok_def projection_ok_def sample_market_task_def
      sample_candidate_def is_score_def is_count_def estimate_time_def js_round_def max_safe_integer_def Let_def)

text \<open>
  C22. The outcome of an auction, its error included, does not depend on the order in which the
  candidates are listed, provided the collation tells their identifiers apart.
\<close>

theorem auction_ignores_the_order:
  assumes "is_comparator collate" and "ids_told_apart collate (ap_agent_id ` set agents)"
    and "mset agents = mset agents'"
  shows "run_auction expf collate digest iso_date policy created_at task agents =
    run_auction expf collate digest iso_date policy created_at task agents'"
proof -
  have set: "set agents = set agents'" using assms(3) by (metis set_mset_mset)
  then have s: "list_all projection_ok agents = list_all projection_ok agents'"
    "sorted_agents collate agents = [] \<longleftrightarrow> sorted_agents collate agents' = []"
    by (auto simp: list_all_iff)
  show ?thesis
  proof (cases "distinct (map ap_agent_id agents)")
    case True
    then show ?thesis
      using sorted_agents_equal[OF assms True] s by (simp add: run_auction_def Let_def)
  next
    case False
    have u: "assert_unique_from {} (sorted_agents collate agents) = assert_unique_from {} (sorted_agents collate agents')"
      by (rule assert_unique_from_ids[OF sorted_ids_equal[OF assms]])
    have "\<not> is_ok (assert_unique_from {} (sorted_agents collate agents))"
      using False by (simp add: assert_unique_from_ok)
    then obtain e where "assert_unique_from {} (sorted_agents collate agents) = Inl e"
      by (cases "assert_unique_from {} (sorted_agents collate agents)") auto
    then show ?thesis using u s by (simp add: run_auction_def Let_def bindR_def ensure_def)
  qed
qed

theorem auction_ignores_the_order_witness:
  "run_auction (\<lambda>_. 1) code_unit_compare (\<lambda>_. ''x'') (\<lambda>_. True) sample_policy ''now'' sample_market_task
     [sample_candidate ''b'', sample_candidate ''a''] =
   run_auction (\<lambda>_. 1) code_unit_compare (\<lambda>_. ''x'') (\<lambda>_. True) sample_policy ''now'' sample_market_task
     [sample_candidate ''a'', sample_candidate ''b'']"
  by (rule auction_ignores_the_order)
    (auto simp: is_comparator_code_unit ids_told_apart_def sample_candidate_def)

end
