(* ===== verification/AdpOutcome.thy ===== *)
theory AdpOutcome
  imports ProtocolFrames
begin

text \<open>
  The life of one driver invocation and the status of its receipt
  (\<open>src/driver/adp-invocation-state.ts\<close>, \<open>adp-status-mapping.ts\<close>, \<open>adp-retry-policy.ts\<close>,
  \<open>driver-transport-error.ts\<close>). The notes of an outcome, diagnostic sentences that are not Latin-1,
  are a datatype with one constructor for each sentence.
\<close>

section \<open>Results of the driver\<close>

datatype driver_status = DrSucceeded | DrFailed | DrCancelled | DrInterrupted

record driver_run =
  dx_status :: driver_status
  dx_response :: "string option"
  dx_error :: "protocol_error option" \<comment> \<open>code, message, retryable\<close>
  dx_artifacts :: "ident list"
  dx_tool_events :: "ident list"
  dx_duration_ms :: int

datatype driver_evidence = NotExecuted | ExecutionUnconfirmed

record thrown_error =
  tx_message :: string
  tx_evidence :: "driver_evidence option" \<comment> \<open>of a \<open>DriverTransportError\<close>\<close>

definition evidence_of :: "thrown_error \<Rightarrow> driver_evidence" where
  "evidence_of e = or_default (tx_evidence e) ExecutionUnconfirmed"

datatype attempt_outcome = Returned driver_run | Threw thrown_error

section \<open>Evidence\<close>

datatype invocation_phase = PhStarting | PhDispatched | PhReturning | PhSettled

record invocation_evidence =
  ev_dispatched :: bool
  ev_effects_observed :: bool
  ev_result_received :: bool
  ev_cancel_requested :: bool
  ev_transport :: "driver_evidence option"

record invocation_state =
  is_current :: invocation_phase
  is_facts :: invocation_evidence

definition new_invocation :: invocation_state where
  "new_invocation = \<lparr>is_current = PhStarting,
     is_facts = \<lparr>ev_dispatched = False, ev_effects_observed = False, ev_result_received = False,
                 ev_cancel_requested = False, ev_transport = None\<rparr>\<rparr>"

definition mark_dispatched :: "invocation_state \<Rightarrow> invocation_state" where
  "mark_dispatched s =
     s\<lparr>is_facts := (is_facts s)\<lparr>ev_dispatched := True\<rparr>,
       is_current := (if is_current s = PhStarting then PhDispatched else is_current s)\<rparr>"

definition observe_effect :: "invocation_state \<Rightarrow> invocation_state" where
  "observe_effect s = s\<lparr>is_facts := (is_facts s)\<lparr>ev_effects_observed := True\<rparr>\<rparr>"

definition mark_result_received :: "invocation_state \<Rightarrow> invocation_state" where
  "mark_result_received s =
     s\<lparr>is_facts := (is_facts s)\<lparr>ev_result_received := True\<rparr>,
       is_current := (if is_current s \<noteq> PhSettled then PhReturning else is_current s)\<rparr>"

definition mark_cancel_requested :: "invocation_state \<Rightarrow> invocation_state" where
  "mark_cancel_requested s = s\<lparr>is_facts := (is_facts s)\<lparr>ev_cancel_requested := True\<rparr>\<rparr>"

definition note_transport_evidence :: "driver_evidence \<Rightarrow> invocation_state \<Rightarrow> invocation_state" where
  "note_transport_evidence e s =
    (if ev_transport (is_facts s) = Some NotExecuted then s
     else s\<lparr>is_facts := (is_facts s)\<lparr>ev_transport := Some e\<rparr>\<rparr>)"

definition settle_invocation :: "invocation_state \<Rightarrow> invocation_state" where
  "settle_invocation s = s\<lparr>is_current := PhSettled\<rparr>"

definition not_executed_evidence :: "invocation_evidence \<Rightarrow> bool" where
  "not_executed_evidence e \<longleftrightarrow> \<not> ev_dispatched e \<or> ev_transport e = Some NotExecuted"

section \<open>The status of the receipt\<close>

datatype outcome_note =
    NoteDispatched bool
  | NoteTransport driver_evidence
  | NoteEffectsObserved
  | NoteCancelRequested
  | NoteConfirmedCancellation
  | NoteInterruptedWithEffects
  | NoteInterruptedWithoutEffects
  | NoteUnconfirmedTransport string
  | NoteCancelBeforeDispatch
  | NoteCancelWithEffects
  | NoteCancelWithoutEffects
  | NoteUnconfirmedFailure
  | NoteStartFailure
  | NoteReplayed

record mapped_outcome =
  mo_status :: receipt_status
  mo_error :: "protocol_error option"
  mo_summary :: string
  mo_notes :: "outcome_note list"

definition unconfirmed_error_codes :: "string list" where
  "unconfirmed_error_codes =
     [''DRIVER_OUTCOME_UNKNOWN'', ''EXTERNAL_DRIVER_TRANSPORT_ERROR'', ''DRIVER_RUNTIME_INVOKER_ERROR'']"

definition unknown_error :: "string \<Rightarrow> protocol_error" where
  "unknown_error message =
     \<lparr>per_code = ''DRIVER_OUTCOME_UNKNOWN'', per_message = message, per_retryable = False\<rparr>"

definition or_text :: "string \<Rightarrow> string \<Rightarrow> string" where
  \<comment> \<open>\<open>text || fallback\<close>\<close>
  "or_text t fallback = (if t = [] then fallback else t)"

definition evidence_notes :: "invocation_evidence \<Rightarrow> outcome_note list" where
  "evidence_notes e =
     NoteDispatched (ev_dispatched e) #
     (case ev_transport e of None \<Rightarrow> [] | Some t \<Rightarrow> [NoteTransport t]) @
     (if ev_effects_observed e then [NoteEffectsObserved] else []) @
     (if ev_cancel_requested e then [NoteCancelRequested] else [])"

definition short_line :: "nat \<Rightarrow> string \<Rightarrow> string" where
  "short_line limit t =
    (let line = takeWhile (\<lambda>c. c \<noteq> CHR 0x0A) t
     in if length line > limit then take (limit - 3) line @ ''...'' else line)"

definition first_line :: "string \<Rightarrow> string" where
  "first_line t = short_line 200 t"

definition start_failure :: "string \<Rightarrow> outcome_note list \<Rightarrow> mapped_outcome" where
  "start_failure message notes =
    \<lparr>mo_status = RsFailed,
     mo_error = Some \<lparr>per_code = ''DRIVER_START_FAILED'',
                      per_message = or_text message ''driver failed to start'', per_retryable = True\<rparr>,
     mo_summary = ''driver failed to start: '' @ or_text message ''no detail'',
     mo_notes = notes @ [NoteStartFailure]\<rparr>"

definition error_message :: "driver_run \<Rightarrow> string \<Rightarrow> string" where
  \<comment> \<open>\<open>execution.error?.message ?? fallback\<close>\<close>
  "error_message x fallback = (case dx_error x of None \<Rightarrow> fallback | Some e \<Rightarrow> per_message e)"

definition map_result ::
  "driver_run \<Rightarrow> invocation_evidence \<Rightarrow> bool \<Rightarrow> outcome_note list \<Rightarrow> mapped_outcome" where
  "map_result x e not_executed notes = (case dx_status x of
     DrSucceeded \<Rightarrow>
       \<lparr>mo_status = RsSucceeded, mo_error = None,
        mo_summary = (case non_empty (dx_response x) of
            Some r \<Rightarrow> first_line r | None \<Rightarrow> ''driver invocation succeeded''),
        mo_notes = notes\<rparr>
   | DrCancelled \<Rightarrow>
       \<lparr>mo_status = RsCancelled, mo_error = None,
        mo_summary = error_message x ''driver invocation cancelled'',
        mo_notes = notes @ [NoteConfirmedCancellation]\<rparr>
   | DrInterrupted \<Rightarrow>
       (if ev_effects_observed e
        then \<lparr>mo_status = RsUnknown,
              mo_error = Some (unknown_error
                ''driver run interrupted with side effects observed; outcome cannot be confirmed''),
              mo_summary = ''outcome unknown: interrupted mid-flight with observed side effects'',
              mo_notes = notes @ [NoteInterruptedWithEffects]\<rparr>
        else \<lparr>mo_status = RsCancelled, mo_error = None,
              mo_summary = error_message x ''driver run interrupted before any side effect'',
              mo_notes = notes @ [NoteInterruptedWithoutEffects]\<rparr>)
   | DrFailed \<Rightarrow>
       (let code = (case dx_error x of None \<Rightarrow> ''DRIVER_FAILED'' | Some r \<Rightarrow> per_code r)
        in if code = ''DRIVER_START_FAILED''
           then start_failure (error_message x ''driver failed to start'') notes
           else if code \<in> set unconfirmed_error_codes \<and> \<not> not_executed
           then \<lparr>mo_status = RsUnknown,
                 mo_error = Some (unknown_error
                   (error_message x (''driver outcome unconfirmed ('' @ code @ '')''))),
                 mo_summary = ''outcome unknown: '' @ error_message x code,
                 mo_notes = notes @ [NoteUnconfirmedTransport code]\<rparr>
           else \<lparr>mo_status = RsFailed,
                 mo_error = Some \<lparr>per_code = code,
                   per_message = error_message x ''driver invocation failed'',
                   per_retryable = (case dx_error x of None \<Rightarrow> False | Some r \<Rightarrow> per_retryable r)\<rparr>,
                 mo_summary = error_message x ''driver invocation failed'', mo_notes = notes\<rparr>))"

definition map_thrown ::
  "thrown_error \<Rightarrow> invocation_evidence \<Rightarrow> bool \<Rightarrow> outcome_note list \<Rightarrow> mapped_outcome" where
  "map_thrown t e not_executed notes =
    (let message = tx_message t in
     if not_executed
     then (if ev_cancel_requested e
           then \<lparr>mo_status = RsCancelled, mo_error = None,
                 mo_summary = ''cancelled before dispatch; driver never executed'',
                 mo_notes = notes @ [NoteCancelBeforeDispatch]\<rparr>
           else start_failure message notes)
     else if ev_cancel_requested e
     then (if ev_effects_observed e
           then \<lparr>mo_status = RsUnknown,
                 mo_error = Some (unknown_error
                   (''cancelled mid-flight with unclear side effects: '' @ message)),
                 mo_summary = ''outcome unknown: cancelled after side effects were observed'',
                 mo_notes = notes @ [NoteCancelWithEffects]\<rparr>
           else \<lparr>mo_status = RsCancelled, mo_error = None,
                 mo_summary = ''cancelled after dispatch without observed side effects'',
                 mo_notes = notes @ [NoteCancelWithoutEffects]\<rparr>)
     else \<lparr>mo_status = RsUnknown,
           mo_error = Some (unknown_error (or_text message ''driver outcome could not be confirmed'')),
           mo_summary = ''outcome unknown: '' @ or_text message ''driver outcome could not be confirmed'',
           mo_notes = notes @ [NoteUnconfirmedFailure]\<rparr>)"

definition map_adp_outcome :: "invocation_evidence \<Rightarrow> attempt_outcome \<Rightarrow> mapped_outcome" where
  "map_adp_outcome e outcome =
    (let not_executed = not_executed_evidence e; notes = evidence_notes e
     in case outcome of
          Returned x \<Rightarrow> map_result x e not_executed notes
        | Threw t \<Rightarrow> map_thrown t e not_executed notes)"

section \<open>Automatic retries\<close>

type_synonym auto_retry = "side_effect \<Rightarrow> bool"

definition env_key :: "side_effect \<Rightarrow> string" where
  "env_key s = (case s of ReadOnly \<Rightarrow> ''NEWIDE_ADP_AUTO_RETRY_READ_ONLY''
     | WorkspaceWrite \<Rightarrow> ''NEWIDE_ADP_AUTO_RETRY_WORKSPACE_WRITE''
     | ExternalEffect \<Rightarrow> ''NEWIDE_ADP_AUTO_RETRY_EXTERNAL'')"

definition is_truthy :: "string option \<Rightarrow> bool" where
  "is_truthy v = (case non_empty v of None \<Rightarrow> False
     | Some s \<Rightarrow> js_to_lower (js_trim s) \<in> set [''1'', ''true'', ''yes'', ''on''])"

definition read_auto_retry :: "(string \<Rightarrow> string option) \<Rightarrow> auto_retry" where
  "read_auto_retry env s = is_truthy (env (env_key s))"

definition create_retry_policy :: "(side_effect \<Rightarrow> bool option) \<Rightarrow> (string \<Rightarrow> string option) \<Rightarrow> auto_retry" where
  "create_retry_policy overrides env s = or_default (overrides s) (read_auto_retry env s)"

definition should_auto_retry :: "auto_retry \<Rightarrow> receipt_status \<Rightarrow> side_effect \<Rightarrow> bool" where
  "should_auto_retry policy status s = (if status \<noteq> RsFailed then False else policy s)"

section \<open>What the mapping guarantees\<close>

definition error_code_ok :: "attempt_outcome \<Rightarrow> bool" where
  \<comment> \<open>an error the driver reports has a code\<close>
  "error_code_ok outcome = (case outcome of
     Returned x \<Rightarrow> (case dx_error x of None \<Rightarrow> True | Some e \<Rightarrow> per_code e \<noteq> []) | Threw _ \<Rightarrow> True)"

definition mapped_ok :: "mapped_outcome \<Rightarrow> bool" where
  "mapped_ok m \<longleftrightarrow> body_ok AgentDriver None (Receipt (mo_status m) (mo_summary m) (mo_error m))"

lemma mapped_ok_iff:
  "mapped_ok m \<longleftrightarrow> mo_status m \<noteq> RsCompleted \<and>
     (case mo_error m of None \<Rightarrow> mo_status m \<noteq> RsFailed
      | Some e \<Rightarrow> per_code e \<noteq> [] \<and> mo_status m \<noteq> RsSucceeded)"
  by (cases "mo_status m") (auto simp: mapped_ok_def body_ok_def statuses_def split: option.splits)

lemmas mapping_defs = map_adp_outcome_def map_result_def map_thrown_def start_failure_def
  unknown_error_def Let_def

lemma map_adp_outcome_ok:
  "error_code_ok outcome \<Longrightarrow> mapped_ok (map_adp_outcome e outcome)"
  by (auto simp: mapped_ok_iff mapping_defs error_code_ok_def
      split: attempt_outcome.splits driver_status.splits option.splits)

end
