(* ===== verification/AdpEndpoint.thy ===== *)
theory AdpEndpoint
  imports ProtocolBridges AdpOutcome
begin

text \<open>
  The endpoint through which the host invokes drivers (\<open>src/driver/adp-driver-endpoint.ts\<close>). Its state
  is the delivery tables and a table of the invocations of this process, which a restart empties. An
  asynchronous call is cut where it awaits the driver: \<open>invoke\<close> up to the first execution,
  \<open>attempt_done\<close> from the end of an execution to the next one or to the receipt; between the two,
  cancellations, events of the driver and other calls interleave. The database is written in several
  transactions, so an exception leaves those that were committed (a \<open>script\<close>, where a \<open>transaction\<close>
  is rolled back as a whole). Fresh identifiers and the clock are arguments, and so are the summaries
  of the journal's call rows, which are not Latin-1. The opaque report of an execution and the
  debugging output are left out.
\<close>

section \<open>Scripts of transactions\<close>

type_synonym 'a script = "protocol_db \<Rightarrow> (protocol_error_kind + 'a) \<times> protocol_db"

definition txS :: "'a transaction \<Rightarrow> 'a script" where
  "txS m db = (case m db of Inl e \<Rightarrow> (Inl e, db) | Inr (x, db') \<Rightarrow> (Inr x, db'))"

definition bindS :: "'a script \<Rightarrow> ('a \<Rightarrow> 'b script) \<Rightarrow> 'b script" where
  "bindS m f db = (case m db of (Inl e, db') \<Rightarrow> (Inl e, db') | (Inr x, db') \<Rightarrow> f x db')"

definition returnS :: "'a \<Rightarrow> 'a script" where
  "returnS x db = (Inr x, db)"

definition failS :: "protocol_error_kind \<Rightarrow> 'a script" where
  "failS e db = (Inl e, db)"

section \<open>State\<close>

record adp_config =
  ac_side_effect :: side_effect
  ac_retry :: auto_retry
  ac_max_auto_retries :: nat
  ac_deadline_ms :: int
  ac_lease_ms :: int
  ac_owner :: ident
  ac_intent_text :: "string \<Rightarrow> string" \<comment> \<open>summaries of call rows\<close>
  ac_cancel_text :: "ident \<Rightarrow> string"
  ac_retry_text :: "nat \<Rightarrow> string"
  ac_late_text :: "driver_status \<Rightarrow> receipt_status option \<Rightarrow> string"

record settled_outcome =
  so_exchange_id :: ident
  so_status :: receipt_status
  so_receipt :: protocol_frame
  so_attempts :: nat
  so_replayed :: bool
  so_evidence :: invocation_evidence
  so_degraded :: bool
  so_execution :: "driver_run option"
  so_thrown :: "thrown_error option"
  so_mapped :: mapped_outcome

record live_invocation =
  lv_exchange_id :: ident
  lv_task_id :: ident
  lv_run_id :: ident
  lv_frame :: protocol_frame
  lv_state :: invocation_state
  lv_aborted :: bool
  lv_degraded :: bool
  lv_settled :: "settled_outcome option"
  lv_attempt :: nat \<comment> \<open>of the loop that awaits the driver\<close>
  lv_side_effect :: side_effect

record receipt_delivery =
  rd_exchange_id :: ident
  rd_causation_id :: "ident option"
  rd_outcome :: settled_outcome

record adp_state =
  as_db :: protocol_db
  as_live :: "(ident \<times> live_invocation) list"
  as_receipts :: "receipt_delivery list" \<comment> \<open>the calls of \<open>onReceipt\<close>\<close>

datatype invoke_outcome =
    Settled settled_outcome
  | InFlight ident
  | Executing ident nat \<comment> \<open>the driver is started, with the number of the attempt\<close>

definition find_live :: "adp_state \<Rightarrow> ident \<Rightarrow> live_invocation option" where
  "find_live st x = map_of (as_live st) x"

definition put_live :: "live_invocation \<Rightarrow> adp_state \<Rightarrow> adp_state" where
  "put_live lv st = st\<lparr>as_live := AList.update (lv_exchange_id lv) lv (as_live st)\<rparr>"

section \<open>Bookkeeping\<close>

definition adp_outbox_id :: "ident \<Rightarrow> ident" where
  "adp_outbox_id x = ''adp-out:'' @ x"

definition driver_consumer :: ident where
  "driver_consumer = ''adp:driver-side''"

definition agent_consumer :: ident where
  "agent_consumer = ''adp:agent-side''"

definition driver_key :: "ident \<Rightarrow> inbox_key" where
  "driver_key x = \<lparr>ik_consumer_id = driver_consumer, ik_protocol = AgentDriver, ik_exchange_id = x\<rparr>"

definition agent_key :: "ident \<Rightarrow> inbox_key" where
  "agent_key x = \<lparr>ik_consumer_id = agent_consumer, ik_protocol = AgentDriver, ik_exchange_id = x\<rparr>"

definition lease_until :: "adp_config \<Rightarrow> timestamp \<Rightarrow> timestamp" where
  "lease_until cfg now = now + ac_lease_ms cfg"

definition bookkeep :: "live_invocation \<Rightarrow> 'a script \<Rightarrow> protocol_db \<Rightarrow> 'a option \<times> live_invocation \<times> protocol_db"
  where
  \<comment> \<open>an exception degrades the invocation to bookkeeping in the process\<close>
  "bookkeep lv operation db =
    (if lv_degraded lv then (None, lv, db)
     else case operation db of
            (Inl e, db') \<Rightarrow> (None, lv\<lparr>lv_degraded := True\<rparr>, db')
          | (Inr x, db') \<Rightarrow> (Some x, lv, db'))"

definition mark_adp_sent :: "adp_config \<Rightarrow> ident \<Rightarrow> timestamp \<Rightarrow> unit script" where
  "mark_adp_sent cfg x now =
    bindS (txS (claim_outbox (adp_outbox_id x) (ac_owner cfg) now (lease_until cfg now) 1)) (\<lambda>claimed.
      case claimed of
        None \<Rightarrow> returnS ()
      | Some c \<Rightarrow>
          bindS (txS (mark_outbox_sent (adp_outbox_id x) (ac_owner cfg) (ob_revision c) now)) (\<lambda>_. returnS ()))"

definition ensure_inbox_lease :: "adp_config \<Rightarrow> inbox_key \<Rightarrow> timestamp \<Rightarrow> nat script" where
  "ensure_inbox_lease cfg k now =
    bindS (txS (readT (\<lambda>db. Inr (get_inbox db k)))) (\<lambda>row.
      case row of
        None \<Rightarrow> failS (InboxNotFound (ik_exchange_id k))
      | Some r \<Rightarrow>
          (if lease_holds (ib_lease_expires_at r) now
           then bindS (txS (renew_inbox_lease k (ac_owner cfg) (ib_revision r) now (lease_until cfg now)))
                  (\<lambda>renewed. returnS (ib_revision renewed))
           else bindS (txS (claim_inbox k (ac_owner cfg) now (lease_until cfg now) (ib_revision r)))
                  (\<lambda>reclaimed. case reclaimed of
                     None \<Rightarrow> failS (InboxConflict (ik_exchange_id k))
                   | Some c \<Rightarrow> returnS (ib_revision c))))"

definition call_row ::
  "live_invocation \<Rightarrow> ident \<Rightarrow> string \<Rightarrow> string \<Rightarrow> string \<Rightarrow> timestamp \<Rightarrow> protocol_call" where
  "call_row lv i event status summary now =
    \<lparr>pc_task_id = lv_task_id lv, pc_run_id = lv_run_id lv, pc_call_id = i, pc_role_id = None, pc_event = event,
     pc_status = status, pc_summary = summary, pc_completed_at = now, pc_session_id = None, pc_duration_ms = None\<rparr>"

definition plain_principal :: "principal_kind \<Rightarrow> principal" where
  "plain_principal k = \<lparr>pr_kind = k, pr_role_id = None\<rparr>"

definition adp_enqueue :: "ident \<Rightarrow> protocol_frame \<Rightarrow> timestamp \<Rightarrow> enqueue_input" where
  "adp_enqueue x f now =
    \<lparr>en_id = adp_outbox_id x, en_destination = driver_consumer, en_frame = f, en_held = Some False,
     en_activated_at = None, en_next_attempt_at = Some now\<rparr>"

section \<open>Receipts\<close>

record settle_env =
  se_receipt_id :: ident
  se_completed_at :: timestamp
  se_delivered_at :: timestamp

definition receipt_frame :: "live_invocation \<Rightarrow> settle_env \<Rightarrow> mapped_outcome \<Rightarrow> protocol_frame" where
  "receipt_frame lv env m =
    \<lparr>pf_protocol = AgentDriver, pf_exchange_id = se_receipt_id env, pf_causation_id = Some (lv_exchange_id lv),
     pf_task_id = lv_task_id lv, pf_run_id = lv_run_id lv, pf_producer = plain_principal KDriver,
     pf_consumer = plain_principal KAgent, pf_attempt = 1, pf_created_at = se_completed_at env,
     pf_deadline_at = pf_deadline_at (lv_frame lv),
     pf_body = Receipt (mo_status m) (mo_summary m) (mo_error m)\<rparr>"

definition complete_driver_side :: "adp_config \<Rightarrow> ident \<Rightarrow> timestamp \<Rightarrow> protocol_frame \<Rightarrow> unit script" where
  "complete_driver_side cfg x now receipt =
    bindS (ensure_inbox_lease cfg (driver_key x) now) (\<lambda>revision.
    bindS (txS (complete_inbox (plain_complete (driver_key x) (ac_owner cfg) revision now
        (Some (plain_enqueue (adp_outbox_id (pf_exchange_id receipt)) agent_consumer receipt))))) (\<lambda>_.
      returnS ()))"

definition deliver_to_agent :: "adp_config \<Rightarrow> timestamp \<Rightarrow> protocol_frame \<Rightarrow> unit script" where
  "deliver_to_agent cfg now receipt =
    (let k = agent_key (pf_exchange_id receipt) in
     bindS (txS (receive_inbox agent_consumer receipt now)) (\<lambda>(received, _).
     bindS (txS (claim_inbox k (ac_owner cfg) now (lease_until cfg now) (ib_revision received))) (\<lambda>claimed.
       case claimed of
         None \<Rightarrow> returnS ()
       | Some c \<Rightarrow>
           bindS (txS (complete_inbox (plain_complete k (ac_owner cfg) (ib_revision c) now None))) (\<lambda>_.
             returnS ()))))"

record attempts_outcome =
  ao_mapped :: mapped_outcome
  ao_execution :: "driver_run option"
  ao_thrown :: "thrown_error option"
  ao_attempts :: nat

definition settle_exchange ::
  "adp_config \<Rightarrow> settle_env \<Rightarrow> live_invocation \<Rightarrow> attempts_outcome \<Rightarrow> protocol_db \<Rightarrow>
   protocol_error_kind + settled_outcome \<times> live_invocation \<times> protocol_db" where
  "settle_exchange cfg env lv out db =
    bindR (parsed (receipt_frame lv env (ao_mapped out))) (\<lambda>receipt.
      let (_, lv1, db1) = bookkeep lv
            (complete_driver_side cfg (lv_exchange_id lv) (se_completed_at env) receipt) db;
          (_, lv2, db2) = bookkeep lv1 (deliver_to_agent cfg (se_delivered_at env) receipt) db1;
          settled = \<lparr>so_exchange_id = lv_exchange_id lv, so_status = mo_status (ao_mapped out), so_receipt = receipt,
                     so_attempts = ao_attempts out, so_replayed = False, so_evidence = is_facts (lv_state lv2),
                     so_degraded = lv_degraded lv2, so_execution = ao_execution out, so_thrown = ao_thrown out,
                     so_mapped = ao_mapped out\<rparr>
      in Inr (settled, lv2\<lparr>lv_state := settle_invocation (lv_state lv2), lv_settled := Some settled\<rparr>, db2))"

definition delivery_of :: "live_invocation \<Rightarrow> settled_outcome \<Rightarrow> receipt_delivery" where
  "delivery_of lv s = \<lparr>rd_exchange_id = lv_exchange_id lv, rd_causation_id = pf_causation_id (lv_frame lv), rd_outcome = s\<rparr>"

section \<open>Known exchanges\<close>

definition replay_from_receipt :: "ident \<Rightarrow> protocol_frame \<Rightarrow> settled_outcome" where
  \<comment> \<open>the frame of an inbox row of receipts is a receipt\<close>
  "replay_from_receipt x receipt =
    (case pf_body receipt of
       Receipt status summary err \<Rightarrow>
         \<lparr>so_exchange_id = x, so_status = status, so_receipt = receipt, so_attempts = 1, so_replayed = True,
          so_evidence = \<lparr>ev_dispatched = True,
            ev_effects_observed = (status \<noteq> RsSucceeded \<and> status \<noteq> RsCancelled),
            ev_result_received = True, ev_cancel_requested = False, ev_transport = None\<rparr>,
          so_degraded = False, so_execution = None, so_thrown = None,
          so_mapped = \<lparr>mo_status = status, mo_error = err, mo_summary = summary, mo_notes = [NoteReplayed]\<rparr>\<rparr>
     | _ \<Rightarrow> undefined)"

record lookup_env =
  le_received_at :: timestamp
  le_settle :: settle_env

definition recovered_live :: "ident \<Rightarrow> protocol_frame \<Rightarrow> bool \<Rightarrow> live_invocation" where
  "recovered_live x f dispatched =
    \<lparr>lv_exchange_id = x, lv_task_id = pf_task_id f, lv_run_id = pf_run_id f, lv_frame = f,
     lv_state = (if dispatched then mark_dispatched new_invocation
                 else note_transport_evidence NotExecuted new_invocation),
     lv_aborted = False, lv_degraded = False, lv_settled = None, lv_attempt = 1, lv_side_effect = ReadOnly\<rparr>"

definition recovered_outcome :: "bool \<Rightarrow> live_invocation \<Rightarrow> mapped_outcome" where
  "recovered_outcome dispatched lv =
    map_adp_outcome (is_facts (lv_state lv))
      (Threw \<lparr>tx_message = (if dispatched
                then ''exchange recovered after restart with no result; outcome unconfirmed''
                else ''exchange was never delivered to the driver; never executed''), tx_evidence = None\<rparr>)"

definition settle_recovered ::
  "adp_config \<Rightarrow> lookup_env \<Rightarrow> ident \<Rightarrow> protocol_frame \<Rightarrow> adp_state \<Rightarrow>
   (protocol_error_kind + settled_outcome) \<times> adp_state" where
  "settle_recovered cfg env x f st =
    (let dispatched = get_inbox (as_db st) (driver_key x) \<noteq> None;
         lv = recovered_live x f dispatched; now = le_received_at env;
         (_, lv1, db1) =
           (if dispatched then (None, lv, as_db st)
            else bookkeep lv
              (bindS (txS (receive_inbox driver_consumer f now)) (\<lambda>(received, _).
               bindS (txS (claim_inbox (driver_key x) (ac_owner cfg) now (lease_until cfg now)
                      (ib_revision received))) (\<lambda>_. returnS ()))) (as_db st))
     in case settle_exchange cfg (le_settle env) lv1
               \<lparr>ao_mapped = recovered_outcome dispatched lv, ao_execution = None, ao_thrown = None, ao_attempts = 1\<rparr> db1 of
          Inl e \<Rightarrow> (Inl e, st\<lparr>as_db := db1\<rparr>)
        | Inr (s, lv2, db2) \<Rightarrow>
            (Inr s, st\<lparr>as_db := db2, as_receipts := as_receipts st @ [delivery_of lv2 s]\<rparr>))"

definition as_settled ::
  "(protocol_error_kind + settled_outcome) \<times> adp_state \<Rightarrow>
   (protocol_error_kind + invoke_outcome option) \<times> adp_state" where
  "as_settled r = (case r of (Inl e, st) \<Rightarrow> (Inl e, st) | (Inr s, st) \<Rightarrow> (Inr (Some (Settled s)), st))"

definition lookup_existing ::
  "adp_config \<Rightarrow> lookup_env \<Rightarrow> ident \<Rightarrow> adp_state \<Rightarrow>
   (protocol_error_kind + invoke_outcome option) \<times> adp_state" where
  "lookup_existing cfg env x st =
    (case find_live st x of
       Some lv \<Rightarrow>
         (case lv_settled lv of
            Some s \<Rightarrow> (Inr (Some (Settled (s\<lparr>so_replayed := True\<rparr>))), st)
          | None \<Rightarrow> (Inr (Some (InFlight x)), st))
     | None \<Rightarrow>
         (case (get_inbox (as_db st) (driver_key x), get_outbox (as_db st) (adp_outbox_id x)) of
            (None, None) \<Rightarrow> (Inr None, st)
          | (None, Some ob) \<Rightarrow> as_settled (settle_recovered cfg env x (ob_frame ob) st)
          | (Some ib, outbox) \<Rightarrow>
              (let recover = (case outbox of
                     None \<Rightarrow> (Inr None, st)
                   | Some ob \<Rightarrow> as_settled (settle_recovered cfg env x (ob_frame ob) st))
               in if ib_status ib \<noteq> IbComplete
                  then as_settled (settle_recovered cfg env x (ib_frame ib) st)
                  else case non_empty (ib_reply_exchange_id ib) of
                         None \<Rightarrow> recover
                       | Some reply \<Rightarrow>
                           (case get_inbox (as_db st) (agent_key reply) of
                              None \<Rightarrow> recover
                            | Some agent_row \<Rightarrow>
                                (Inr (Some (Settled (replay_from_receipt x (ib_frame agent_row)))), st)))))"

section \<open>Invocation\<close>

record invoke_request =
  iq_task_id :: ident
  iq_run_id :: ident
  iq_workspace :: string
  iq_instruction :: string
  iq_exchange_id :: "ident option"
  iq_causation_id :: "ident option"
  iq_side_effect :: "side_effect option"
  iq_deadline_at :: "timestamp option"

record invoke_env =
  ie_fresh :: ident
  ie_created_at :: timestamp
  ie_received_at :: timestamp
  ie_lookup :: lookup_env

definition requested_exchange :: "invoke_request \<Rightarrow> invoke_env \<Rightarrow> ident" where
  "requested_exchange req env = or_default (iq_exchange_id req) (ie_fresh env)"

definition invoke_frame :: "adp_config \<Rightarrow> invoke_request \<Rightarrow> invoke_env \<Rightarrow> protocol_frame" where
  "invoke_frame cfg req env =
    \<lparr>pf_protocol = AgentDriver, pf_exchange_id = requested_exchange req env, pf_causation_id = iq_causation_id req,
     pf_task_id = iq_task_id req, pf_run_id = iq_run_id req, pf_producer = plain_principal KAgent,
     pf_consumer = plain_principal KDriver, pf_attempt = 1, pf_created_at = ie_created_at env,
     pf_deadline_at = or_default (iq_deadline_at req) (ie_created_at env + ac_deadline_ms cfg),
     pf_body = Invoke (iq_workspace req) (or_default (iq_side_effect req) (ac_side_effect cfg))
                 \<lparr>ins_text = iq_instruction req, ins_ref = None\<rparr>\<rparr>"

definition new_live :: "adp_config \<Rightarrow> invoke_request \<Rightarrow> protocol_frame \<Rightarrow> live_invocation" where
  "new_live cfg req f =
    \<lparr>lv_exchange_id = pf_exchange_id f, lv_task_id = iq_task_id req, lv_run_id = iq_run_id req, lv_frame = f,
     lv_state = new_invocation, lv_aborted = False, lv_degraded = False, lv_settled = None, lv_attempt = 1,
     lv_side_effect = or_default (iq_side_effect req) (ac_side_effect cfg)\<rparr>"

definition record_intent :: "adp_config \<Rightarrow> invoke_request \<Rightarrow> live_invocation \<Rightarrow> timestamp \<Rightarrow> unit script" where
  "record_intent cfg req lv now =
    txS (bindT (append_call (call_row lv (lv_exchange_id lv @ '':intent'') ''host.intent'' ''ok''
            (ac_intent_text cfg (short_line 120 (iq_instruction req))) now)) (\<lambda>_.
         bindT (enqueue_outbox (adp_enqueue (lv_exchange_id lv) (lv_frame lv) now)) (\<lambda>_. returnT ())))"

definition deliver_invoke :: "adp_config \<Rightarrow> live_invocation \<Rightarrow> timestamp \<Rightarrow> nat script" where
  "deliver_invoke cfg lv now =
    bindS (txS (receive_inbox driver_consumer (lv_frame lv) now)) (\<lambda>(received, _).
    bindS (mark_adp_sent cfg (lv_exchange_id lv) now) (\<lambda>_. returnS (ib_revision received)))"

definition launch ::
  "adp_config \<Rightarrow> invoke_request \<Rightarrow> invoke_env \<Rightarrow> protocol_frame \<Rightarrow> adp_state \<Rightarrow> invoke_outcome \<times> adp_state" where
  \<comment> \<open>record the intent, deliver the frame, claim it and start the driver\<close>
  "launch cfg req env f st =
    (let x = pf_exchange_id f; now = ie_received_at env;
         (_, lv1, db1) = bookkeep (new_live cfg req f) (record_intent cfg req (new_live cfg req f) (ie_created_at env)) (as_db st);
         (received, lv2, db2) = bookkeep lv1 (deliver_invoke cfg lv1 now) db1
     in case (lv_degraded lv2, received) of
          (False, Some revision) \<Rightarrow>
            (let (claimed, lv3, db3) = bookkeep lv2
                   (txS (claim_inbox (driver_key x) (ac_owner cfg) now (lease_until cfg now) revision)) db2;
                 st3 = put_live lv3 (st\<lparr>as_db := db3\<rparr>)
             in case claimed of Some (Some _) \<Rightarrow> (Executing x 1, st3) | _ \<Rightarrow> (InFlight x, st3))
        | _ \<Rightarrow> (Executing x 1, put_live lv2 (st\<lparr>as_db := db2\<rparr>)))"

definition adp_invoke ::
  "adp_config \<Rightarrow> invoke_request \<Rightarrow> invoke_env \<Rightarrow> adp_state \<Rightarrow>
   (protocol_error_kind + invoke_outcome) \<times> adp_state" where
  "adp_invoke cfg req env st =
    (case lookup_existing cfg (ie_lookup env) (requested_exchange req env) st of
       (Inl e, st') \<Rightarrow> (Inl e, st')
     | (Inr (Some existing), st') \<Rightarrow> (Inr existing, st')
     | (Inr None, st') \<Rightarrow>
         (case parsed (invoke_frame cfg req env) of
            Inl e \<Rightarrow> (Inl e, st')
          | Inr f \<Rightarrow> (case launch cfg req env f st' of (out, st'') \<Rightarrow> (Inr out, st''))))"

section \<open>Executions\<close>

definition is_effect_evidence :: "string \<Rightarrow> json option \<Rightarrow> bool" where
  \<comment> \<open>of a stream event: its type and its payload\<close>
  "is_effect_evidence event_type payload \<longleftrightarrow>
     js_includes event_type ''tool'' \<or>
     (case payload of Some (JObj kvs) \<Rightarrow> ''tool_name'' \<in> fst ` set kvs | _ \<Rightarrow> False)"

definition update_live :: "ident \<Rightarrow> (invocation_state \<Rightarrow> invocation_state) \<Rightarrow> adp_state \<Rightarrow> adp_state" where
  "update_live x f st = (case find_live st x of
     None \<Rightarrow> st | Some lv \<Rightarrow> put_live (lv\<lparr>lv_state := f (lv_state lv)\<rparr>) st)"

definition driver_dispatched :: "ident \<Rightarrow> adp_state \<Rightarrow> adp_state" where
  "driver_dispatched x st = update_live x mark_dispatched st"

definition driver_event :: "ident \<Rightarrow> string \<Rightarrow> json option \<Rightarrow> adp_state \<Rightarrow> adp_state" where
  "driver_event x event_type payload st =
    (if is_effect_evidence event_type payload then update_live x observe_effect st else st)"

definition after_attempt :: "attempt_outcome \<Rightarrow> invocation_state \<Rightarrow> invocation_state" where
  "after_attempt outcome s = (case outcome of
     Returned r \<Rightarrow>
       (let s' = mark_result_received s
        in if dx_tool_events r \<noteq> [] \<or> dx_artifacts r \<noteq> [] then observe_effect s' else s')
   | Threw e \<Rightarrow> (case tx_evidence e of None \<Rightarrow> s | Some v \<Rightarrow> note_transport_evidence v s))"

definition record_retry :: "adp_config \<Rightarrow> live_invocation \<Rightarrow> nat \<Rightarrow> timestamp \<Rightarrow> protocol_db \<Rightarrow> protocol_db" where
  \<comment> \<open>an exception is dropped\<close>
  "record_retry cfg lv n now db =
    snd (txS (append_call (call_row lv (lv_exchange_id lv @ '':attempt:'' @ decimal n) ''driver.invoke_attempt''
      ''retry'' (ac_retry_text cfg n) now)) db)"

definition attempt_done ::
  "adp_config \<Rightarrow> settle_env \<Rightarrow> ident \<Rightarrow> attempt_outcome \<Rightarrow> adp_state \<Rightarrow>
   (protocol_error_kind + invoke_outcome) option \<times> adp_state" where
  "attempt_done cfg env x outcome st =
    (case find_live st x of
       None \<Rightarrow> (None, st)
     | Some lv \<Rightarrow>
         (if lv_settled lv \<noteq> None then (None, st)
          else let lv1 = lv\<lparr>lv_state := after_attempt outcome (lv_state lv)\<rparr>;
                   mapped = map_adp_outcome (is_facts (lv_state lv1)) outcome; n = lv_attempt lv
               in if mo_status mapped = RsFailed \<and> n < 1 + ac_max_auto_retries cfg \<and>
                     should_auto_retry (ac_retry cfg) RsFailed (lv_side_effect lv)
                  then (Some (Inr (Executing x (n + 1))),
                        put_live (lv1\<lparr>lv_attempt := n + 1\<rparr>)
                          (st\<lparr>as_db := record_retry cfg lv1 (n + 1) (se_completed_at env) (as_db st)\<rparr>))
                  else (case settle_exchange cfg env lv1
                          \<lparr>ao_mapped = mapped,
                           ao_execution = (case outcome of Returned r \<Rightarrow> Some r | _ \<Rightarrow> None),
                           ao_thrown = (case outcome of Threw e \<Rightarrow> Some e | _ \<Rightarrow> None), ao_attempts = n\<rparr>
                          (as_db st) of
                      Inl e \<Rightarrow> (Some (Inl e), put_live lv1 st)
                    | Inr (s, lv2, db2) \<Rightarrow>
                        (Some (Inr (Settled s)),
                         put_live lv2 (st\<lparr>as_db := db2, as_receipts := as_receipts st @ [delivery_of lv2 s]\<rparr>)))))"

section \<open>Cancellation and late results\<close>

record cancel_request =
  cq_task_id :: ident
  cq_run_id :: ident
  cq_target :: ident
  cq_deadline_at :: "timestamp option"

datatype cancel_outcome =
    CancelDelivered ident
  | AlreadySettled settled_outcome
  | UnknownTarget ident

definition cancel_frame :: "adp_config \<Rightarrow> cancel_request \<Rightarrow> ident \<Rightarrow> timestamp \<Rightarrow> protocol_frame" where
  "cancel_frame cfg req fresh now =
    \<lparr>pf_protocol = AgentDriver, pf_exchange_id = fresh, pf_causation_id = Some (cq_target req),
     pf_task_id = cq_task_id req, pf_run_id = cq_run_id req, pf_producer = plain_principal KAgent,
     pf_consumer = plain_principal KDriver, pf_attempt = 1, pf_created_at = now,
     pf_deadline_at = or_default (cq_deadline_at req) (now + ac_deadline_ms cfg), pf_body = Cancel (cq_target req)\<rparr>"

definition record_cancel :: "adp_config \<Rightarrow> cancel_request \<Rightarrow> protocol_frame \<Rightarrow> timestamp \<Rightarrow> unit script" where
  "record_cancel cfg req f now =
    bindS (txS
      (bindT (append_call
         \<lparr>pc_task_id = cq_task_id req, pc_run_id = cq_run_id req, pc_call_id = pf_exchange_id f @ '':intent'',
          pc_role_id = None, pc_event = ''host.intent'', pc_status = ''ok'',
          pc_summary = ac_cancel_text cfg (cq_target req), pc_completed_at = now, pc_session_id = None,
          pc_duration_ms = None\<rparr>) (\<lambda>_.
       bindT (enqueue_outbox (adp_enqueue (pf_exchange_id f) f now)) (\<lambda>_.
       bindT (receive_inbox driver_consumer f now) (\<lambda>_. returnT ()))))) (\<lambda>_.
      mark_adp_sent cfg (pf_exchange_id f) now)"

definition adp_cancel ::
  "adp_config \<Rightarrow> cancel_request \<Rightarrow> ident \<Rightarrow> timestamp \<Rightarrow> lookup_env \<Rightarrow> adp_state \<Rightarrow>
   (protocol_error_kind + cancel_outcome) \<times> adp_state" where
  "adp_cancel cfg req fresh now env st =
    (case parsed (cancel_frame cfg req fresh now) of
       Inl e \<Rightarrow> (Inl e, st)
     | Inr f \<Rightarrow>
         (let st1 = st\<lparr>as_db := snd (record_cancel cfg req f now (as_db st))\<rparr>;
              target = cq_target req;
              settled_before = (case lookup_existing cfg env target st1 of
                  (Inl e, st2) \<Rightarrow> (Inl e, st2)
                | (Inr (Some (Settled s)), st2) \<Rightarrow> (Inr (AlreadySettled (s\<lparr>so_replayed := True\<rparr>)), st2)
                | (Inr (Some _), st2) \<Rightarrow> (Inr (CancelDelivered fresh), st2)
                | (Inr None, st2) \<Rightarrow> (Inr (UnknownTarget fresh), st2))
          in case find_live st1 target of
               None \<Rightarrow> settled_before
             | Some lv \<Rightarrow>
                 (if lv_settled lv \<noteq> None then settled_before
                  else (Inr (CancelDelivered fresh),
                        put_live (lv\<lparr>lv_state := mark_cancel_requested (lv_state lv), lv_aborted := True\<rparr>) st1))))"

definition driver_status_name :: "driver_status \<Rightarrow> string" where
  "driver_status_name s = (case s of DrSucceeded \<Rightarrow> ''succeeded'' | DrFailed \<Rightarrow> ''failed''
     | DrCancelled \<Rightarrow> ''cancelled'' | DrInterrupted \<Rightarrow> ''interrupted'')"

definition reconcile_late_result :: "adp_config \<Rightarrow> ident \<Rightarrow> timestamp \<Rightarrow> ident \<Rightarrow> driver_run \<Rightarrow> adp_state \<Rightarrow> adp_state"
  where
  "reconcile_late_result cfg fresh now x r st =
    (case find_live st x of
       None \<Rightarrow> st
     | Some lv \<Rightarrow>
         st\<lparr>as_db := snd (txS (append_call
           ((call_row lv (x @ '':late:'' @ fresh) ''driver.invocation_late_result''
              (driver_status_name (dx_status r))
              (ac_late_text cfg (dx_status r) (map_option so_status (lv_settled lv))) now)
            \<lparr>pc_duration_ms := Some (dx_duration_ms r)\<rparr>)) (as_db st))\<rparr>)"

definition restart :: "adp_state \<Rightarrow> adp_state" where
  \<comment> \<open>a new process: the tables stay, the invocations of the old process are gone\<close>
  "restart st = st\<lparr>as_live := []\<rparr>"

end
