(* ===== verification/AdpProperties.thy ===== *)
theory AdpProperties
  imports AdpEndpoint BridgeProperties
begin

text \<open>
  What the endpoint guarantees: its bookkeeping keeps the delivery tables consistent whatever fails,
  an exchange that was recorded is never started again, not even by another process, what a new
  process reports of an exchange, and where the reports are wrong.
\<close>

section \<open>What every script keeps\<close>

definition soundS :: "'a script \<Rightarrow> bool" where
  \<comment> \<open>whether it ends with an exception or not\<close>
  "soundS m \<longleftrightarrow> (\<forall>db r db'. m db = (r, db') \<longrightarrow> grows db db' \<and> (proto_inv db \<longrightarrow> proto_inv db'))"

named_theorems sound_scripts \<open>scripts that are sound\<close>

lemma soundS_tx [sound_scripts]: "soundT m \<Longrightarrow> soundS (txS m)"
  by (auto simp: soundS_def soundT_def txS_def split: sum.splits prod.splits)

lemma soundS_bind [sound_scripts]: "soundS m \<Longrightarrow> (\<And>x. soundS (f x)) \<Longrightarrow> soundS (bindS m f)"
  by (fastforce simp: soundS_def bindS_def split: sum.splits prod.splits intro: grows_trans)

lemma soundS_pure [sound_scripts]: "soundS (returnS x)" "soundS (failS e)"
  by (auto simp: soundS_def returnS_def failS_def)

lemma soundS_if [sound_scripts]: "soundS m \<Longrightarrow> soundS n \<Longrightarrow> soundS (if b then m else n)"
  by simp

lemma soundS_option [sound_scripts]:
  "soundS m \<Longrightarrow> (\<And>x. soundS (f x)) \<Longrightarrow> soundS (case v of None \<Rightarrow> m | Some x \<Rightarrow> f x)"
  by (cases v) simp_all

lemma soundS_prod [sound_scripts]: "(\<And>x y. soundS (f x y)) \<Longrightarrow> soundS (case p of (x, y) \<Rightarrow> f x y)"
  by (cases p) simp

lemma soundT_more [sound_rules]: "soundT (append_call c)" "soundT (renew_inbox_lease k w n now until)"
  by (auto simp: soundT_def intro: call_grows call_keeps renew_inbox_grows renew_inbox_keeps)

lemma soundS_endpoint [sound_scripts]:
  "soundS (mark_adp_sent cfg x now)" "soundS (ensure_inbox_lease cfg k now)"
  unfolding mark_adp_sent_def ensure_inbox_lease_def by (intro sound_scripts sound_rules)+

lemma soundS_steps [sound_scripts]:
  "soundS (complete_driver_side cfg x now f)" "soundS (deliver_to_agent cfg now f)"
  "soundS (record_intent cfg req lv now)" "soundS (deliver_invoke cfg lv now)" "soundS (record_cancel cfg cq f now)"
  unfolding complete_driver_side_def deliver_to_agent_def record_intent_def deliver_invoke_def record_cancel_def Let_def
  by (intro sound_scripts sound_rules)+

definition db_step :: "protocol_db \<Rightarrow> protocol_db \<Rightarrow> bool" where
  "db_step db db' \<longleftrightarrow> grows db db' \<and> (proto_inv db \<longrightarrow> proto_inv db')"

lemma db_step_refl [simp]: "db_step db db"
  by (simp add: db_step_def)

lemma db_step_trans: "db_step a b \<Longrightarrow> db_step b c \<Longrightarrow> db_step a c"
  by (auto simp: db_step_def intro: grows_trans)

lemma db_step_script: "soundS m \<Longrightarrow> m db = (r, db') \<Longrightarrow> db_step db db'"
  by (auto simp: soundS_def db_step_def)

lemma db_step_snd: "soundS m \<Longrightarrow> db_step db (snd (m db))"
  by (metis db_step_script prod.collapse)

lemma bookkeep_step: "bookkeep lv m db = (x, lv', db') \<Longrightarrow> soundS m \<Longrightarrow> db_step db db'"
  by (auto simp: bookkeep_def split: if_splits prod.splits sum.splits intro: db_step_script)

lemma bookkeep_live:
  "bookkeep lv m db = (x, lv', db') \<Longrightarrow> lv' = lv\<lparr>lv_degraded := lv_degraded lv'\<rparr> \<and> (lv_degraded lv \<longrightarrow> lv_degraded lv')"
  by (auto simp: bookkeep_def split: if_splits prod.splits sum.splits)

lemma bookkeep_kept:
  "bookkeep lv m db = (x, lv', db') \<Longrightarrow> \<not> lv_degraded lv' \<Longrightarrow> \<exists>y. m db = (Inr y, db') \<and> x = Some y \<and> lv' = lv"
  by (auto simp: bookkeep_def split: if_splits prod.splits sum.splits)

section \<open>Settling\<close>

definition receipt_of :: "ident \<Rightarrow> settled_outcome \<Rightarrow> bool" where
  \<comment> \<open>the receipt is a frame of the protocol, caused by the exchange, and says what was settled\<close>
  "receipt_of x s \<longleftrightarrow> so_exchange_id s = x \<and> frame_ok (so_receipt s) \<and> pf_protocol (so_receipt s) = AgentDriver \<and>
     pf_causation_id (so_receipt s) = Some x \<and>
     pf_body (so_receipt s) = Receipt (so_status s) (mo_summary (so_mapped s)) (mo_error (so_mapped s))"

lemma parsed_Inr: "parsed f = Inr g \<longleftrightarrow> g = f \<and> frame_ok f"
  by (auto simp: parsed_def)

lemma settle_exchange_Inr:
  assumes "settle_exchange cfg env lv out db = Inr (s, lv', db')"
  shows "db_step db db'" and "receipt_of (lv_exchange_id lv) s" and "so_replayed s = False"
    and "so_status s = mo_status (ao_mapped out)" and "so_attempts s = ao_attempts out"
    and "so_mapped s = ao_mapped out" and "lv_settled lv' = Some s" and "lv_exchange_id lv' = lv_exchange_id lv"
    and "lv_frame lv' = lv_frame lv" and "lv_attempt lv' = lv_attempt lv"
    and "pf_exchange_id (so_receipt s) = se_receipt_id env"
proof -
  obtain r where r: "parsed (receipt_frame lv env (ao_mapped out)) = Inr r"
    using assms by (cases "parsed (receipt_frame lv env (ao_mapped out))") (auto simp: settle_exchange_def)
  obtain x1 lv1 db1 where b1: "bookkeep lv (complete_driver_side cfg (lv_exchange_id lv) (se_completed_at env) r) db
      = (x1, lv1, db1)" by (metis prod_cases3)
  obtain x2 lv2 db2 where b2: "bookkeep lv1 (deliver_to_agent cfg (se_delivered_at env) r) db1 = (x2, lv2, db2)"
    by (metis prod_cases3)
  note res = assms[unfolded settle_exchange_def r bindR_simps b1 b2 Let_def prod.case]
  have l1: "lv1 = lv\<lparr>lv_degraded := lv_degraded lv1\<rparr>" using bookkeep_live[OF b1] by simp
  have l2: "lv2 = lv1\<lparr>lv_degraded := lv_degraded lv2\<rparr>" using bookkeep_live[OF b2] by simp
  have same: "lv_exchange_id lv2 = lv_exchange_id lv" "lv_frame lv2 = lv_frame lv" "lv_attempt lv2 = lv_attempt lv"
    by (metis l1 l2 live_invocation.select_convs live_invocation.surjective live_invocation.update_convs)+
  show "db_step db db'"
    using res db_step_trans[OF bookkeep_step[OF b1] bookkeep_step[OF b2]] by (auto intro: sound_scripts)
  show "receipt_of (lv_exchange_id lv) s"
    using res r by (auto simp: receipt_of_def parsed_Inr receipt_frame_def)
  show "so_replayed s = False" "so_status s = mo_status (ao_mapped out)" "so_attempts s = ao_attempts out"
    "so_mapped s = ao_mapped out" "lv_settled lv' = Some s" "lv_exchange_id lv' = lv_exchange_id lv"
    "lv_frame lv' = lv_frame lv" "lv_attempt lv' = lv_attempt lv" "pf_exchange_id (so_receipt s) = se_receipt_id env"
    using res same r by (auto simp: parsed_Inr receipt_frame_def)
qed

lemma settle_exchange_evidence:
  assumes "settle_exchange cfg env lv out db = Inr (s, lv', db')"
  shows "so_evidence s = is_facts (lv_state lv)"
proof -
  obtain r where r: "parsed (receipt_frame lv env (ao_mapped out)) = Inr r"
    using assms by (cases "parsed (receipt_frame lv env (ao_mapped out))") (auto simp: settle_exchange_def)
  obtain x1 lv1 db1 where b1: "bookkeep lv (complete_driver_side cfg (lv_exchange_id lv) (se_completed_at env) r) db
      = (x1, lv1, db1)" by (metis prod_cases3)
  obtain x2 lv2 db2 where b2: "bookkeep lv1 (deliver_to_agent cfg (se_delivered_at env) r) db1 = (x2, lv2, db2)"
    by (metis prod_cases3)
  have "lv1 = lv\<lparr>lv_degraded := lv_degraded lv1\<rparr>" "lv2 = lv1\<lparr>lv_degraded := lv_degraded lv2\<rparr>"
    using bookkeep_live[OF b1] bookkeep_live[OF b2] by blast+
  then have "lv_state lv2 = lv_state lv"
    by (metis live_invocation.select_convs live_invocation.surjective live_invocation.update_convs)
  then show ?thesis using assms by (auto simp: settle_exchange_def r b1 b2 Let_def)
qed

section \<open>Runs of the endpoint\<close>

datatype adp_op =
    OpInvoke invoke_request invoke_env
  | OpDispatched ident
  | OpEvent ident string "json option"
  | OpAttempt settle_env ident attempt_outcome
  | OpCancel cancel_request ident timestamp lookup_env
  | OpLate ident timestamp ident driver_run
  | OpRestart
  | OpStore proto_op \<comment> \<open>another component at work on the tables\<close>

definition started :: "protocol_error_kind + invoke_outcome \<Rightarrow> (ident \<times> nat) list" where
  "started r = (case r of Inr (Executing x n) \<Rightarrow> [(x, n)] | _ \<Rightarrow> [])"

fun adp_apply :: "adp_config \<Rightarrow> adp_op \<Rightarrow> adp_state \<Rightarrow> (ident \<times> nat) list \<times> adp_state" where
  \<comment> \<open>the executions of the driver that an operation starts, and the next state\<close>
  "adp_apply cfg (OpInvoke req env) st = (case adp_invoke cfg req env st of (r, st') \<Rightarrow> (started r, st'))"
| "adp_apply cfg (OpDispatched x) st = ([], driver_dispatched x st)"
| "adp_apply cfg (OpEvent x t p) st = ([], driver_event x t p st)"
| "adp_apply cfg (OpAttempt env x outcome) st =
     (case attempt_done cfg env x outcome st of
        (r, st') \<Rightarrow> ((case r of None \<Rightarrow> [] | Some s \<Rightarrow> started s), st'))"
| "adp_apply cfg (OpCancel req fresh now env) st = ([], snd (adp_cancel cfg req fresh now env st))"
| "adp_apply cfg (OpLate fresh now x r) st = ([], reconcile_late_result cfg fresh now x r st)"
| "adp_apply cfg OpRestart st = ([], restart st)"
| "adp_apply cfg (OpStore op) st = ([], st\<lparr>as_db := proto_run [op] (as_db st)\<rparr>)"

fun adp_run :: "adp_config \<Rightarrow> adp_op list \<Rightarrow> adp_state \<Rightarrow> (ident \<times> nat) list \<times> adp_state" where
  "adp_run cfg [] st = ([], st)"
| "adp_run cfg (op # ops) st =
     (case adp_apply cfg op st of (xs, st1) \<Rightarrow>
       (case adp_run cfg ops st1 of (ys, st2) \<Rightarrow> (xs @ ys, st2)))"

definition keeps_table_rows :: "adp_op \<Rightarrow> bool" where
  "keeps_table_rows op \<longleftrightarrow> (case op of OpStore p \<Rightarrow> keeps_rows p | _ \<Rightarrow> True)"

definition live_keys :: "adp_state \<Rightarrow> bool" where
  "live_keys st \<longleftrightarrow> (\<forall>x lv. find_live st x = Some lv \<longrightarrow> lv_exchange_id lv = x)"

definition receipts_ok :: "adp_state \<Rightarrow> bool" where
  "receipts_ok st \<longleftrightarrow>
     (\<forall>x lv s. find_live st x = Some lv \<longrightarrow> lv_settled lv = Some s \<longrightarrow> receipt_of x s) \<and>
     (\<forall>d \<in> set (as_receipts st). receipt_of (rd_exchange_id d) (rd_outcome d))"

definition endpoint_ok :: "adp_state \<Rightarrow> bool" where
  "endpoint_ok st \<longleftrightarrow> live_keys st \<and> receipts_ok st"

lemma find_put_live [simp]:
  "find_live (put_live lv st) x = (if x = lv_exchange_id lv then Some lv else find_live st x)"
  by (simp add: find_live_def put_live_def update_conv')

lemma put_live_simps [simp]:
  "as_db (put_live lv st) = as_db st" "as_receipts (put_live lv st) = as_receipts st"
  by (simp_all add: put_live_def)

lemma find_live_updates [simp]:
  "find_live (st\<lparr>as_db := db\<rparr>) x = find_live st x" "find_live (st\<lparr>as_receipts := rs\<rparr>) x = find_live st x"
  by (simp_all add: find_live_def)

definition same_process :: "adp_state \<Rightarrow> adp_state \<Rightarrow> bool" where
  \<comment> \<open>the tables moved on and the receipts that were handed over are right\<close>
  "same_process st st' \<longleftrightarrow> db_step (as_db st) (as_db st') \<and> as_live st' = as_live st \<and>
     (\<exists>ds. as_receipts st' = as_receipts st @ ds \<and> (\<forall>d \<in> set ds. receipt_of (rd_exchange_id d) (rd_outcome d)))"

lemma same_process_refl [simp]: "same_process st st"
  by (simp add: same_process_def)

lemma same_process_db: "db_step (as_db st) db' \<Longrightarrow> same_process st (st\<lparr>as_db := db'\<rparr>)"
  by (simp add: same_process_def)

lemma same_process_live: "same_process st st' \<Longrightarrow> find_live st' x = find_live st x"
  by (simp add: same_process_def find_live_def)

lemma same_process_ok: "same_process st st' \<Longrightarrow> endpoint_ok st \<Longrightarrow> endpoint_ok st'"
  by (auto simp: endpoint_ok_def live_keys_def receipts_ok_def same_process_live) (auto simp: same_process_def)

lemma same_process_trans: "same_process a b \<Longrightarrow> same_process b c \<Longrightarrow> same_process a c"
  unfolding same_process_def by (metis (no_types, lifting) Un_iff append.assoc db_step_trans set_append)

lemma delivery_of_ok: "receipt_of (lv_exchange_id lv) s \<Longrightarrow>
  receipt_of (rd_exchange_id (delivery_of lv s)) (rd_outcome (delivery_of lv s))"
  by (simp add: delivery_of_def)

lemma settle_recovered_process:
  assumes "settle_recovered cfg env x f st = (r, st')"
  shows "same_process st st'"
proof -
  let ?d = "get_inbox (as_db st) (driver_key x) \<noteq> None"
  let ?lv = "recovered_live x f ?d"
  let ?m = "bindS (txS (receive_inbox driver_consumer f (le_received_at env))) (\<lambda>(received, _).
               bindS (txS (claim_inbox (driver_key x) (ac_owner cfg) (le_received_at env)
                 (lease_until cfg (le_received_at env)) (ib_revision received))) (\<lambda>_. returnS ()))"
  obtain y lv1 db1 where b: "(if ?d then (None, ?lv, as_db st) else bookkeep ?lv ?m (as_db st)) = (y, lv1, db1)"
    by (metis prod_cases3)
  have sound: "soundS ?m" by (intro sound_scripts sound_rules)+
  have step: "db_step (as_db st) db1"
    using b bookkeep_step[OF _ sound] by (auto split: if_splits)
  note res = assms[unfolded settle_recovered_def Let_def b prod.case]
  show ?thesis
  proof (cases "settle_exchange cfg (le_settle env) lv1 \<lparr>ao_mapped = recovered_outcome ?d ?lv,
      ao_execution = None, ao_thrown = None, ao_attempts = 1\<rparr> db1")
    case (Inl e)
    then show ?thesis using res step by (auto simp: same_process_def)
  next
    case (Inr t)
    obtain s lv2 db2 where t: "t = (s, lv2, db2)" by (metis prod_cases3)
    note q = settle_exchange_Inr[OF Inr[unfolded t]]
    show ?thesis
      using res Inr t db_step_trans[OF step q(1)] delivery_of_ok[of lv2 s] q(2,8)
      by (auto simp: same_process_def)
  qed
qed

lemma as_settled_outcome: "as_settled p = (r, st') \<Longrightarrow> snd p = st' \<and> r \<noteq> Inr None \<and> (\<forall>y n. r \<noteq> Inr (Some (Executing y n)))"
  by (auto simp: as_settled_def split: prod.splits sum.splits)

lemma settled_process: "as_settled (settle_recovered cfg env x f st) = (r, st') \<Longrightarrow> same_process st st'"
  using settle_recovered_process as_settled_outcome by (metis prod.collapse)

definition recorded :: "ident \<Rightarrow> adp_state \<Rightarrow> bool" where
  "recorded x st \<longleftrightarrow> find_outbox (as_db st) (adp_outbox_id x) \<noteq> None"

lemma lookup_process:
  assumes "lookup_existing cfg env x st = (r, st')"
  shows "same_process st st'" and "r \<noteq> Inr (Some (Executing y n))"
    and "r = Inr None \<Longrightarrow> st' = st \<and> find_live st x = None \<and> \<not> recorded x st"
  using assms settled_process[of cfg env x _ st r st'] as_settled_outcome[of "settle_recovered cfg env x _ st" r st']
  by (auto simp: lookup_existing_def recorded_def get_outbox_def Let_def split: option.splits if_splits)

section \<open>Executions\<close>

lemma recorded_step: "db_step (as_db st) (as_db st') \<Longrightarrow> recorded x st \<Longrightarrow> recorded x st'"
  using grows_outboxD by (fastforce simp: recorded_def db_step_def)

lemma intent_recorded:
  assumes "record_intent cfg req lv now db = (Inr y, db')"
  shows "find_outbox db' (adp_outbox_id (lv_exchange_id lv)) \<noteq> None"
proof -
  obtain row db1 ob where "enqueue_outbox (adp_enqueue (lv_exchange_id lv) (lv_frame lv) now) db1 = Inr (ob, db')"
    using assms by (auto simp: record_intent_def txS_def bindT_Inr split: sum.splits)
  then show ?thesis
    by (auto simp: enqueue_outbox_def require_outbox_def get_outbox_def adp_enqueue_def bindR_eq_Inr_conv Let_def
        split: option.splits)
qed

definition fresh_live :: "adp_config \<Rightarrow> invoke_request \<Rightarrow> protocol_frame \<Rightarrow> live_invocation \<Rightarrow> bool" where
  "fresh_live cfg req f lv \<longleftrightarrow> lv = (new_live cfg req f)\<lparr>lv_degraded := lv_degraded lv\<rparr>"

lemma fresh_live_simps:
  "fresh_live cfg req f lv \<Longrightarrow> lv_exchange_id lv = pf_exchange_id f \<and> lv_settled lv = None \<and> lv_attempt lv = 1 \<and>
     lv_side_effect lv = or_default (iq_side_effect req) (ac_side_effect cfg)"
  unfolding fresh_live_def
  by (cases lv) (simp add: new_live_def)

lemma bookkeep_fresh:
  "bookkeep lv m db = (x, lv', db') \<Longrightarrow> fresh_live cfg req f lv \<Longrightarrow> fresh_live cfg req f lv'"
  using bookkeep_live[of lv m db x lv' db'] unfolding fresh_live_def
  by (metis live_invocation.cases live_invocation.select_convs(7) live_invocation.update_convs(7))

lemma launch_process:
  assumes "launch cfg req env f st = (out, st')"
  shows "\<exists>lv. fresh_live cfg req f lv \<and> st' = put_live lv (st\<lparr>as_db := as_db st'\<rparr>) \<and>
    db_step (as_db st) (as_db st') \<and> (out = Executing (pf_exchange_id f) 1 \<or> out = InFlight (pf_exchange_id f)) \<and>
    (\<not> lv_degraded lv \<longrightarrow> recorded (pf_exchange_id f) st')"
proof -
  let ?n = "new_live cfg req f"
  have n: "fresh_live cfg req f ?n" by (simp add: fresh_live_def new_live_def)
  obtain x1 lv1 db1 where b1: "bookkeep ?n (record_intent cfg req ?n (ie_created_at env)) (as_db st) = (x1, lv1, db1)"
    by (metis prod_cases3)
  obtain x2 lv2 db2 where b2: "bookkeep lv1 (deliver_invoke cfg lv1 (ie_received_at env)) db1 = (x2, lv2, db2)"
    by (metis prod_cases3)
  note f1 = bookkeep_fresh[OF b1 n] note f2 = bookkeep_fresh[OF b2 f1]
  have s1: "db_step (as_db st) db1" by (rule bookkeep_step[OF b1]) (rule sound_scripts)
  have s2: "db_step db1 db2" by (rule bookkeep_step[OF b2]) (rule sound_scripts)
  have deg: "lv_degraded lv1 \<Longrightarrow> lv_degraded lv2" using bookkeep_live[OF b2] by blast
  have rec: "find_outbox db1 (adp_outbox_id (pf_exchange_id f)) \<noteq> None" if "\<not> lv_degraded lv1"
    using bookkeep_kept[OF b1 that] intent_recorded fresh_live_simps[OF n] by metis
  note res = assms[unfolded launch_def Let_def b1 b2 prod.case]
  show ?thesis
  proof (cases "(lv_degraded lv2, x2)")
    case (Pair d x)
    show ?thesis
    proof (cases "d \<or> x = None")
      case True
      then have r: "(Executing (pf_exchange_id f) 1, put_live lv2 (st\<lparr>as_db := db2\<rparr>)) = (out, st')"
        using res Pair by (cases d; cases x) auto
      then have "as_db st' = db2" by auto
      then show ?thesis
        using r f2 db_step_trans[OF s1 s2] recorded_step[of "st\<lparr>as_db := db1\<rparr>" st' "pf_exchange_id f"] s2 rec deg
        by (auto simp: recorded_def intro!: exI[of _ lv2])
    next
      case False
      then obtain revision where x: "\<not> d" "x = Some revision" by auto
      let ?m = "txS (claim_inbox (driver_key (pf_exchange_id f)) (ac_owner cfg) (ie_received_at env)
          (lease_until cfg (ie_received_at env)) revision)"
      obtain x3 lv3 db3 where b3: "bookkeep lv2 ?m db2 = (x3, lv3, db3)" by (metis prod_cases3)
      have s3: "db_step db2 db3" by (rule bookkeep_step[OF b3]) (intro sound_scripts sound_rules)
      have r: "st' = put_live lv3 (st\<lparr>as_db := db3\<rparr>)"
        "out = Executing (pf_exchange_id f) 1 \<or> out = InFlight (pf_exchange_id f)"
        using res Pair x b3 by (auto split: option.splits)
      then have "as_db st' = db3" by simp
      then show ?thesis
        using r bookkeep_fresh[OF b3 f2] db_step_trans[OF db_step_trans[OF s1 s2] s3] rec deg x Pair
          recorded_step[of "st\<lparr>as_db := db1\<rparr>" st' "pf_exchange_id f"] db_step_trans[OF s2 s3]
        by (auto simp: recorded_def intro!: exI[of _ lv3])
    qed
  qed
qed

definition remaining :: "adp_config \<Rightarrow> ident \<Rightarrow> adp_state \<Rightarrow> nat" where
  \<comment> \<open>the executions that this process may still start for an exchange\<close>
  "remaining cfg x st = (case find_live st x of
     None \<Rightarrow> 0
   | Some lv \<Rightarrow> if lv_settled lv = None \<and> ac_retry cfg (lv_side_effect lv)
       then 1 + ac_max_auto_retries cfg - lv_attempt lv else 0)"

definition good_move :: "adp_config \<Rightarrow> adp_state \<Rightarrow> (ident \<times> nat) list \<Rightarrow> adp_state \<Rightarrow> bool" where
  "good_move cfg st xs st' \<longleftrightarrow> db_step (as_db st) (as_db st') \<and> (endpoint_ok st \<longrightarrow> endpoint_ok st') \<and>
     (\<forall>x. endpoint_ok st \<longrightarrow> recorded x st \<longrightarrow>
        length (filter (\<lambda>e. fst e = x) xs) + remaining cfg x st' \<le> remaining cfg x st)"

lemma process_move: "same_process st st' \<Longrightarrow> good_move cfg st [] st'"
  using same_process_ok by (auto simp: good_move_def remaining_def same_process_live) (simp add: same_process_def)

lemma ok_put_live:
  "endpoint_ok st \<Longrightarrow> (\<And>s. lv_settled lv = Some s \<Longrightarrow> receipt_of (lv_exchange_id lv) s) \<Longrightarrow> endpoint_ok (put_live lv st)"
  by (auto simp: endpoint_ok_def live_keys_def receipts_ok_def)

lemma ok_live: "endpoint_ok st \<Longrightarrow> find_live st x = Some lv \<Longrightarrow> lv_exchange_id lv = x"
  "endpoint_ok st \<Longrightarrow> find_live st x = Some lv \<Longrightarrow> lv_settled lv = Some s \<Longrightarrow> receipt_of x s"
  by (auto simp: endpoint_ok_def live_keys_def receipts_ok_def)

lemma invoke_move:
  assumes "adp_invoke cfg req env st = (r, st')"
  shows "good_move cfg st (started r) st'"
proof -
  obtain q st1 where l: "lookup_existing cfg (ie_lookup env) (requested_exchange req env) st = (q, st1)"
    by (metis prod.collapse)
  note p = lookup_process[OF l]
  show ?thesis
  proof (cases "q = Inr None")
    case False
    then have "started r = []" "st' = st1"
      using assms l p(2) by (auto simp: adp_invoke_def started_def split: sum.splits option.splits invoke_outcome.splits)
    then show ?thesis using process_move[OF p(1)] by simp
  next
    case True
    with p(3) have st1: "st1 = st" "\<not> recorded (requested_exchange req env) st" by blast+
    show ?thesis
    proof (cases "parsed (invoke_frame cfg req env)")
      case (Inl e)
      then have "r = Inl e" "st' = st" using assms l True st1 by (auto simp: adp_invoke_def)
      then show ?thesis using process_move[OF same_process_refl, of cfg st] by (simp add: started_def)
    next
      case (Inr f)
      then have f: "pf_exchange_id f = requested_exchange req env" by (simp add: parsed_Inr invoke_frame_def)
      obtain out where r: "launch cfg req env f st = (out, st')" "r = Inr out"
        using assms l True st1 Inr by (auto simp: adp_invoke_def split: prod.splits)
      from launch_process[OF r(1)] obtain lv where lv: "fresh_live cfg req f lv"
        "st' = put_live lv (st\<lparr>as_db := as_db st'\<rparr>)" "db_step (as_db st) (as_db st')"
        "out = Executing (pf_exchange_id f) 1 \<or> out = InFlight (pf_exchange_id f)" by blast
      note v = fresh_live_simps[OF lv(1)]
      have "endpoint_ok st'" if "endpoint_ok st"
        by (subst lv(2), rule ok_put_live) (use that v in \<open>auto simp: endpoint_ok_def live_keys_def receipts_ok_def\<close>)
      moreover have "find_live st' x = find_live st x" if "x \<noteq> pf_exchange_id f" for x
        by (subst lv(2)) (use that v in simp)
      then have "remaining cfg x st' = remaining cfg x st \<and> x \<noteq> requested_exchange req env" if "recorded x st" for x
        using that st1(2) f by (cases "x = requested_exchange req env") (auto simp: remaining_def)
      ultimately show ?thesis
        using lv(3,4) f r(2) st1(2) by (auto simp: good_move_def started_def)
    qed
  qed
qed

lemma update_move: "good_move cfg st [] (update_live x g st)"
proof (cases "find_live st x")
  case (Some lv)
  have "endpoint_ok (update_live x g st)" if "endpoint_ok st"
    unfolding update_live_def Some option.case
    by (rule ok_put_live) (use that Some ok_live in auto)
  moreover have "remaining cfg y (update_live x g st) = remaining cfg y st" if "endpoint_ok st" for y
    using Some ok_live(1)[OF that Some] by (auto simp: update_live_def remaining_def)
  ultimately show ?thesis using Some by (simp add: good_move_def update_live_def)
qed (simp add: update_live_def good_move_def)

lemma attempt_move:
  assumes "attempt_done cfg env x outcome st = (r, st')"
  shows "good_move cfg st (case r of None \<Rightarrow> [] | Some q \<Rightarrow> started q) st'"
proof (cases "find_live st x")
  case None
  then show ?thesis using assms process_move[OF same_process_refl, of cfg st] by (auto simp: attempt_done_def)
next
  case (Some lv)
  show ?thesis
  proof (cases "lv_settled lv")
    case (Some s)
    then show ?thesis
      using assms \<open>find_live st x = Some lv\<close> process_move[OF same_process_refl, of cfg st]
      by (auto simp: attempt_done_def)
  next
    case None
    let ?lv = "lv\<lparr>lv_state := after_attempt outcome (lv_state lv)\<rparr>"
    let ?m = "map_adp_outcome (is_facts (lv_state ?lv)) outcome"
    let ?retry = "mo_status ?m = RsFailed \<and> lv_attempt lv < 1 + ac_max_auto_retries cfg \<and>
        should_auto_retry (ac_retry cfg) RsFailed (lv_side_effect lv)"
    note unfolded = assms[unfolded attempt_done_def Some option.case Let_def]
    show ?thesis
    proof (cases ?retry)
      case True
      let ?n = "Suc (lv_attempt lv)"
      have step: "db_step (as_db st) (record_retry cfg ?lv ?n (se_completed_at env) (as_db st))"
        unfolding record_retry_def by (rule db_step_snd) (intro sound_scripts sound_rules)
      have r: "r = Some (Inr (Executing x ?n))" "st' = put_live (?lv\<lparr>lv_attempt := ?n\<rparr>)
          (st\<lparr>as_db := record_retry cfg ?lv ?n (se_completed_at env) (as_db st)\<rparr>)"
        using unfolded True None by auto
      have "endpoint_ok st'" if "endpoint_ok st"
        unfolding r(2) by (rule ok_put_live)
          (use that None in \<open>auto simp: endpoint_ok_def live_keys_def receipts_ok_def\<close>)
      moreover have "length (filter (\<lambda>e. fst e = y) [(x, ?n)]) + remaining cfg y st' \<le> remaining cfg y st"
        if "endpoint_ok st" for y
        using r(2) ok_live(1)[OF that Some] Some None True
        by (auto simp: remaining_def should_auto_retry_def)
      ultimately show ?thesis using step r by (simp add: good_move_def started_def)
    next
      case False
      let ?out = "\<lparr>ao_mapped = ?m, ao_execution = (case outcome of Returned r \<Rightarrow> Some r | _ \<Rightarrow> None),
          ao_thrown = (case outcome of Threw e \<Rightarrow> Some e | _ \<Rightarrow> None), ao_attempts = lv_attempt lv\<rparr>"
      show ?thesis
      proof (cases "settle_exchange cfg env ?lv ?out (as_db st)")
        case (Inl e)
        then have r: "r = Some (Inl e)" "st' = put_live ?lv st" using unfolded False None by auto
        have "endpoint_ok st'" if "endpoint_ok st"
          unfolding r(2) by (rule ok_put_live) (use that None in auto)
        moreover have "remaining cfg y st' = remaining cfg y st" if "endpoint_ok st" for y
          using r(2) ok_live(1)[OF that Some] Some by (auto simp: remaining_def)
        ultimately show ?thesis using r by (simp add: good_move_def started_def)
      next
        case (Inr t)
        obtain s lv2 db2 where t: "t = (s, lv2, db2)" by (metis prod_cases3)
        note q = settle_exchange_Inr[OF Inr[unfolded t]]
        have r: "r = Some (Inr (Settled s))"
          "st' = put_live lv2 (st\<lparr>as_db := db2, as_receipts := as_receipts st @ [delivery_of lv2 s]\<rparr>)"
          using unfolded False None Inr t by auto
        have "endpoint_ok st'" if "endpoint_ok st"
          unfolding r(2) by (rule ok_put_live)
            (use that q(2,7,8) delivery_of_ok[of lv2 s] in
              \<open>auto simp: endpoint_ok_def live_keys_def receipts_ok_def\<close>)
        moreover have "remaining cfg y st' \<le> remaining cfg y st" if "endpoint_ok st" for y
          using r(2) q(7,8) ok_live(1)[OF that Some] by (auto simp: remaining_def)
        ultimately show ?thesis using r q(1) by (auto simp: good_move_def started_def)
      qed
    qed
  qed
qed

lemma move_trans:
  "good_move cfg a xs b \<Longrightarrow> good_move cfg b ys c \<Longrightarrow> good_move cfg a (xs @ ys) c"
  unfolding good_move_def using recorded_step[of a b] by (fastforce intro: db_step_trans)

lemma cancel_move: "good_move cfg st [] (snd (adp_cancel cfg req fresh now env st))"
proof (cases "parsed (cancel_frame cfg req fresh now)")
  case (Inl e)
  then show ?thesis using process_move[OF same_process_refl, of cfg st] by (simp add: adp_cancel_def)
next
  case (Inr f)
  let ?st1 = "st\<lparr>as_db := snd (record_cancel cfg req f now (as_db st))\<rparr>"
  have m1: "good_move cfg st [] ?st1"
    by (rule process_move, rule same_process_db, rule db_step_snd) (rule sound_scripts)
  obtain q st2 where l: "lookup_existing cfg env (cq_target req) ?st1 = (q, st2)" by (metis prod.collapse)
  have m2: "good_move cfg ?st1 [] st2" by (rule process_move, rule lookup_process(1)[OF l])
  show ?thesis
  proof (cases "\<exists>lv. find_live ?st1 (cq_target req) = Some lv \<and> lv_settled lv = None")
    case False
    then have "snd (adp_cancel cfg req fresh now env st) = st2"
      using Inr l by (auto simp: adp_cancel_def Let_def split: option.splits sum.splits invoke_outcome.splits)
    then show ?thesis using move_trans[OF m1 m2] by simp
  next
    case True
    then obtain lv where lv: "find_live st (cq_target req) = Some lv" "lv_settled lv = None" by auto
    let ?lv = "lv\<lparr>lv_state := mark_cancel_requested (lv_state lv), lv_aborted := True\<rparr>"
    have st': "snd (adp_cancel cfg req fresh now env st) = put_live ?lv ?st1"
      using Inr lv by (simp add: adp_cancel_def Let_def)
    have "endpoint_ok (put_live ?lv ?st1)" if "endpoint_ok ?st1"
      by (rule ok_put_live[OF that]) (use lv in auto)
    moreover have "remaining cfg y (put_live ?lv ?st1) = remaining cfg y ?st1" if "endpoint_ok ?st1" for y
      using lv ok_live(1)[OF that, of "cq_target req" lv] by (auto simp: remaining_def)
    ultimately have "good_move cfg ?st1 [] (put_live ?lv ?st1)" by (simp add: good_move_def)
    then show ?thesis unfolding st' using move_trans[OF m1] by fastforce
  qed
qed

lemma restart_move: "good_move cfg st [] (restart st)"
  by (auto simp: good_move_def restart_def endpoint_ok_def live_keys_def receipts_ok_def find_live_def remaining_def)

lemma late_move: "good_move cfg st [] (reconcile_late_result cfg fresh now x r st)"
proof (cases "find_live st x")
  case (Some lv)
  show ?thesis
    unfolding reconcile_late_result_def Some option.case
    by (rule process_move, rule same_process_db, rule db_step_snd) (intro sound_scripts sound_rules)
qed (use process_move[OF same_process_refl] in \<open>simp add: reconcile_late_result_def\<close>)

lemma store_move:
  assumes "keeps_rows op"
  shows "good_move cfg st [] (st\<lparr>as_db := proto_run [op] (as_db st)\<rparr>)"
proof (rule process_move, rule same_process_db)
  show "db_step (as_db st) (proto_run [op] (as_db st))"
    using run_grows[of "[op]" "as_db st"] proto_inv_run[of "as_db st" "[op]"] assms by (simp add: db_step_def)
qed

lemma apply_move:
  assumes "adp_apply cfg op st = (xs, st')" and "keeps_table_rows op"
  shows "good_move cfg st xs st'"
  using assms
proof (cases op)
  case (OpInvoke req env)
  then show ?thesis using assms(1) invoke_move by (auto split: prod.splits)
next
  case (OpAttempt env x outcome)
  then show ?thesis using assms(1) attempt_move by (auto split: prod.splits)
next
  case (OpEvent x t p)
  then show ?thesis
    using assms(1) update_move process_move[OF same_process_refl] by (auto simp: driver_event_def)
qed (auto simp: driver_dispatched_def keeps_table_rows_def intro: update_move cancel_move late_move restart_move store_move
    simp del: proto_run_simps)

lemma run_move: "adp_run cfg ops st = (xs, st') \<Longrightarrow> list_all keeps_table_rows ops \<Longrightarrow> good_move cfg st xs st'"
proof (induction ops arbitrary: st xs)
  case Nil
  then show ?case using process_move[OF same_process_refl] by simp
next
  case (Cons op ops)
  then show ?case using apply_move move_trans by (fastforce split: prod.splits)
qed

section \<open>A new process\<close>

definition frame_status :: "protocol_frame \<Rightarrow> receipt_status" where
  "frame_status f = (case pf_body f of Receipt s _ _ \<Rightarrow> s | _ \<Rightarrow> RsUnknown)"

definition reported_status :: "protocol_db \<Rightarrow> ident \<Rightarrow> receipt_status" where
  \<comment> \<open>what the tables say of an exchange that no invocation of the process knows\<close>
  "reported_status db x = (case find_inbox db (driver_key x) of
     None \<Rightarrow> RsFailed
   | Some r \<Rightarrow>
       (if ib_status r \<noteq> IbComplete then RsUnknown
        else case non_empty (ib_reply_exchange_id r) of
               None \<Rightarrow> RsUnknown
             | Some reply \<Rightarrow>
                 (case find_inbox db (agent_key reply) of None \<Rightarrow> RsUnknown | Some a \<Rightarrow> frame_status (ib_frame a))))"

definition agent_rows_are_receipts :: "protocol_db \<Rightarrow> bool" where
  "agent_rows_are_receipts db \<longleftrightarrow>
     (\<forall>x r. find_inbox db (agent_key x) = Some r \<longrightarrow> is_receipt (ib_frame r))"

lemma recovered_outcome_eq:
  "mo_status (recovered_outcome d (recovered_live x f d)) = (if d then RsUnknown else RsFailed)"
  "mapped_ok (recovered_outcome d (recovered_live x f d))"
  by (auto simp: recovered_outcome_def recovered_live_def mapping_defs mark_dispatched_def new_invocation_def
      note_transport_evidence_def not_executed_evidence_def mapped_ok_iff or_text_def)

lemma receipt_frame_ok:
  "mapped_ok m \<Longrightarrow> se_receipt_id env \<noteq> [] \<Longrightarrow> lv_exchange_id lv \<noteq> [] \<Longrightarrow> lv_task_id lv \<noteq> [] \<Longrightarrow>
   lv_run_id lv \<noteq> [] \<Longrightarrow> frame_ok (receipt_frame lv env m)"
  by (auto simp: frame_ok_def receipt_frame_def plain_principal_def optional_text_ok_def max_safe_integer_def
      mapped_ok_def body_ok_def)

lemma settle_exchange_ok:
  assumes "mapped_ok (ao_mapped out)" "se_receipt_id env \<noteq> []" "lv_exchange_id lv \<noteq> []" "lv_task_id lv \<noteq> []"
    "lv_run_id lv \<noteq> []"
  shows "\<exists>s lv' db'. settle_exchange cfg env lv out db = Inr (s, lv', db')"
  using receipt_frame_ok[OF assms]
  by (auto simp: settle_exchange_def parsed_def Let_def split: prod.splits)

lemma settle_recovered_ok:
  assumes "se_receipt_id (le_settle env) \<noteq> []" and "x \<noteq> []" and "pf_task_id f \<noteq> [] \<and> pf_run_id f \<noteq> []"
  shows "\<exists>s st'. settle_recovered cfg env x f st = (Inr s, st') \<and> receipt_of x s \<and> \<not> so_replayed s \<and>
    so_status s = (if find_inbox (as_db st) (driver_key x) = None then RsFailed else RsUnknown) \<and>
    pf_exchange_id (so_receipt s) = se_receipt_id (le_settle env)"
proof -
  let ?d = "get_inbox (as_db st) (driver_key x) \<noteq> None"
  let ?lv = "recovered_live x f ?d"
  let ?m = "bindS (txS (receive_inbox driver_consumer f (le_received_at env))) (\<lambda>(received, _).
               bindS (txS (claim_inbox (driver_key x) (ac_owner cfg) (le_received_at env)
                 (lease_until cfg (le_received_at env)) (ib_revision received))) (\<lambda>_. returnS ()))"
  obtain y lv1 db1 where b: "(if ?d then (None, ?lv, as_db st) else bookkeep ?lv ?m (as_db st)) = (y, lv1, db1)"
    by (metis prod_cases3)
  have l1: "lv1 = ?lv\<lparr>lv_degraded := lv_degraded lv1\<rparr>"
    using b bookkeep_live[of ?lv ?m "as_db st" y lv1 db1] by (auto simp: recovered_live_def split: if_splits)
  have ids: "lv_exchange_id lv1 = x" "lv_task_id lv1 = pf_task_id f" "lv_run_id lv1 = pf_run_id f"
    by (subst l1, simp add: recovered_live_def)+
  let ?out = "\<lparr>ao_mapped = recovered_outcome ?d ?lv, ao_execution = None, ao_thrown = None, ao_attempts = 1\<rparr>"
  obtain s lv2 db2 where s: "settle_exchange cfg (le_settle env) lv1 ?out db1 = Inr (s, lv2, db2)"
    using settle_exchange_ok[of ?out "le_settle env" lv1 cfg db1] assms ids recovered_outcome_eq(2)
    by auto
  note q = settle_exchange_Inr[OF s]
  have "\<exists>st'. settle_recovered cfg env x f st = (Inr s, st')"
    unfolding settle_recovered_def Let_def b prod.case s sum.case by blast
  then show ?thesis
    using q(2,3,4,11) ids(1) recovered_outcome_eq(1)[of ?d x f] by (auto simp: get_inbox_def)
qed

lemma read_outbox_ids:
  assumes "proto_inv db" and "get_outbox db i = Some ob"
  shows "pf_task_id (ob_frame ob) \<noteq> [] \<and> pf_run_id (ob_frame ob) \<noteq> []"
proof -
  obtain r where "find_outbox db i = Some r" "ob = read_outbox r" using assms(2) by (auto simp: get_outbox_def)
  then show ?thesis using find_outbox_ok[OF assms(1), of i r] by (simp add: outbox_ok_def frame_ok_def)
qed

text \<open>
  C17. An exchange that was recorded, perhaps by a process that has died, is settled at once when it
  is invoked again: the driver is not started, and the status is the one of the receipt the agent
  took, \<open>failed\<close> when the driver never got the invocation, and \<open>unknown\<close> otherwise. The last
  case includes an exchange whose receipt is already in the tables but was not yet taken by the agent.
\<close>

theorem recorded_exchange_is_settled:
  assumes "proto_inv (as_db st)" and "agent_rows_are_receipts (as_db st)"
    and "find_live st (requested_exchange req env) = None" and "recorded (requested_exchange req env) st"
    and "requested_exchange req env \<noteq> []" and "se_receipt_id (le_settle (ie_lookup env)) \<noteq> []"
  shows "\<exists>s st'. adp_invoke cfg req env st = (Inr (Settled s), st') \<and>
    so_exchange_id s = requested_exchange req env \<and>
    so_status s = reported_status (as_db st) (requested_exchange req env)"
proof -
  let ?x = "requested_exchange req env"
  obtain ob where ob: "get_outbox (as_db st) (adp_outbox_id ?x) = Some ob"
    using assms(4) by (auto simp: recorded_def get_outbox_def)
  note fo = read_outbox_ids[OF assms(1) ob]
  have goal: "\<exists>s st'. lookup_existing cfg (ie_lookup env) ?x st = (Inr (Some (Settled s)), st') \<and>
      so_exchange_id s = ?x \<and> so_status s = reported_status (as_db st) ?x"
  proof (cases "find_inbox (as_db st) (driver_key ?x)")
    case None
    then show ?thesis
      using settle_recovered_ok[OF assms(6,5) fo, of cfg st] assms(3) ob
      by (auto simp: lookup_existing_def get_inbox_def reported_status_def as_settled_def receipt_of_def)
  next
    case (Some r)
    have fr: "pf_task_id (ib_frame r) \<noteq> [] \<and> pf_run_id (ib_frame r) \<noteq> []"
      using find_inbox_ok[OF assms(1) Some] by (simp add: inbox_ok_def frame_ok_def)
    note rec = settle_recovered_ok[OF assms(6,5), of _ cfg st]
    show ?thesis
    proof (cases "ib_status r = IbComplete")
      case False
      then show ?thesis
        using rec[OF fr] assms(3) Some
        by (auto simp: lookup_existing_def get_inbox_def reported_status_def as_settled_def receipt_of_def Let_def
            split: option.split)
    next
      case True
      show ?thesis
      proof (cases "\<exists>reply a. non_empty (ib_reply_exchange_id r) = Some reply \<and> find_inbox (as_db st) (agent_key reply) = Some a")
        case True
        then obtain reply a where ra: "non_empty (ib_reply_exchange_id r) = Some reply"
          "find_inbox (as_db st) (agent_key reply) = Some a" by blast
        have "is_receipt (ib_frame a)" using assms(2) ra(2) by (auto simp: agent_rows_are_receipts_def)
        then show ?thesis
          using ra Some assms(3) \<open>ib_status r = IbComplete\<close>
          by (auto simp: lookup_existing_def get_inbox_def reported_status_def Let_def is_receipt_def frame_status_def
              replay_from_receipt_def split: frame_body.splits option.split)
      next
        case False
        then show ?thesis
          using rec[OF fo] assms(3) Some ob \<open>ib_status r = IbComplete\<close>
          by (auto simp: lookup_existing_def get_inbox_def reported_status_def as_settled_def receipt_of_def Let_def
              split: option.split)
      qed
    qed
  qed
  then show ?thesis by (fastforce simp: adp_invoke_def)
qed

text \<open>
  C16. Once an exchange has been invoked and recorded, its driver is started again at most as often as
  the retries of the configuration allow, and not at all for a side effect without automatic retries,
  whatever happens later: repeated invocations, cancellations, late results, failing bookkeeping,
  other components at work on the tables, and restarts.
\<close>

theorem exchange_starts_are_bounded:
  assumes "endpoint_ok st" and "adp_invoke cfg req env st = (Inr (Executing x n), st1)"
    and "find_live st1 x = Some lv" and "\<not> lv_degraded lv" and "list_all keeps_table_rows ops"
  shows "length (filter (\<lambda>e. fst e = x) (fst (adp_run cfg ops st1))) \<le>
    (if ac_retry cfg (or_default (iq_side_effect req) (ac_side_effect cfg)) then ac_max_auto_retries cfg else 0)"
proof -
  obtain q st0 where l: "lookup_existing cfg (ie_lookup env) (requested_exchange req env) st = (q, st0)"
    by (metis prod.collapse)
  have q: "q = Inr None"
    using assms(2) l lookup_process(2)[OF l]
    by (auto simp: adp_invoke_def split: sum.splits option.splits)
  then have "st0 = st" using lookup_process(3)[OF l] by blast
  then obtain f where f: "launch cfg req env f st = (Executing x n, st1)"
    using assms(2) l q by (auto simp: adp_invoke_def split: sum.splits prod.splits)
  from launch_process[OF f] obtain lv' where lv': "fresh_live cfg req f lv'" "st1 = put_live lv' (st\<lparr>as_db := as_db st1\<rparr>)"
    "\<not> lv_degraded lv' \<longrightarrow> recorded (pf_exchange_id f) st1" "x = pf_exchange_id f" by auto
  note v = fresh_live_simps[OF lv'(1)]
  have "find_live st1 x = Some lv'" using v lv'(4) by (subst lv'(2)) simp
  then have lv: "lv' = lv" using assms(3) by simp
  have ok: "endpoint_ok st1"
    using invoke_move[OF assms(2)] assms(1) by (simp add: good_move_def)
  have rec: "recorded x st1" using lv lv'(3,4) assms(4) by simp
  obtain xs st2 where run: "adp_run cfg ops st1 = (xs, st2)" by (metis prod.collapse)
  have "length (filter (\<lambda>e. fst e = x) xs) + remaining cfg x st2 \<le> remaining cfg x st1"
    using run_move[OF run assms(5)] ok rec by (simp add: good_move_def)
  moreover have "remaining cfg x st1 =
      (if ac_retry cfg (or_default (iq_side_effect req) (ac_side_effect cfg)) then ac_max_auto_retries cfg else 0)"
    using assms(3) v lv by (simp add: remaining_def)
  ultimately show ?thesis using run by simp
qed

text \<open>
  C18. Whatever the endpoint does, from no invocation and consistent tables on, the tables stay
  consistent and every outcome it settled carries a receipt that is a frame of the protocol, caused by
  its exchange, with the status, summary and error of the outcome.
\<close>

theorem receipts_are_frames:
  assumes "list_all keeps_table_rows ops" and "proto_inv db"
    and "adp_run cfg ops \<lparr>as_db = db, as_live = [], as_receipts = []\<rparr> = (xs, st)"
  shows "proto_inv (as_db st) \<and> (\<forall>d \<in> set (as_receipts st). receipt_of (rd_exchange_id d) (rd_outcome d)) \<and>
    (\<forall>x lv s. find_live st x = Some lv \<longrightarrow> lv_settled lv = Some s \<longrightarrow> receipt_of x s)"
proof -
  have "endpoint_ok \<lparr>as_db = db, as_live = [], as_receipts = []\<rparr>"
    by (simp add: endpoint_ok_def live_keys_def receipts_ok_def find_live_def)
  then show ?thesis
    using run_move[OF assms(3,1)] assms(2)
    by (auto simp: good_move_def db_step_def endpoint_ok_def receipts_ok_def)
qed

section \<open>Evidence that outlives its attempt\<close>

lemma put_live_same: "lv_exchange_id a = lv_exchange_id b \<Longrightarrow> find_live (put_live b (put_live a st)) y = find_live (put_live b st) y"
  by simp

lemma start_failed_outcome:
  "\<not> ev_cancel_requested e \<Longrightarrow> ev_transport e = Some NotExecuted \<Longrightarrow> mo_status (map_adp_outcome e (Threw t)) = RsFailed"
  by (simp add: mapping_defs not_executed_evidence_def)

text \<open>
  C19. Evidence that the driver was not executed outlives the attempt it is about: when the first
  attempt fails to start and is retried, and the second one is dispatched, is seen to use a tool and
  then loses its connection, the exchange is settled as \<open>failed\<close>, which says that it was not
  executed, although nothing is known of its effects.
\<close>

theorem start_evidence_sticks:
  assumes "find_live st x = Some lv" and "lv_exchange_id lv = x" and "lv_settled lv = None" and "lv_attempt lv = 1"
    and "\<not> ev_cancel_requested (is_facts (lv_state lv))"
    and "ac_retry cfg (lv_side_effect lv)" and "ac_max_auto_retries cfg = 1"
    and "x \<noteq> []" "lv_task_id lv \<noteq> []" "lv_run_id lv \<noteq> []" "se_receipt_id env2 \<noteq> []"
    and "attempt_done cfg env1 x (Threw \<lparr>tx_message = m1, tx_evidence = Some NotExecuted\<rparr>) st = (r1, st1)"
    and "attempt_done cfg env2 x (Threw \<lparr>tx_message = m2, tx_evidence = Some ExecutionUnconfirmed\<rparr>)
           (driver_event x ''tool_call'' payload (driver_dispatched x st1)) = (r2, st2)"
  shows "r1 = Some (Inr (Executing x 2)) \<and>
    (\<exists>s. r2 = Some (Inr (Settled s)) \<and> so_status s = RsFailed \<and> ev_dispatched (so_evidence s) \<and>
       ev_effects_observed (so_evidence s))"
proof -
  let ?t1 = "\<lparr>tx_message = m1, tx_evidence = Some NotExecuted\<rparr>"
  let ?t2 = "\<lparr>tx_message = m2, tx_evidence = Some ExecutionUnconfirmed\<rparr>"
  let ?s1 = "note_transport_evidence NotExecuted (lv_state lv)"
  let ?lv1 = "lv\<lparr>lv_state := ?s1, lv_attempt := 2\<rparr>"
  have s1: "ev_transport (is_facts ?s1) = Some NotExecuted" "\<not> ev_cancel_requested (is_facts ?s1)"
    using assms(5) by (auto simp: note_transport_evidence_def)
  have "r1 = Some (Inr (Executing x 2)) \<and> find_live st1 x = Some ?lv1"
    using assms(1-4,6,7,12) start_failed_outcome[OF s1(2,1), of ?t1]
    by (auto simp: attempt_done_def after_attempt_def should_auto_retry_def Let_def numeral_2_eq_2)
  then have r1: "r1 = Some (Inr (Executing x 2))" and l1: "find_live st1 x = Some ?lv1" by blast+
  let ?s2 = "observe_effect (mark_dispatched ?s1)"
  let ?lv2 = "?lv1\<lparr>lv_state := ?s2\<rparr>"
  let ?st2 = "driver_event x ''tool_call'' payload (driver_dispatched x st1)"
  have "js_includes ''tool_call'' ''tool''" by (simp add: js_includes_def starts_with_def)
  then have l2: "find_live ?st2 x = Some ?lv2"
    using l1 assms(2) by (simp add: driver_event_def is_effect_evidence_def driver_dispatched_def update_live_def)
  have s2: "ev_transport (is_facts ?s2) = Some NotExecuted" "\<not> ev_cancel_requested (is_facts ?s2)"
    "ev_dispatched (is_facts ?s2)" "ev_effects_observed (is_facts ?s2)"
    using s1 by (simp_all add: observe_effect_def mark_dispatched_def)
  have same: "after_attempt (Threw ?t2) ?s2 = ?s2"
    using s2(1) by (simp add: after_attempt_def note_transport_evidence_def)
  let ?out = "\<lparr>ao_mapped = map_adp_outcome (is_facts ?s2) (Threw ?t2), ao_execution = None, ao_thrown = Some ?t2, ao_attempts = 2\<rparr>"
  have mapped: "mo_status (ao_mapped ?out) = RsFailed" using start_failed_outcome[OF s2(2,1)] by simp
  have "mapped_ok (ao_mapped ?out)" using map_adp_outcome_ok by (simp add: error_code_ok_def)
  moreover have "lv_exchange_id ?lv2 \<noteq> []" "lv_task_id ?lv2 \<noteq> []" "lv_run_id ?lv2 \<noteq> []"
    using assms(2,8-10) by simp_all
  ultimately obtain s lv3 db3 where s: "settle_exchange cfg env2 ?lv2 ?out (as_db ?st2) = Inr (s, lv3, db3)"
    using settle_exchange_ok[of ?out env2 ?lv2 cfg "as_db ?st2"] assms(11) by blast
  have ev: "so_evidence s = is_facts ?s2"
    using settle_exchange_evidence[OF s] by simp
  have "attempt_done cfg env2 x (Threw ?t2) ?st2 = (Some (Inr (Settled s)),
      put_live lv3 (?st2\<lparr>as_db := db3, as_receipts := as_receipts ?st2 @ [delivery_of lv3 s]\<rparr>))"
    using l2 assms(3,7) same s by (simp add: attempt_done_def Let_def)
  then have "r2 = Some (Inr (Settled s))" using assms(13) by simp
  then show ?thesis using r1 ev s2 settle_exchange_Inr(4)[OF s] mapped by simp
qed

section \<open>Recovery under the lease of the dead process\<close>

definition held_by_another :: "adp_config \<Rightarrow> ident \<Rightarrow> timestamp \<Rightarrow> protocol_db \<Rightarrow> bool" where
  "held_by_another cfg x now db \<longleftrightarrow> (\<exists>r. find_inbox db (driver_key x) = Some r \<and> ib_status r = IbProcessing \<and>
     ib_lease_owner r \<noteq> Some (ac_owner cfg) \<and> lease_holds (ib_lease_expires_at r) now)"

lemma renew_other_refused:
  "find_inbox db k = Some r \<Longrightarrow> ib_lease_owner r \<noteq> Some w \<Longrightarrow> \<exists>e. renew_inbox_lease k w n now until db = Inl e"
  by (auto simp: renew_inbox_lease_def assert_lease_def update_inbox_def bindR_ensure split: option.splits)

lemma complete_other_refused:
  assumes "held_by_another cfg x now db"
  shows "\<exists>e. complete_driver_side cfg x now f db = (Inl e, db)"
proof -
  obtain r where r: "find_inbox db (driver_key x) = Some r" "ib_lease_owner r \<noteq> Some (ac_owner cfg)"
    "lease_holds (ib_lease_expires_at r) now"
    using assms by (auto simp: held_by_another_def)
  obtain e where "renew_inbox_lease (driver_key x) (ac_owner cfg) (ib_revision r) now (lease_until cfg now) db = Inl e"
    using renew_other_refused[OF r(1,2)] by blast
  then show ?thesis
    using r by (simp add: complete_driver_side_def ensure_inbox_lease_def bindS_def txS_def readT_def get_inbox_def)
qed

lemma settle_under_other_lease:
  assumes "held_by_another cfg (lv_exchange_id lv) (se_completed_at env) db"
    and "settle_exchange cfg env lv out db = Inr (s, lv', db')"
  shows "db' = db \<and> so_degraded s"
proof -
  obtain r where r: "parsed (receipt_frame lv env (ao_mapped out)) = Inr r"
    using assms(2) by (cases "parsed (receipt_frame lv env (ao_mapped out))") (auto simp: settle_exchange_def)
  obtain e where "complete_driver_side cfg (lv_exchange_id lv) (se_completed_at env) r db = (Inl e, db)"
    using complete_other_refused[OF assms(1)] by blast
  then show ?thesis
    using assms(2) by (auto simp: settle_exchange_def r bookkeep_def Let_def split: if_splits)
qed

lemma invoke_under_other_lease:
  assumes "proto_inv (as_db st)" and "find_live st x = None" and "x \<noteq> []" and "requested_exchange req env = x"
    and "held_by_another cfg x (se_completed_at (le_settle (ie_lookup env))) (as_db st)"
    and "se_receipt_id (le_settle (ie_lookup env)) \<noteq> []"
  shows "\<exists>s d. adp_invoke cfg req env st = (Inr (Settled s), st\<lparr>as_receipts := as_receipts st @ [d]\<rparr>) \<and>
    so_status s = RsUnknown \<and> so_degraded s \<and> rd_outcome d = s \<and> rd_exchange_id d = x \<and>
    pf_exchange_id (so_receipt s) = se_receipt_id (le_settle (ie_lookup env))"
proof -
  obtain r where r: "find_inbox (as_db st) (driver_key x) = Some r" "ib_status r = IbProcessing"
    using assms(5) by (auto simp: held_by_another_def)
  have ids: "pf_task_id (ib_frame r) \<noteq> []" "pf_run_id (ib_frame r) \<noteq> []"
    using find_inbox_ok[OF assms(1) r(1)] by (simp_all add: inbox_ok_def frame_ok_def)
  let ?lv = "recovered_live x (ib_frame r) True"
  let ?out = "\<lparr>ao_mapped = recovered_outcome True ?lv, ao_execution = None, ao_thrown = None, ao_attempts = 1\<rparr>"
  have lv: "lv_exchange_id ?lv = x" "lv_task_id ?lv \<noteq> []" "lv_run_id ?lv \<noteq> []"
    using ids by (simp_all add: recovered_live_def)
  then obtain s lv2 db2 where s: "settle_exchange cfg (le_settle (ie_lookup env)) ?lv ?out (as_db st) = Inr (s, lv2, db2)"
    using settle_exchange_ok[of ?out "le_settle (ie_lookup env)" ?lv cfg "as_db st"] assms(3,6) recovered_outcome_eq(2)
    by auto
  have u: "db2 = as_db st" "so_degraded s"
    using settle_under_other_lease[OF _ s] assms(5) lv(1) by auto
  note q = settle_exchange_Inr[OF s]
  have "settle_recovered cfg (ie_lookup env) x (ib_frame r) st =
      (Inr s, st\<lparr>as_receipts := as_receipts st @ [delivery_of lv2 s]\<rparr>)"
    using r(1) s u(1) by (simp add: settle_recovered_def get_inbox_def Let_def)
  then have "adp_invoke cfg req env st = (Inr (Settled s), st\<lparr>as_receipts := as_receipts st @ [delivery_of lv2 s]\<rparr>)"
    using assms(2,4) r by (simp add: adp_invoke_def lookup_existing_def get_inbox_def as_settled_def Let_def split: option.split)
  then show ?thesis
    using u q(4,8,11) lv(1) recovered_outcome_eq(1)[of True x "ib_frame r"] by (auto simp: delivery_of_def)
qed

text \<open>
  C20. While the lease of a dead process on an exchange lasts, a new process settles it again at every
  invocation: nothing is written to the tables, and each invocation hands the agent another receipt
  with the status \<open>unknown\<close>.
\<close>

theorem recovery_repeats_receipts:
  assumes "proto_inv (as_db st)" and "find_live st x = None" and "x \<noteq> []" and "iq_exchange_id req = Some x"
    and "held_by_another cfg x (se_completed_at (le_settle (ie_lookup env1))) (as_db st)"
    and "held_by_another cfg x (se_completed_at (le_settle (ie_lookup env2))) (as_db st)"
    and "se_receipt_id (le_settle (ie_lookup env1)) \<noteq> []" and "se_receipt_id (le_settle (ie_lookup env2)) \<noteq> []"
  shows "\<exists>s1 s2 st1 st2 d1 d2. adp_invoke cfg req env1 st = (Inr (Settled s1), st1) \<and>
    adp_invoke cfg req env2 st1 = (Inr (Settled s2), st2) \<and> as_db st2 = as_db st \<and>
    as_receipts st2 = as_receipts st @ [d1, d2] \<and> rd_outcome d1 = s1 \<and> rd_outcome d2 = s2 \<and>
    so_status s1 = RsUnknown \<and> so_status s2 = RsUnknown \<and>
    pf_exchange_id (so_receipt s1) = se_receipt_id (le_settle (ie_lookup env1)) \<and>
    pf_exchange_id (so_receipt s2) = se_receipt_id (le_settle (ie_lookup env2))"
proof -
  have x: "requested_exchange req env1 = x" "requested_exchange req env2 = x"
    using assms(4) by (simp_all add: requested_exchange_def)
  obtain s1 d1 where 1: "adp_invoke cfg req env1 st = (Inr (Settled s1), st\<lparr>as_receipts := as_receipts st @ [d1]\<rparr>)"
    "so_status s1 = RsUnknown" "rd_outcome d1 = s1" "pf_exchange_id (so_receipt s1) = se_receipt_id (le_settle (ie_lookup env1))"
    using invoke_under_other_lease[OF assms(1-3) x(1) assms(5,7)] by blast
  let ?st1 = "st\<lparr>as_receipts := as_receipts st @ [d1]\<rparr>"
  have "proto_inv (as_db ?st1)" "find_live ?st1 x = None"
    "held_by_another cfg x (se_completed_at (le_settle (ie_lookup env2))) (as_db ?st1)"
    using assms(1,2,6) by simp_all
  from invoke_under_other_lease[OF this(1,2) assms(3) x(2) this(3) assms(8)]
  obtain s2 d2 where "adp_invoke cfg req env2 ?st1 = (Inr (Settled s2), ?st1\<lparr>as_receipts := as_receipts ?st1 @ [d2]\<rparr>)"
    "so_status s2 = RsUnknown" "rd_outcome d2 = s2" "pf_exchange_id (so_receipt s2) = se_receipt_id (le_settle (ie_lookup env2))"
    by blast
  with 1 show ?thesis by fastforce
qed

section \<open>Example\<close>

definition sample_adp :: "ident \<Rightarrow> adp_config" where
  "sample_adp owner = \<lparr>ac_side_effect = ReadOnly, ac_retry = (\<lambda>_. True), ac_max_auto_retries = 1,
     ac_deadline_ms = 100, ac_lease_ms = 60, ac_owner = owner, ac_intent_text = (\<lambda>_. ''intent''),
     ac_cancel_text = (\<lambda>_. ''cancel''), ac_retry_text = (\<lambda>_. ''retry''), ac_late_text = (\<lambda>_ _. ''late'')\<rparr>"

definition sample_invoke :: invoke_request where
  "sample_invoke = \<lparr>iq_task_id = ''t'', iq_run_id = ''r'', iq_workspace = ''w'', iq_instruction = ''i'',
     iq_exchange_id = Some ''e'', iq_causation_id = None, iq_side_effect = None, iq_deadline_at = None\<rparr>"

definition sample_settle :: "ident \<Rightarrow> settle_env" where
  "sample_settle i = \<lparr>se_receipt_id = i, se_completed_at = 30, se_delivered_at = 31\<rparr>"

definition sample_invoke_env :: "ident \<Rightarrow> invoke_env" where
  "sample_invoke_env i = \<lparr>ie_fresh = ''f'', ie_created_at = 10, ie_received_at = 11,
     ie_lookup = \<lparr>le_received_at = 29, le_settle = sample_settle i\<rparr>\<rparr>"

definition sample_idle :: adp_state where
  "sample_idle = \<lparr>as_db = sample_task_db, as_live = [], as_receipts = []\<rparr>"

definition sample_invoke_frame :: protocol_frame where
  "sample_invoke_frame = invoke_frame (sample_adp ''w'') sample_invoke (sample_invoke_env ''q'')"

lemma sample_invoke_frame_ok: "parsed sample_invoke_frame = Inr sample_invoke_frame"
  by (simp add: parsed_def frame_ok_def sample_invoke_frame_def invoke_frame_def sample_invoke_def sample_invoke_env_def
      sample_adp_def plain_principal_def optional_text_ok_def max_safe_integer_def body_ok_def requested_exchange_def)

lemma sample_invoke_fields:
  "pf_task_id sample_invoke_frame = ''t''" "pf_run_id sample_invoke_frame = ''r''" "pf_attempt sample_invoke_frame = 1"
  "pf_created_at sample_invoke_frame = 10" "pf_protocol sample_invoke_frame = AgentDriver"
  "pf_exchange_id sample_invoke_frame = ''e''" "\<not> is_receipt sample_invoke_frame" "frame_ok sample_invoke_frame"
  using sample_invoke_frame_ok
  by (simp_all add: sample_invoke_frame_def invoke_frame_def sample_invoke_def sample_invoke_env_def
      requested_exchange_def is_receipt_def parsed_def split: if_splits)

lemma sample_launch:
  "\<exists>st1 lv. launch (sample_adp ''w'') sample_invoke (sample_invoke_env ''q'') sample_invoke_frame sample_idle
      = (Executing ''e'' 1, st1) \<and> find_live st1 ''e'' = Some lv \<and> \<not> lv_degraded lv \<and>
    map (\<lambda>r. (ib_key r, ib_status r, ib_lease_owner r, ib_lease_expires_at r)) (pd_inbox (as_db st1)) =
      [(driver_key ''e'', IbProcessing, Some ''w'', Some 71)]"
  using sample_task_found
  by (auto simp: launch_def new_live_def bookkeep_def record_intent_def deliver_invoke_def txS_def bindS_def returnS_def
      bindT_def returnT_def append_call_def call_row_def adp_enqueue_def adp_outbox_id_def driver_consumer_def driver_key_def
      inbox_key_of_def get_inbox_def find_inbox_def receive_inbox_def claim_inbox_def update_inbox_def require_inbox_def
      mark_adp_sent_def mark_outbox_sent_def update_claimed_outbox_def outbox_held_by_def lease_holds_def lease_until_def
      complete_original_def sample_idle_def sample_task_db_def sample_adp_def sample_invoke_def sample_invoke_env_def
      sample_invoke_fields find_live_def put_live_def outbox_run_defs)

lemma sample_invoked:
  obtains st1 lv where
    "adp_invoke (sample_adp ''w'') sample_invoke (sample_invoke_env ''q'') sample_idle = (Inr (Executing ''e'' 1), st1)"
    "find_live st1 ''e'' = Some lv" "\<not> lv_degraded lv" "fresh_live (sample_adp ''w'') sample_invoke sample_invoke_frame lv"
    "proto_inv (as_db st1)" "endpoint_ok sample_idle" "recorded ''e'' st1" "agent_rows_are_receipts (as_db st1)"
    "held_by_another (sample_adp ''v'') ''e'' 30 (as_db st1)"
proof -
  obtain st1 lv where l: "launch (sample_adp ''w'') sample_invoke (sample_invoke_env ''q'') sample_invoke_frame sample_idle
      = (Executing ''e'' 1, st1)" "find_live st1 ''e'' = Some lv" "\<not> lv_degraded lv"
    and rows: "map (\<lambda>r. (ib_key r, ib_status r, ib_lease_owner r, ib_lease_expires_at r)) (pd_inbox (as_db st1)) =
      [(driver_key ''e'', IbProcessing, Some ''w'', Some 71)]"
    using sample_launch by (elim exE conjE) (rule that)
  have x: "requested_exchange sample_invoke (sample_invoke_env ''q'') = ''e''"
    by (simp add: requested_exchange_def sample_invoke_def)
  have "lookup_existing (sample_adp ''w'') (ie_lookup (sample_invoke_env ''q'')) ''e'' sample_idle = (Inr None, sample_idle)"
    by (simp add: lookup_existing_def sample_idle_def find_live_def get_inbox_def find_inbox_def get_outbox_def find_outbox_def
        sample_task_db_def empty_protocol_db_def)
  then have inv: "adp_invoke (sample_adp ''w'') sample_invoke (sample_invoke_env ''q'') sample_idle = (Inr (Executing ''e'' 1), st1)"
    using l(1) sample_invoke_frame_ok by (simp add: adp_invoke_def x sample_invoke_frame_def)
  have ok: "endpoint_ok sample_idle"
    by (simp add: endpoint_ok_def live_keys_def receipts_ok_def find_live_def sample_idle_def)
  have db: "proto_inv (as_db st1)"
    using invoke_move[OF inv] sample_task_db_inv by (simp add: good_move_def db_step_def sample_idle_def)
  from launch_process[OF l(1)] obtain lv' where lv': "fresh_live (sample_adp ''w'') sample_invoke sample_invoke_frame lv'"
    "st1 = put_live lv' (sample_idle\<lparr>as_db := as_db st1\<rparr>)"
    "\<not> lv_degraded lv' \<longrightarrow> recorded (pf_exchange_id sample_invoke_frame) st1" by blast
  have "find_live st1 ''e'' = Some lv'" using fresh_live_simps[OF lv'(1)] by (subst lv'(2)) (simp add: sample_invoke_fields)
  then have "lv' = lv" using l(2) by simp
  then have rec: "recorded ''e'' st1" using lv'(3) l(3) by (simp add: sample_invoke_fields)
  have agent: "agent_rows_are_receipts (as_db st1)"
    using rows by (auto simp: agent_rows_are_receipts_def find_inbox_def agent_key_def driver_key_def agent_consumer_def
        driver_consumer_def find_Some_iff)
  have "held_by_another (sample_adp ''v'') ''e'' 30 (as_db st1)"
    using rows by (auto simp: held_by_another_def find_inbox_def sample_adp_def lease_holds_def)
  with inv l(2,3) lv'(1) \<open>lv' = lv\<close> db ok rec agent show thesis using that by blast
qed

theorem exchange_starts_are_bounded_witness:
  "\<exists>st1. adp_invoke (sample_adp ''w'') sample_invoke (sample_invoke_env ''q'') sample_idle = (Inr (Executing ''e'' 1), st1) \<and>
    length (filter (\<lambda>e. fst e = ''e'') (fst (adp_run (sample_adp ''w'')
      [OpDispatched ''e'', OpRestart, OpInvoke sample_invoke (sample_invoke_env ''p'')] st1))) \<le> 1"
proof -
  obtain st1 lv where s: "adp_invoke (sample_adp ''w'') sample_invoke (sample_invoke_env ''q'') sample_idle
      = (Inr (Executing ''e'' 1), st1)" "find_live st1 ''e'' = Some lv" "\<not> lv_degraded lv" "endpoint_ok sample_idle"
    by (rule sample_invoked) blast
  have "list_all keeps_table_rows [OpDispatched ''e'', OpRestart, OpInvoke sample_invoke (sample_invoke_env ''p'')]"
    by (simp add: keeps_table_rows_def)
  from exchange_starts_are_bounded[OF s(4,1,2,3) this] s(1) show ?thesis
    by (auto simp: sample_adp_def)
qed

theorem receipts_are_frames_witness:
  "proto_inv (as_db (snd (adp_run (sample_adp ''w'') [OpInvoke sample_invoke (sample_invoke_env ''q'')]
     \<lparr>as_db = sample_task_db, as_live = [], as_receipts = []\<rparr>)))"
proof -
  have "list_all keeps_table_rows [OpInvoke sample_invoke (sample_invoke_env ''q'')]"
    by (simp add: keeps_table_rows_def)
  from receipts_are_frames[OF this sample_task_db_inv prod.collapse[symmetric]] show ?thesis by blast
qed

theorem recorded_exchange_is_settled_witness:
  "\<exists>st1 s st2. recorded ''e'' st1 \<and>
    adp_invoke (sample_adp ''v'') sample_invoke (sample_invoke_env ''p'') (restart st1) = (Inr (Settled s), st2) \<and>
    so_status s = reported_status (as_db (restart st1)) ''e''"
proof -
  obtain st1 where s: "proto_inv (as_db st1)" "recorded ''e'' st1" "agent_rows_are_receipts (as_db st1)"
    by (rule sample_invoked) blast
  have x: "requested_exchange sample_invoke (sample_invoke_env ''p'') = ''e''"
    by (simp add: requested_exchange_def sample_invoke_def)
  have "find_live (restart st1) ''e'' = None" "as_db (restart st1) = as_db st1" "recorded ''e'' (restart st1)"
    using s(2) by (simp_all add: restart_def find_live_def recorded_def)
  moreover have "se_receipt_id (le_settle (ie_lookup (sample_invoke_env ''p''))) \<noteq> []"
    by (simp add: sample_invoke_env_def sample_settle_def)
  ultimately show ?thesis
    using recorded_exchange_is_settled[of "restart st1" sample_invoke "sample_invoke_env ''p''" "sample_adp ''v''"] s x
    by fastforce
qed

theorem start_evidence_sticks_witness:
  "\<exists>st r1 st1 r2 st2 s. attempt_done (sample_adp ''w'') (sample_settle ''q'') ''e''
       (Threw \<lparr>tx_message = ''spawn'', tx_evidence = Some NotExecuted\<rparr>) st = (r1, st1) \<and>
     attempt_done (sample_adp ''w'') (sample_settle ''q'') ''e''
       (Threw \<lparr>tx_message = ''lost'', tx_evidence = Some ExecutionUnconfirmed\<rparr>)
       (driver_event ''e'' ''tool_call'' None (driver_dispatched ''e'' st1)) = (r2, st2) \<and>
     r1 = Some (Inr (Executing ''e'' 2)) \<and> r2 = Some (Inr (Settled s)) \<and> so_status s = RsFailed"
proof -
  obtain st lv where s: "find_live st ''e'' = Some lv"
    "fresh_live (sample_adp ''w'') sample_invoke sample_invoke_frame lv" by (rule sample_invoked) blast
  obtain d where d: "lv = (new_live (sample_adp ''w'') sample_invoke sample_invoke_frame)\<lparr>lv_degraded := d\<rparr>"
    using s(2) unfolding fresh_live_def by blast
  have v: "lv_exchange_id lv = ''e''" "lv_settled lv = None" "lv_attempt lv = 1" "lv_task_id lv \<noteq> []" "lv_run_id lv \<noteq> []"
    "\<not> ev_cancel_requested (is_facts (lv_state lv))"
    by (simp_all add: d new_live_def new_invocation_def sample_invoke_def sample_invoke_fields)
  obtain r1 st1 r2 st2 where 1: "attempt_done (sample_adp ''w'') (sample_settle ''q'') ''e''
       (Threw \<lparr>tx_message = ''spawn'', tx_evidence = Some NotExecuted\<rparr>) st = (r1, st1)"
    and 2: "attempt_done (sample_adp ''w'') (sample_settle ''q'') ''e''
       (Threw \<lparr>tx_message = ''lost'', tx_evidence = Some ExecutionUnconfirmed\<rparr>)
       (driver_event ''e'' ''tool_call'' None (driver_dispatched ''e'' st1)) = (r2, st2)"
    by (metis prod.collapse)
  have "ac_retry (sample_adp ''w'') (lv_side_effect lv)" "ac_max_auto_retries (sample_adp ''w'') = 1"
    "se_receipt_id (sample_settle ''q'') \<noteq> []"
    by (simp_all add: sample_adp_def sample_settle_def)
  from start_evidence_sticks[OF s(1) v(1-3,6) this(1,2) _ v(4,5) this(3) 1 2] 1 2 show ?thesis by blast
qed

theorem recovery_repeats_receipts_witness:
  "\<exists>st1 s1 s2 st2 st3. adp_invoke (sample_adp ''v'') sample_invoke (sample_invoke_env ''p'') (restart st1) = (Inr (Settled s1), st2) \<and>
    adp_invoke (sample_adp ''v'') sample_invoke (sample_invoke_env ''o'') st2 = (Inr (Settled s2), st3) \<and>
    pf_exchange_id (so_receipt s1) = ''p'' \<and> pf_exchange_id (so_receipt s2) = ''o''"
proof -
  obtain st1 :: adp_state where s: "proto_inv (as_db st1)" "held_by_another (sample_adp ''v'') ''e'' 30 (as_db st1)"
    by (rule sample_invoked) blast
  have f: "find_live (restart st1) ''e'' = None" "as_db (restart st1) = as_db st1" "iq_exchange_id sample_invoke = Some ''e''"
    by (simp_all add: restart_def find_live_def sample_invoke_def)
  have e: "se_completed_at (le_settle (ie_lookup (sample_invoke_env i))) = 30"
    "se_receipt_id (le_settle (ie_lookup (sample_invoke_env i))) = i" for i
    by (simp_all add: sample_invoke_env_def sample_settle_def)
  have h: "held_by_another (sample_adp ''v'') ''e'' (se_completed_at (le_settle (ie_lookup (sample_invoke_env i))))
      (as_db (restart st1))" for i
    unfolding f(2) e(1) by (rule s(2))
  have "proto_inv (as_db (restart st1))" unfolding f(2) by (rule s(1))
  from recovery_repeats_receipts[OF this f(1) _ f(3) h h, of "''p''" "''o''"] show ?thesis
    unfolding e(2) by blast
qed

end
